theory Spec2Isabelle
  imports Main "HOL-Library.AList"
begin

chapter \<open>The embedding\<close>

text \<open>
  A shallow embedding of the parts of py-gql that the specification makes claims about:
  the source-location helpers and the block-string trimmer of \<^verbatim>\<open>py_gql/lang/utils.py\<close>,
  the middleware composition of \<^verbatim>\<open>py_gql/execution/middleware.py\<close>, the AST node
  base class of \<^verbatim>\<open>py_gql/lang/ast.py\<close>, the SDL schema builder of
  \<^verbatim>\<open>py_gql/schema/_schema_from_ast.py\<close> and the type-info visitor of
  \<^verbatim>\<open>py_gql/utilities/type_info.py\<close>.

  Python exceptions are values: a function that can raise returns \<open>exn + 'a\<close>, with
  \<open>Inl\<close> for the exception. Python's unbounded integers are \<open>int\<close>. A Python string
  is a \<open>string\<close>, one \<open>char\<close> per character, so the model covers the strings whose
  code points are below 256.
\<close>

datatype exn =
    IndexError
  | RuntimeError string
  | SDLError string
  | TypeError
  | AttributeError
  | UnknownType string
  | UnknownEnumValue string
  | UserException string

abbreviation NL :: char where "NL \<equiv> CHR 0x0A"
abbreviation CR :: char where "CR \<equiv> CHR 0x0D"

section \<open>Source locations (\<^verbatim>\<open>lang/utils.py\<close>)\<close>

text \<open>
  \<^verbatim>\<open>index_to_loc\<close>: the \<^verbatim>\<open>for offset, char in enumerate(body)\<close> loop, with the
  loop variables \<open>lines\<close> and \<open>cols\<close> as arguments. Falling off the end of the body is
  the \<^verbatim>\<open>return\<close> after the loop.
\<close>

fun index_to_loc_loop :: "string \<Rightarrow> int \<Rightarrow> int \<Rightarrow> int \<Rightarrow> int \<Rightarrow> int \<times> int" where
  "index_to_loc_loop [] offset position lines cols = (lines + 1, cols + 1)"
| "index_to_loc_loop (c # cs) offset position lines cols =
     (if offset = position then (lines + 1, cols + 1)
      else if c = NL then index_to_loc_loop cs (offset + 1) position (lines + 1) 0
      else index_to_loc_loop cs (offset + 1) position lines (cols + 1))"

definition index_to_loc :: "string \<Rightarrow> int \<Rightarrow> exn + int \<times> int" where
  "index_to_loc body position =
     (if body = [] \<and> position = 0 then Inr (1, 1)
      else if position > int (length body) then Inl IndexError
      else Inr (index_to_loc_loop body 0 position 0 0))"

text \<open>
  \<^verbatim>\<open>loc_to_index\<close>: the loop over \<^verbatim>\<open>enumerate(body)\<close>; \<open>n\<close> is \<^verbatim>\<open>len(body)\<close>.
  Both the \<^verbatim>\<open>break\<close> and the end of the loop reach the final \<^verbatim>\<open>raise IndexError\<close>.
\<close>

fun loc_to_index_loop :: "string \<Rightarrow> int \<Rightarrow> int \<Rightarrow> int \<Rightarrow> int \<Rightarrow> int \<Rightarrow> exn + int" where
  "loc_to_index_loop [] index n lines lineo col = Inl IndexError"
| "loc_to_index_loop (c # cs) index n lines lineo col =
     (if lines = lineo - 1 then
        (if n \<ge> index + col - 1 then Inr (index + col - 1) else Inl IndexError)
      else loc_to_index_loop cs (index + 1) n (if c = NL then lines + 1 else lines) lineo col)"

definition loc_to_index :: "string \<Rightarrow> int \<times> int \<Rightarrow> exn + int" where
  "loc_to_index body loc =
     (if body = [] \<and> loc = (1, 1) then Inr 0
      else case loc of (lineo, col) \<Rightarrow>
        loc_to_index_loop body 0 (int (length body)) 0 lineo col)"

section \<open>Block strings (\<^verbatim>\<open>lang/utils.py\<close>)\<close>

text \<open>
  \<^verbatim>\<open>LINE_SEPARATOR.split\<close>, for the pattern \<^verbatim>\<open>\r\n|[\n\r]\<close>: the text between the
  separators, a carriage return followed by a newline being one separator. The result is
  never empty, so the empty case of the last equation is never taken.
\<close>

fun line_separator_split :: "string \<Rightarrow> string list" where
  "line_separator_split [] = [[]]"
| "line_separator_split [c] = (if c = NL \<or> c = CR then [[], []] else [[c]])"
| "line_separator_split (c # d # cs) =
     (if c = CR \<and> d = NL then [] # line_separator_split cs
      else if c = NL \<or> c = CR then [] # line_separator_split (d # cs)
      else (case line_separator_split (d # cs) of
              [] \<Rightarrow> [[c]]
            | l # ls \<Rightarrow> (c # l) # ls))"

text \<open>
  The characters that \<^verbatim>\<open>\s\<close> matches and \<^verbatim>\<open>str.strip()\<close> removes (Python 3),
  among the code points below 256.
\<close>

definition is_space :: "char \<Rightarrow> bool" where
  "is_space c = (c \<in> set [CHR 0x09, CHR 0x0A, CHR 0x0B, CHR 0x0C, CHR 0x0D,
                          CHR 0x1C, CHR 0x1D, CHR 0x1E, CHR 0x1F, CHR 0x20, CHR 0x85, CHR 0xA0])"

text \<open>
  \<^verbatim>\<open>leading_whitespace\<close>: \<^verbatim>\<open>LEADING_WS.sub('', string)\<close> removes the match of
  \<^verbatim>\<open>^[\t\s]*\<close>, the longest whitespace prefix.
\<close>

definition leading_whitespace :: "string \<Rightarrow> nat" where
  "leading_whitespace s = length s - length (dropWhile is_space s)"

definition strip :: "string \<Rightarrow> string" where
  "strip s = rev (dropWhile is_space (rev (dropWhile is_space s)))"

definition is_blank :: "string \<Rightarrow> bool" where
  "is_blank s = (strip s = [])"

text \<open>
  \<^verbatim>\<open>parse_block_string\<close>: the first loop (over \<^verbatim>\<open>enumerate(lines)\<close>, with
  \<^verbatim>\<open>common_indent\<close> as the accumulator), the two \<^verbatim>\<open>while\<close> loops that pop blank
  lines, \<^verbatim>\<open>"\n".join\<close>, and the function itself.
\<close>

fun common_indent_loop :: "nat option \<Rightarrow> (nat \<times> string) list \<Rightarrow> nat option" where
  "common_indent_loop common_indent [] = common_indent"
| "common_indent_loop common_indent ((i, line) # rest) =
     (if i = 0 then common_indent_loop common_indent rest
      else if leading_whitespace line < length line
              \<and> (case common_indent of None \<Rightarrow> True | Some c \<Rightarrow> leading_whitespace line < c)
           then common_indent_loop (Some (leading_whitespace line)) rest
           else common_indent_loop common_indent rest)"

fun pop_leading_blank :: "string list \<Rightarrow> string list" where
  "pop_leading_blank [] = []"
| "pop_leading_blank (l # ls) = (if is_blank l then pop_leading_blank ls else l # ls)"

function pop_trailing_blank :: "string list \<Rightarrow> string list" where
  "pop_trailing_blank ls =
     (if ls \<noteq> [] \<and> is_blank (last ls) then pop_trailing_blank (butlast ls) else ls)"
  by pat_completeness auto
termination
  by (relation "measure length") auto

fun join_nl :: "string list \<Rightarrow> string" where
  "join_nl [] = []"
| "join_nl [l] = l"
| "join_nl (l # ls) = l @ NL # join_nl ls"

definition parse_block_string :: "string \<Rightarrow> bool \<Rightarrow> bool \<Rightarrow> string" where
  "parse_block_string raw_string strip_trailing_newlines strip_leading_newlines =
     (let lines0 = line_separator_split raw_string;
          common_indent = common_indent_loop None (enumerate 0 lines0);
          lines1 = (case common_indent of
                      None \<Rightarrow> lines0
                    | Some c \<Rightarrow>
                        if c = 0 then lines0
                        else map (\<lambda>(i, line). if length line \<ge> c \<and> i > 0 then drop c line else line)
                               (enumerate 0 lines0));
          lines2 = (if strip_leading_newlines then pop_leading_blank lines1 else lines1);
          lines3 = (if strip_trailing_newlines then pop_trailing_blank lines2 else lines2)
      in join_nl lines3)"

text \<open>
  The claim's own description of the result, which is the \<^verbatim>\<open>BlockStringValue\<close>
  algorithm that the docstring names, for comparison with the code: the common indent is
  the smallest indent among the lines after the first that are not blank (0 when there
  is none), and it is stripped from every line after the first.
\<close>

definition indents_of :: "string list \<Rightarrow> nat list" where
  "indents_of ls = map leading_whitespace (filter (\<lambda>l. \<not> is_blank l) ls)"

definition common_indent_of :: "string list \<Rightarrow> nat" where
  "common_indent_of ls = (if indents_of ls = [] then 0 else Min (set (indents_of ls)))"

definition block_string_value_stated :: "string \<Rightarrow> string" where
  "block_string_value_stated body =
     (case line_separator_split body of
        [] \<Rightarrow> []
      | first # others \<Rightarrow>
          join_nl (rev (dropWhile is_blank (rev (dropWhile is_blank
            (first # map (drop (common_indent_of others)) others))))))"


section \<open>Middlewares (\<^verbatim>\<open>execution/middleware.py\<close>)\<close>

text \<open>
  A resolver takes its arguments (one value of type \<open>'a\<close> for \<^verbatim>\<open>*args, **kwargs\<close>) and
  returns a result or raises. A generator is the code it still has to run: it returns,
  raises, or yields a value and continues. It is a codatatype, since a generator may
  yield forever.
\<close>

type_synonym ('a, 'r) resolver = "'a \<Rightarrow> exn + 'r"

codatatype 'r generator = Return | Raise exn | Yield 'r "'r generator"

datatype ('a, 'r) middleware =
    Function "('a, 'r) resolver \<Rightarrow> ('a, 'r) resolver"
  | GeneratorFunction "('a, 'r) resolver \<Rightarrow> 'a \<Rightarrow> 'r generator"

text \<open>
  A generator object: the code left to run and the number of \<^verbatim>\<open>next()\<close> calls it has
  received. \<^verbatim>\<open>next(gen)\<close> runs the generator to its next yield; a generator that has
  returned or raised is exhausted.
\<close>

record 'r gen_object =
  code_left :: "'r generator"
  next_calls :: nat

datatype 'r next_result = Yielded 'r | StopIteration | Raised exn

definition next_gen :: "'r gen_object \<Rightarrow> 'r next_result \<times> 'r gen_object" where
  "next_gen g =
     (case code_left g of
        Return \<Rightarrow> (StopIteration, g\<lparr>next_calls := Suc (next_calls g)\<rparr>)
      | Raise e \<Rightarrow> (Raised e, \<lparr>code_left = Return, next_calls = Suc (next_calls g)\<rparr>)
      | Yield v k \<Rightarrow> (Yielded v, \<lparr>code_left = k, next_calls = Suc (next_calls g)\<rparr>))"

text \<open>
  \<^verbatim>\<open>_finish\<close>: one more \<^verbatim>\<open>next(gen)\<close>; only \<^verbatim>\<open>StopIteration\<close> is caught, a second
  yielded value is dropped.
\<close>

definition finish :: "'r gen_object \<Rightarrow> exn option \<times> 'r gen_object" where
  "finish g =
     (case next_gen g of
        (Yielded v, g') \<Rightarrow> (None, g')
      | (StopIteration, g') \<Rightarrow> (None, g')
      | (Raised e, g') \<Rightarrow> (Some e, g'))"

text \<open>
  What a call of \<^verbatim>\<open>wrapped\<close> leaves behind: the generator object, and whether
  \<^verbatim>\<open>_finish\<close> has been registered with \<^verbatim>\<open>res.add_done_callback\<close> and not run yet.
  \<^verbatim>\<open>_concurrency.is_deferred\<close> is not among the sources and is a parameter.
\<close>

record 'r call_state =
  gen :: "'r gen_object"
  finish_registered :: bool

definition wrapped ::
  "('r \<Rightarrow> bool) \<Rightarrow> (('a, 'r) resolver \<Rightarrow> 'a \<Rightarrow> 'r generator) \<Rightarrow> ('a, 'r) resolver \<Rightarrow> 'a
     \<Rightarrow> (exn + 'r) \<times> 'r call_state" where
  "wrapped is_deferred func step args =
     (case next_gen \<lparr>code_left = func step args, next_calls = 0\<rparr> of
        (StopIteration, g1) \<Rightarrow>
          (Inl (RuntimeError ''Generator middleware did not yield''),
           \<lparr>gen = g1, finish_registered = False\<rparr>)
      | (Raised e, g1) \<Rightarrow> (Inl e, \<lparr>gen = g1, finish_registered = False\<rparr>)
      | (Yielded res, g1) \<Rightarrow>
          if is_deferred res then (Inr res, \<lparr>gen = g1, finish_registered = True\<rparr>)
          else (case finish g1 of
                  (Some e, g2) \<Rightarrow> (Inl e, \<lparr>gen = g2, finish_registered = False\<rparr>)
                | (None, g2) \<Rightarrow> (Inr res, \<lparr>gen = g2, finish_registered = False\<rparr>)))"

text \<open>
  Modelled from the spec: the deferred value's completion, which is not among the
  sources (\<^verbatim>\<open>_concurrency\<close>). Section 4.10: "code after the yield runs after the deferred
  completes [...] the engine schedules it on completion". Completion runs the registered
  callback once; an exception of the callback does not reach the caller.
\<close>

definition deferred_completes :: "'r call_state \<Rightarrow> 'r call_state" where
  "deferred_completes st =
     (if finish_registered st then \<lparr>gen = snd (finish (gen st)), finish_registered = False\<rparr>
      else st)"

definition generator_middleware ::
  "('r \<Rightarrow> bool) \<Rightarrow> (('a, 'r) resolver \<Rightarrow> 'a \<Rightarrow> 'r generator)
     \<Rightarrow> ('a, 'r) resolver \<Rightarrow> ('a, 'r) resolver" where
  "generator_middleware is_deferred func = (\<lambda>step args. fst (wrapped is_deferred func step args))"

text \<open>
  One step of the loop of \<^verbatim>\<open>apply_middlewares\<close>: a generator function is converted
  (\<^verbatim>\<open>_is_generator\<close>), then \<^verbatim>\<open>ft.partial(mw, tail)\<close> fixes the first argument.
\<close>

definition partial_mw ::
  "('r \<Rightarrow> bool) \<Rightarrow> ('a, 'r) middleware \<Rightarrow> ('a, 'r) resolver \<Rightarrow> ('a, 'r) resolver" where
  "partial_mw is_deferred mw tail =
     (case mw of
        GeneratorFunction g \<Rightarrow> generator_middleware is_deferred g tail
      | Function f \<Rightarrow> f tail)"

fun apply_middlewares_loop ::
  "('r \<Rightarrow> bool) \<Rightarrow> ('a, 'r) resolver \<Rightarrow> ('a, 'r) middleware list \<Rightarrow> ('a, 'r) resolver" where
  "apply_middlewares_loop is_deferred tail [] = tail"
| "apply_middlewares_loop is_deferred tail (mw # mws) =
     apply_middlewares_loop is_deferred (partial_mw is_deferred mw tail) mws"

definition apply_middlewares ::
  "('r \<Rightarrow> bool) \<Rightarrow> ('a, 'r) resolver \<Rightarrow> ('a, 'r) middleware list \<Rightarrow> ('a, 'r) resolver" where
  "apply_middlewares is_deferred func middlewares =
     (if middlewares = [] then func
      else apply_middlewares_loop is_deferred func (rev middlewares))"

section \<open>SDL nodes (\<^verbatim>\<open>lang/ast.py\<close>)\<close>

text \<open>
  The type-system nodes that the schema builder reads, with the attributes it reads. A
  \<^verbatim>\<open>Name\<close> node is its \<^verbatim>\<open>value\<close>, a description its string, a reference that the
  source types as \<^verbatim>\<open>NamedType\<close> (interfaces, union members, operation types) the name
  it refers to. The builder never looks into value literals and directive lists: they
  are the type parameters \<open>'v\<close> and \<open>'d\<close>. The constructor arguments follow the order
  of \<^verbatim>\<open>__slots__\<close>. \<open>OtherDefinition\<close> stands for the definitions that are none of the
  four kinds the extraction pass tests for (executable definitions, schema extensions).
\<close>

datatype type_node = NamedType string | ListType type_node | NonNullType type_node

record ('v, 'd) input_value_definition =
  ivd_description :: "string option"
  ivd_name :: string
  ivd_type :: type_node
  ivd_default_value :: "'v option"
  ivd_directives :: 'd

record ('v, 'd) field_definition =
  fd_description :: "string option"
  fd_name :: string
  fd_arguments :: "('v, 'd) input_value_definition list"
  fd_type :: type_node
  fd_directives :: 'd

record 'd enum_value_definition =
  evd_description :: "string option"
  evd_name :: string
  evd_directives :: 'd

datatype ('v, 'd) type_definition =
    ScalarTypeDefinition "string option" string 'd
  | ObjectTypeDefinition "string option" string "string list" 'd "('v, 'd) field_definition list"
  | InterfaceTypeDefinition "string option" string 'd "('v, 'd) field_definition list"
  | UnionTypeDefinition "string option" string 'd "string list"
  | EnumTypeDefinition "string option" string 'd "'d enum_value_definition list"
  | InputObjectTypeDefinition "string option" string 'd "('v, 'd) input_value_definition list"

datatype ('v, 'd) type_extension =
    ScalarTypeExtension string 'd
  | ObjectTypeExtension string "string list" 'd "('v, 'd) field_definition list"
  | InterfaceTypeExtension string 'd "('v, 'd) field_definition list"
  | UnionTypeExtension string 'd "string list"
  | EnumTypeExtension string 'd "'d enum_value_definition list"
  | InputObjectTypeExtension string 'd "('v, 'd) input_value_definition list"

record ('v, 'd) directive_definition =
  dd_description :: "string option"
  dd_name :: string
  dd_arguments :: "('v, 'd) input_value_definition list"
  dd_locations :: "string list"

record operation_type_definition =
  otd_operation :: string
  otd_type :: string

record 'd schema_definition =
  sd_directives :: 'd
  sd_operation_types :: "operation_type_definition list"

datatype ('v, 'd) sdl_definition =
    SchemaDefinition "'d schema_definition"
  | TypeDefinition "('v, 'd) type_definition"
  | TypeExtension "('v, 'd) type_extension"
  | DirectiveDefinition "('v, 'd) directive_definition"
  | OtherDefinition

fun type_definition_name :: "('v, 'd) type_definition \<Rightarrow> string" where
  "type_definition_name (ScalarTypeDefinition descr name dirs) = name"
| "type_definition_name (ObjectTypeDefinition descr name ifaces dirs flds) = name"
| "type_definition_name (InterfaceTypeDefinition descr name dirs flds) = name"
| "type_definition_name (UnionTypeDefinition descr name dirs types) = name"
| "type_definition_name (EnumTypeDefinition descr name dirs vals) = name"
| "type_definition_name (InputObjectTypeDefinition descr name dirs flds) = name"

fun type_extension_name :: "('v, 'd) type_extension \<Rightarrow> string" where
  "type_extension_name (ScalarTypeExtension name dirs) = name"
| "type_extension_name (ObjectTypeExtension name ifaces dirs flds) = name"
| "type_extension_name (InterfaceTypeExtension name dirs flds) = name"
| "type_extension_name (UnionTypeExtension name dirs types) = name"
| "type_extension_name (EnumTypeExtension name dirs vals) = name"
| "type_extension_name (InputObjectTypeExtension name dirs flds) = name"

section \<open>Python dictionaries\<close>

text \<open>
  A \<^verbatim>\<open>dict\<close> is an association list with distinct keys in insertion order:
  \<^verbatim>\<open>k in d\<close>, \<^verbatim>\<open>d[k] = v\<close> (which keeps the position of a key that is present and
  appends a new one) and \<^verbatim>\<open>d.get(k)\<close>.
\<close>

type_synonym ('k, 'a) dict = "('k \<times> 'a) list"

definition dict_contains :: "('k, 'a) dict \<Rightarrow> 'k \<Rightarrow> bool" where
  "dict_contains d k = (map_of d k \<noteq> None)"

definition dict_set :: "('k, 'a) dict \<Rightarrow> 'k \<Rightarrow> 'a \<Rightarrow> ('k, 'a) dict" where
  "dict_set d k v = AList.update k v d"

definition dict_get :: "('k, 'a) dict \<Rightarrow> 'k \<Rightarrow> 'a option" where
  "dict_get d k = map_of d k"

section \<open>The extraction pass (\<^verbatim>\<open>schema/_schema_from_ast.py\<close>)\<close>

text \<open>
  \<^verbatim>\<open>_extract_type\<close>: the four results are a record, the \<^verbatim>\<open>defaultdict(list)\<close> of
  extensions is a total function with the empty list as default, and the loop over the
  definitions takes the four as its accumulator.
\<close>

record ('v, 'd) extracted =
  ex_schema_definition :: "'d schema_definition option"
  ex_types :: "(string, ('v, 'd) type_definition) dict"
  ex_extensions :: "string \<Rightarrow> ('v, 'd) type_extension list"
  ex_directives :: "(string, ('v, 'd) directive_definition) dict"

fun extract_type_loop ::
  "('v, 'd) extracted \<Rightarrow> ('v, 'd) sdl_definition list \<Rightarrow> exn + ('v, 'd) extracted" where
  "extract_type_loop acc [] = Inr acc"
| "extract_type_loop acc (SchemaDefinition s # rest) =
     (if ex_schema_definition acc \<noteq> None
      then Inl (SDLError ''Must provide only one schema definition'')
      else extract_type_loop (acc\<lparr>ex_schema_definition := Some s\<rparr>) rest)"
| "extract_type_loop acc (TypeDefinition t # rest) =
     (if dict_contains (ex_types acc) (type_definition_name t)
      then Inl (SDLError (''Duplicate type '' @ type_definition_name t))
      else extract_type_loop
             (acc\<lparr>ex_types := dict_set (ex_types acc) (type_definition_name t) t\<rparr>) rest)"
| "extract_type_loop acc (TypeExtension e # rest) =
     extract_type_loop
       (acc\<lparr>ex_extensions := (ex_extensions acc)
              (type_extension_name e := ex_extensions acc (type_extension_name e) @ [e])\<rparr>) rest"
| "extract_type_loop acc (DirectiveDefinition d # rest) =
     (if dict_contains (ex_directives acc) (dd_name d)
      then Inl (SDLError (''Duplicate directive @'' @ dd_name d))
      else extract_type_loop
             (acc\<lparr>ex_directives := dict_set (ex_directives acc) (dd_name d) d\<rparr>) rest)"
| "extract_type_loop acc (OtherDefinition # rest) = extract_type_loop acc rest"

definition extract_type_pass :: "('v, 'd) sdl_definition list \<Rightarrow> exn + ('v, 'd) extracted" where
  "extract_type_pass defs =
     extract_type_loop
       \<lparr>ex_schema_definition = None, ex_types = [], ex_extensions = (\<lambda>name. []),
        ex_directives = []\<rparr> defs"

text \<open>
  What the specification says the pass computes: the definitions of each kind, in
  document order; no duplicates; the partition.
\<close>

fun schema_definitions_of :: "('v, 'd) sdl_definition list \<Rightarrow> 'd schema_definition list" where
  "schema_definitions_of [] = []"
| "schema_definitions_of (SchemaDefinition s # ds) = s # schema_definitions_of ds"
| "schema_definitions_of (d # ds) = schema_definitions_of ds"

fun type_definitions_of :: "('v, 'd) sdl_definition list \<Rightarrow> ('v, 'd) type_definition list" where
  "type_definitions_of [] = []"
| "type_definitions_of (TypeDefinition t # ds) = t # type_definitions_of ds"
| "type_definitions_of (d # ds) = type_definitions_of ds"

fun type_extensions_of :: "('v, 'd) sdl_definition list \<Rightarrow> ('v, 'd) type_extension list" where
  "type_extensions_of [] = []"
| "type_extensions_of (TypeExtension e # ds) = e # type_extensions_of ds"
| "type_extensions_of (d # ds) = type_extensions_of ds"

fun directive_definitions_of :: "('v, 'd) sdl_definition list \<Rightarrow> ('v, 'd) directive_definition list" where
  "directive_definitions_of [] = []"
| "directive_definitions_of (DirectiveDefinition d # ds) = d # directive_definitions_of ds"
| "directive_definitions_of (d # ds) = directive_definitions_of ds"

definition no_duplicates :: "('v, 'd) sdl_definition list \<Rightarrow> bool" where
  "no_duplicates ds =
     (length (schema_definitions_of ds) \<le> 1
      \<and> distinct (map type_definition_name (type_definitions_of ds))
      \<and> distinct (map dd_name (directive_definitions_of ds)))"

definition partitioned :: "('v, 'd) sdl_definition list \<Rightarrow> ('v, 'd) extracted" where
  "partitioned ds =
     \<lparr>ex_schema_definition =
        (case schema_definitions_of ds of [] \<Rightarrow> None | s # ss \<Rightarrow> Some s),
      ex_types = map (\<lambda>t. (type_definition_name t, t)) (type_definitions_of ds),
      ex_extensions = (\<lambda>name. filter (\<lambda>e. type_extension_name e = name) (type_extensions_of ds)),
      ex_directives = map (\<lambda>d. (dd_name d, d)) (directive_definitions_of ds)\<rparr>"

text \<open>
  The same two notions for the loop started in the middle of a document, with the
  accumulator \<open>acc\<close> for what has been seen.
\<close>

definition acc_ok :: "('v, 'd) extracted \<Rightarrow> ('v, 'd) sdl_definition list \<Rightarrow> bool" where
  "acc_ok acc ds =
     (length (schema_definitions_of ds) \<le> (if ex_schema_definition acc = None then 1 else 0)
      \<and> distinct (map fst (ex_types acc) @ map type_definition_name (type_definitions_of ds))
      \<and> distinct (map fst (ex_directives acc) @ map dd_name (directive_definitions_of ds)))"

definition acc_result :: "('v, 'd) extracted \<Rightarrow> ('v, 'd) sdl_definition list \<Rightarrow> ('v, 'd) extracted" where
  "acc_result acc ds =
     \<lparr>ex_schema_definition =
        (case ex_schema_definition acc of
           Some s \<Rightarrow> Some s
         | None \<Rightarrow> (case schema_definitions_of ds of [] \<Rightarrow> None | s # ss \<Rightarrow> Some s)),
      ex_types = ex_types acc @ map (\<lambda>t. (type_definition_name t, t)) (type_definitions_of ds),
      ex_extensions = (\<lambda>name. ex_extensions acc name
                         @ filter (\<lambda>e. type_extension_name e = name) (type_extensions_of ds)),
      ex_directives = ex_directives acc @ map (\<lambda>d. (dd_name d, d)) (directive_definitions_of ds)\<rparr>"

section \<open>Operation types (\<^verbatim>\<open>schema/_schema_from_ast.py\<close>)\<close>

text \<open>
  \<^verbatim>\<open>str.capitalize\<close> on ASCII letters; \<^verbatim>\<open>_operation_types\<close> with its loop over
  \<^verbatim>\<open>schema_definition.operation_types\<close>. Without a schema definition the values of the
  result are \<^verbatim>\<open>type_map.get(...)\<close> and may be \<^verbatim>\<open>None\<close>, so the result maps to
  optional types; \<open>get_operation_type\<close> is the \<^verbatim>\<open>operation_types.get("query")\<close> of
  \<^verbatim>\<open>schema_from_ast\<close>.
\<close>

definition upper :: "char \<Rightarrow> char" where
  "upper c = (case map_of (zip ''abcdefghijklmnopqrstuvwxyz'' ''ABCDEFGHIJKLMNOPQRSTUVWXYZ'') c of
                None \<Rightarrow> c | Some u \<Rightarrow> u)"

definition lower :: "char \<Rightarrow> char" where
  "lower c = (case map_of (zip ''ABCDEFGHIJKLMNOPQRSTUVWXYZ'' ''abcdefghijklmnopqrstuvwxyz'') c of
                None \<Rightarrow> c | Some l \<Rightarrow> l)"

definition capitalize :: "string \<Rightarrow> string" where
  "capitalize s = (case s of [] \<Rightarrow> [] | c # cs \<Rightarrow> upper c # map lower cs)"

fun operation_types_loop ::
  "(string, 'ty option) dict \<Rightarrow> (string, 'ty) dict \<Rightarrow> operation_type_definition list
     \<Rightarrow> exn + (string, 'ty option) dict" where
  "operation_types_loop operation_types type_map [] = Inr operation_types"
| "operation_types_loop operation_types type_map (opdef # rest) =
     (if dict_contains operation_types (otd_operation opdef)
      then Inl (SDLError (''Can only define one '' @ otd_operation opdef @ '' in schema''))
      else if \<not> dict_contains type_map (otd_type opdef)
      then Inl (SDLError (otd_operation opdef @ '' type '' @ otd_type opdef
                          @ '' not found in document''))
      else operation_types_loop
             (dict_set operation_types (otd_operation opdef) (dict_get type_map (otd_type opdef)))
             type_map rest)"

definition operation_types ::
  "'d schema_definition option \<Rightarrow> (string, 'ty) dict \<Rightarrow> exn + (string, 'ty option) dict" where
  "operation_types schema_definition type_map =
     (case schema_definition of
        None \<Rightarrow>
          Inr (map (\<lambda>k. (k, dict_get type_map (capitalize k)))
                 [''query'', ''mutation'', ''subscription''])
      | Some sd \<Rightarrow> operation_types_loop [] type_map (sd_operation_types sd))"

definition get_operation_type :: "(string, 'ty option) dict \<Rightarrow> string \<Rightarrow> 'ty option" where
  "get_operation_type d k = (case dict_get d k of None \<Rightarrow> None | Some t \<Rightarrow> t)"

definition declared_once_and_known ::
  "(string, 'ty) dict \<Rightarrow> operation_type_definition list \<Rightarrow> bool" where
  "declared_once_and_known type_map opdefs =
     (distinct (map otd_operation opdefs)
      \<and> list_all (\<lambda>opdef. dict_contains type_map (otd_type opdef)) opdefs)"

section \<open>Schema objects\<close>

text \<open>
  Modelled from the spec: the classes of \<^verbatim>\<open>py_gql.schema\<close> that the builder instantiates
  are not among the sources. Each is a value holding its constructor arguments. Section 3:
  "Object types carry fields and an interface list. Fields carry (name, type,
  arguments[], resolver?, deprecation?). Arguments and input-object fields share an
  InputValue shape (name, type, default?, description). Enum types carry ordered values;
  each value has a wire name and an internal value payload." So the \<^verbatim>\<open>fields\<close> and
  \<^verbatim>\<open>interfaces\<close> of an object type are lists, \<^verbatim>\<open>interfaces=None\<close> giving the empty
  one. \<open>LazyRef name\<close> is the closure \<^verbatim>\<open>lambda: self._cache[type_name]\<close> that
  \<^verbatim>\<open>ref\<close> returns; \<open>GivenType\<close> is a type object that comes from outside the document
  (\<^verbatim>\<open>known_types\<close>, \<^verbatim>\<open>SPECIFIED_SCALAR_TYPES\<close>), of which the builder reads the name
  only. \<open>'c\<close> is the type of coerced default values.
\<close>

record enum_value =
  ev_name :: string
  ev_description :: "string option"
  ev_value :: string
  ev_deprecation_reason :: "string option"

datatype 'c gql_type =
    LazyRef string
  | ListT "'c gql_type"
  | NonNullT "'c gql_type"
  | ObjectType string "string option" "'c field list" "'c gql_type list"
  | InterfaceType string "string option" "'c field list"
  | EnumType string "string option" "enum_value list"
  | UnionType string "string option" "'c gql_type list"
  | DefaultCustomScalar string "string option"
  | InputObjectType string "string option" "'c input_value list"
  | GivenType string
and 'c field =
    Field string "'c gql_type" "string option" "'c input_value list option" "string option"
and 'c input_value =
    Argument string "'c gql_type" "string option" "'c option"
  | InputField string "'c gql_type" "string option" "'c option"

record 'c schema_directive =
  dir_name :: string
  dir_description :: "string option"
  dir_locations :: "string list"
  dir_args :: "'c input_value list option"

fun gql_type_name :: "'c gql_type \<Rightarrow> exn + string" where
  "gql_type_name (LazyRef n) = Inl AttributeError"
| "gql_type_name (ListT t) = Inl AttributeError"
| "gql_type_name (NonNullT t) = Inl AttributeError"
| "gql_type_name (ObjectType n d fs is) = Inr n"
| "gql_type_name (InterfaceType n d fs) = Inr n"
| "gql_type_name (EnumType n d vs) = Inr n"
| "gql_type_name (UnionType n d ts) = Inr n"
| "gql_type_name (DefaultCustomScalar n d) = Inr n"
| "gql_type_name (InputObjectType n d fs) = Inr n"
| "gql_type_name (GivenType n) = Inr n"

section \<open>The type map builder (\<^verbatim>\<open>schema/_schema_from_ast.py\<close>)\<close>

text \<open>
  The builder mutates \<^verbatim>\<open>self._cache\<close> and \<^verbatim>\<open>self._stack\<close> and raises: a method is a
  function from the state to an exception or a result and the new state. \<open>for_each\<close>
  is a list comprehension, evaluated left to right.
\<close>

record 'c builder_state =
  cache :: "(string, 'c gql_type) dict"
  stack :: "string list"

type_synonym ('a, 'c) build = "'c builder_state \<Rightarrow> exn + 'a \<times> 'c builder_state"

definition ret :: "'a \<Rightarrow> ('a, 'c) build" where
  "ret x = (\<lambda>st. Inr (x, st))"

definition raise :: "exn \<Rightarrow> ('a, 'c) build" where
  "raise e = (\<lambda>st. Inl e)"

definition bind :: "('a, 'c) build \<Rightarrow> ('a \<Rightarrow> ('b, 'c) build) \<Rightarrow> ('b, 'c) build" where
  "bind m f = (\<lambda>st. case m st of Inl e \<Rightarrow> Inl e | Inr (x, st') \<Rightarrow> f x st')"

definition lift :: "exn + 'a \<Rightarrow> ('a, 'c) build" where
  "lift r = (\<lambda>st. case r of Inl e \<Rightarrow> Inl e | Inr x \<Rightarrow> Inr (x, st))"

fun for_each :: "('a \<Rightarrow> ('b, 'c) build) \<Rightarrow> 'a list \<Rightarrow> ('b list, 'c) build" where
  "for_each f [] = ret []"
| "for_each f (x # xs) = bind (f x) (\<lambda>y. bind (for_each f xs) (\<lambda>ys. ret (y # ys)))"

text \<open>
  What the methods read of \<^verbatim>\<open>self\<close> without changing it: the two results of the
  extraction pass, and three functions. \<^verbatim>\<open>typed_value_from_ast\<close> and the
  \<^verbatim>\<open>directive_arguments\<close> behind \<^verbatim>\<open>_deprecation_reason\<close> are not among the sources and
  are parameters, which may raise. \<open>build_type_definition_rec\<close> is the recursive call
  \<^verbatim>\<open>self.build_type(type_def)\<close> in the \<^verbatim>\<open>NamedType\<close> branch of \<^verbatim>\<open>build_type\<close>.
\<close>

record ('v, 'd, 'c) builder =
  type_nodes :: "(string, ('v, 'd) type_definition) dict"
  extension_nodes :: "string \<Rightarrow> ('v, 'd) type_extension list"
  typed_value_from_ast :: "'v \<Rightarrow> 'c gql_type \<Rightarrow> exn + 'c"
  deprecation_reason :: "'d \<Rightarrow> exn + string option"
  build_type_definition_rec :: "('v, 'd) type_definition \<Rightarrow> ('c gql_type, 'c) build"

text \<open>
  \<^verbatim>\<open>build_type\<close> on a type reference. In the \<^verbatim>\<open>NamedType\<close> branch the name is pushed
  on the stack before the stack is searched for it.
\<close>

definition build_named_type :: "('v, 'd, 'c) builder \<Rightarrow> string \<Rightarrow> ('c gql_type, 'c) build" where
  "build_named_type self type_name = (\<lambda>st.
     case dict_get (cache st) type_name of
       Some t \<Rightarrow> Inr (t, st)
     | None \<Rightarrow>
         (let st1 = st\<lparr>stack := stack st @ [type_name]\<rparr> in
          case dict_get (type_nodes self) type_name of
            None \<Rightarrow> Inl (SDLError (''Type '' @ type_name @ '' not found in document''))
          | Some type_def \<Rightarrow>
              if type_name \<in> set (stack st1) then Inr (LazyRef type_name, st1)
              else (case build_type_definition_rec self type_def st1 of
                      Inl e \<Rightarrow> Inl e
                    | Inr (t, st2) \<Rightarrow>
                        Inr (t, st2\<lparr>cache := dict_set (cache st2) type_name t,
                                    stack := butlast (stack st2)\<rparr>))))"

fun build_type :: "('v, 'd, 'c) builder \<Rightarrow> type_node \<Rightarrow> ('c gql_type, 'c) build" where
  "build_type self (ListType t) = bind (build_type self t) (\<lambda>b. ret (ListT b))"
| "build_type self (NonNullType t) = bind (build_type self t) (\<lambda>b. ret (NonNullT b))"
| "build_type self (NamedType type_name) = build_named_type self type_name"

text \<open>
  \<^verbatim>\<open>argument\<close>, \<^verbatim>\<open>input_field\<close>, \<^verbatim>\<open>object_field\<close> and \<^verbatim>\<open>enum_value\<close>. Python
  evaluates the arguments of a call from left to right.
\<close>

definition argument ::
  "('v, 'd, 'c) builder \<Rightarrow> ('v, 'd) input_value_definition \<Rightarrow> ('c input_value, 'c) build" where
  "argument self node =
     bind (build_type self (ivd_type node)) (\<lambda>t.
       case ivd_default_value node of
         None \<Rightarrow> ret (Argument (ivd_name node) t (ivd_description node) None)
       | Some v \<Rightarrow>
           bind (lift (typed_value_from_ast self v t)) (\<lambda>c.
             ret (Argument (ivd_name node) t (ivd_description node) (Some c))))"

definition input_field ::
  "('v, 'd, 'c) builder \<Rightarrow> ('v, 'd) input_value_definition \<Rightarrow> ('c input_value, 'c) build" where
  "input_field self node =
     bind (build_type self (ivd_type node)) (\<lambda>t.
       case ivd_default_value node of
         None \<Rightarrow> ret (InputField (ivd_name node) t (ivd_description node) None)
       | Some v \<Rightarrow>
           bind (lift (typed_value_from_ast self v t)) (\<lambda>c.
             ret (InputField (ivd_name node) t (ivd_description node) (Some c))))"

definition object_field ::
  "('v, 'd, 'c) builder \<Rightarrow> ('v, 'd) field_definition \<Rightarrow> ('c field, 'c) build" where
  "object_field self node =
     bind (build_type self (fd_type node)) (\<lambda>t.
     bind (if fd_arguments node \<noteq> []
           then bind (for_each (argument self) (fd_arguments node)) (\<lambda>args. ret (Some args))
           else ret None) (\<lambda>args.
     bind (lift (deprecation_reason self (fd_directives node))) (\<lambda>reason.
       ret (Field (fd_name node) t (fd_description node) args reason))))"

definition enum_value_of ::
  "('v, 'd, 'c) builder \<Rightarrow> 'd enum_value_definition \<Rightarrow> (enum_value, 'c) build" where
  "enum_value_of self node =
     bind (lift (deprecation_reason self (evd_directives node))) (\<lambda>reason.
       ret \<lparr>ev_name = evd_name node, ev_description = evd_description node,
            ev_value = evd_name node, ev_deprecation_reason = reason\<rparr>)"

text \<open>
  \<^verbatim>\<open>object_type\<close> and \<^verbatim>\<open>interface_type\<close>, each with its loop over
  \<^verbatim>\<open>self._extension_nodes[t.name]\<close>. For an object-type extension without interfaces the
  argument of \<^verbatim>\<open>t.interfaces.extend\<close> is \<^verbatim>\<open>None\<close>, and \<^verbatim>\<open>list.extend(None)\<close> raises
  \<^verbatim>\<open>TypeError\<close>.
\<close>

fun object_type_extensions ::
  "('v, 'd, 'c) builder \<Rightarrow> string \<Rightarrow> string option \<Rightarrow> 'c field list \<Rightarrow> 'c gql_type list
     \<Rightarrow> ('v, 'd) type_extension list \<Rightarrow> ('c gql_type, 'c) build" where
  "object_type_extensions self name descr flds ifaces [] =
     ret (ObjectType name descr flds ifaces)"
| "object_type_extensions self name descr flds ifaces (ext # rest) =
     (case ext of
        ObjectTypeExtension ext_name ext_interfaces ext_directives ext_fields \<Rightarrow>
          bind (for_each (object_field self) ext_fields) (\<lambda>more_fields.
            if ext_interfaces \<noteq> []
            then bind (for_each (build_named_type self) ext_interfaces)
                   (\<lambda>more_ifaces.
                      object_type_extensions self name descr (flds @ more_fields)
                        (ifaces @ more_ifaces) rest)
            else raise TypeError)
      | _ \<Rightarrow> raise (SDLError (''Expected an ObjectTypeExtension node for ObjectType '' @ name)))"

definition object_type ::
  "('v, 'd, 'c) builder \<Rightarrow> string option \<Rightarrow> string \<Rightarrow> string list
     \<Rightarrow> ('v, 'd) field_definition list \<Rightarrow> ('c gql_type, 'c) build" where
  "object_type self descr name interfaces flds =
     bind (for_each (object_field self) flds) (\<lambda>fs.
     bind (if interfaces \<noteq> []
           then for_each (build_named_type self) interfaces
           else ret []) (\<lambda>ifaces.
       object_type_extensions self name descr fs ifaces (extension_nodes self name)))"

fun interface_type_extensions ::
  "('v, 'd, 'c) builder \<Rightarrow> string \<Rightarrow> string option \<Rightarrow> 'c field list
     \<Rightarrow> ('v, 'd) type_extension list \<Rightarrow> ('c gql_type, 'c) build" where
  "interface_type_extensions self name descr flds [] = ret (InterfaceType name descr flds)"
| "interface_type_extensions self name descr flds (ext # rest) =
     (case ext of
        InterfaceTypeExtension ext_name ext_directives ext_fields \<Rightarrow>
          bind (for_each (object_field self) ext_fields) (\<lambda>more_fields.
            interface_type_extensions self name descr (flds @ more_fields) rest)
      | _ \<Rightarrow> raise (SDLError (''Expected an InterfaceTypeExtension node for InterfaceType ''
                               @ name)))"

definition interface_type ::
  "('v, 'd, 'c) builder \<Rightarrow> string option \<Rightarrow> string \<Rightarrow> ('v, 'd) field_definition list
     \<Rightarrow> ('c gql_type, 'c) build" where
  "interface_type self descr name flds =
     bind (for_each (object_field self) flds) (\<lambda>fs.
       interface_type_extensions self name descr fs (extension_nodes self name))"

text \<open>
  \<^verbatim>\<open>enum_type\<close>. Its loop tests \<^verbatim>\<open>isinstance(ext, _ast.UnionTypeExtension)\<close>; a node
  that passes has no \<^verbatim>\<open>values\<close> slot, so reading \<^verbatim>\<open>ext.values\<close> raises
  \<^verbatim>\<open>AttributeError\<close>.
\<close>

fun enum_type_extensions ::
  "('v, 'd, 'c) builder \<Rightarrow> string \<Rightarrow> enum_value list \<Rightarrow> ('v, 'd) type_extension list
     \<Rightarrow> (enum_value list, 'c) build" where
  "enum_type_extensions self name vals [] = ret vals"
| "enum_type_extensions self name vals (ext # rest) =
     (case ext of
        UnionTypeExtension ext_name ext_directives ext_types \<Rightarrow> raise AttributeError
      | _ \<Rightarrow> raise (SDLError (''Expected an UnionTypeExtension node for UnionType '' @ name)))"

definition enum_type ::
  "('v, 'd, 'c) builder \<Rightarrow> string option \<Rightarrow> string \<Rightarrow> 'd enum_value_definition list
     \<Rightarrow> ('c gql_type, 'c) build" where
  "enum_type self descr name vals =
     bind (for_each (enum_value_of self) vals) (\<lambda>vs.
     bind (enum_type_extensions self name vs (extension_nodes self name)) (\<lambda>all_values.
       ret (EnumType name descr all_values)))"

text \<open>
  \<^verbatim>\<open>union_type\<close>, \<^verbatim>\<open>scalar_type\<close> and \<^verbatim>\<open>input_object_type\<close>.
\<close>

fun union_type_extensions ::
  "('v, 'd, 'c) builder \<Rightarrow> string \<Rightarrow> string option \<Rightarrow> 'c gql_type list
     \<Rightarrow> ('v, 'd) type_extension list \<Rightarrow> ('c gql_type, 'c) build" where
  "union_type_extensions self name descr types [] = ret (UnionType name descr types)"
| "union_type_extensions self name descr types (ext # rest) =
     (case ext of
        UnionTypeExtension ext_name ext_directives ext_types \<Rightarrow>
          bind (for_each (build_named_type self) ext_types) (\<lambda>more_types.
            union_type_extensions self name descr (types @ more_types) rest)
      | _ \<Rightarrow> raise (SDLError (''Expected an UnionTypeExtension node for UnionType '' @ name)))"

definition union_type ::
  "('v, 'd, 'c) builder \<Rightarrow> string option \<Rightarrow> string \<Rightarrow> string list \<Rightarrow> ('c gql_type, 'c) build" where
  "union_type self descr name types =
     bind (for_each (build_named_type self) types) (\<lambda>ts.
       union_type_extensions self name descr ts (extension_nodes self name))"

definition scalar_type :: "string option \<Rightarrow> string \<Rightarrow> ('c gql_type, 'c) build" where
  "scalar_type descr name = ret (DefaultCustomScalar name descr)"

definition input_object_type ::
  "('v, 'd, 'c) builder \<Rightarrow> string option \<Rightarrow> string \<Rightarrow> ('v, 'd) input_value_definition list
     \<Rightarrow> ('c gql_type, 'c) build" where
  "input_object_type self descr name flds =
     bind (for_each (input_field self) flds) (\<lambda>fs. ret (InputObjectType name descr fs))"

text \<open>
  \<^verbatim>\<open>type_from_definition\<close>, and \<^verbatim>\<open>build_type\<close> on a \<^verbatim>\<open>TypeDefinition\<close> node.
\<close>

fun type_from_definition ::
  "('v, 'd, 'c) builder \<Rightarrow> ('v, 'd) type_definition \<Rightarrow> ('c gql_type, 'c) build" where
  "type_from_definition self (ObjectTypeDefinition descr name interfaces dirs flds) =
     object_type self descr name interfaces flds"
| "type_from_definition self (InterfaceTypeDefinition descr name dirs flds) =
     interface_type self descr name flds"
| "type_from_definition self (EnumTypeDefinition descr name dirs vals) =
     enum_type self descr name vals"
| "type_from_definition self (UnionTypeDefinition descr name dirs types) =
     union_type self descr name types"
| "type_from_definition self (ScalarTypeDefinition descr name dirs) =
     scalar_type descr name"
| "type_from_definition self (InputObjectTypeDefinition descr name dirs flds) =
     input_object_type self descr name flds"

definition build_type_definition ::
  "('v, 'd, 'c) builder \<Rightarrow> ('v, 'd) type_definition \<Rightarrow> ('c gql_type, 'c) build" where
  "build_type_definition self type_node = (\<lambda>st.
     case dict_get (cache st) (type_definition_name type_node) of
       Some t \<Rightarrow> Inr (t, st)
     | None \<Rightarrow>
         (case type_from_definition self type_node
                 (st\<lparr>stack := stack st @ [type_definition_name type_node]\<rparr>) of
            Inl e \<Rightarrow> Inl e
          | Inr (t, st2) \<Rightarrow>
              Inr (t, st2\<lparr>cache := dict_set (cache st2) (type_definition_name type_node) t,
                          stack := butlast (stack st2)\<rparr>)))"

text \<open>
  The recursion of \<^verbatim>\<open>build_type\<close> through \<^verbatim>\<open>self.build_type(type_def)\<close>, to a depth:
  beyond it Python raises \<^verbatim>\<open>RecursionError\<close>, a \<^verbatim>\<open>RuntimeError\<close>.
\<close>

fun with_recursion_limit :: "nat \<Rightarrow> ('v, 'd, 'c) builder \<Rightarrow> ('v, 'd, 'c) builder" where
  "with_recursion_limit 0 self =
     self\<lparr>build_type_definition_rec := (\<lambda>type_node. raise (RuntimeError ''RecursionError''))\<rparr>"
| "with_recursion_limit (Suc n) self =
     self\<lparr>build_type_definition_rec := build_type_definition (with_recursion_limit n self)\<rparr>"


text \<open>
  \<^verbatim>\<open>__init__\<close> (\<^verbatim>\<open>for type in ...: self._cache[type.name] = type\<close>, twice),
  \<^verbatim>\<open>build_types\<close>, \<^verbatim>\<open>__call__\<close>, \<^verbatim>\<open>build_directive\<close> and \<^verbatim>\<open>build_directives\<close>.
  \<^verbatim>\<open>SPECIFIED_SCALAR_TYPES\<close> is not among the sources and is a parameter.
\<close>

fun set_all_by_name :: "(string, 'c gql_type) dict \<Rightarrow> 'c gql_type list \<Rightarrow> exn + (string, 'c gql_type) dict" where
  "set_all_by_name d [] = Inr d"
| "set_all_by_name d (t # ts) =
     (case gql_type_name t of
        Inl e \<Rightarrow> Inl e
      | Inr name \<Rightarrow> set_all_by_name (dict_set d name t) ts)"

definition init_cache ::
  "'c gql_type list option \<Rightarrow> 'c gql_type list \<Rightarrow> exn + (string, 'c gql_type) dict" where
  "init_cache known_types specified_scalar_types =
     (case set_all_by_name [] (case known_types of None \<Rightarrow> [] | Some ts \<Rightarrow> ts) of
        Inl e \<Rightarrow> Inl e
      | Inr d \<Rightarrow> set_all_by_name d specified_scalar_types)"

definition build_types ::
  "('v, 'd, 'c) builder \<Rightarrow> ('v, 'd) type_definition list \<Rightarrow> ('c gql_type list, 'c) build" where
  "build_types self nodes = for_each (build_type_definition self) nodes"

definition call_builder :: "('v, 'd, 'c) builder \<Rightarrow> ((string, 'c gql_type) dict, 'c) build" where
  "call_builder self =
     bind (build_types self (map snd (type_nodes self))) (\<lambda>types.
       lift (set_all_by_name [] types))"

definition build_directive ::
  "('v, 'd, 'c) builder \<Rightarrow> ('v, 'd) directive_definition \<Rightarrow> ('c schema_directive, 'c) build" where
  "build_directive self node =
     bind (if dd_arguments node \<noteq> []
           then bind (for_each (argument self) (dd_arguments node)) (\<lambda>args. ret (Some args))
           else ret None) (\<lambda>args.
       ret \<lparr>dir_name = dd_name node, dir_description = dd_description node,
            dir_locations = dd_locations node, dir_args = args\<rparr>)"

definition build_directives ::
  "('v, 'd, 'c) builder \<Rightarrow> (string, ('v, 'd) directive_definition) dict
     \<Rightarrow> ((string, 'c schema_directive) dict, 'c) build" where
  "build_directives self directive_defs =
     bind (for_each (\<lambda>directive_def.
                       bind (build_directive self directive_def) (\<lambda>d.
                         ret (dd_name directive_def, d)))
             (map snd directive_defs)) (\<lambda>items.
       ret (fold (\<lambda>(k, d) acc. dict_set acc k d) items []))"

text \<open>
  \<^verbatim>\<open>schema_from_ast\<close> on a parsed document, up to the arguments it passes to
  \<^verbatim>\<open>_schema.Schema\<close>: that class and its \<^verbatim>\<open>validate\<close> are not among the sources. The
  resolvers that the function attaches to the fields in between are left out, fields
  having no resolver here.
\<close>

record 'c schema_arguments =
  sa_query_type :: "'c gql_type option"
  sa_mutation_type :: "'c gql_type option"
  sa_subscription_type :: "'c gql_type option"
  sa_types :: "'c gql_type list"
  sa_directives :: "'c schema_directive list"

definition schema_from_ast ::
  "nat \<Rightarrow> ('v \<Rightarrow> 'c gql_type \<Rightarrow> exn + 'c) \<Rightarrow> ('d \<Rightarrow> exn + string option)
     \<Rightarrow> 'c gql_type list \<Rightarrow> 'c gql_type list option \<Rightarrow> ('v, 'd) sdl_definition list
     \<Rightarrow> exn + 'c schema_arguments" where
  "schema_from_ast recursion_limit typed_value deprecation specified_scalar_types known_types
     ast_definitions =
     (case extract_type_pass ast_definitions of
        Inl e \<Rightarrow> Inl e
      | Inr extracted \<Rightarrow>
          (case init_cache known_types specified_scalar_types of
             Inl e \<Rightarrow> Inl e
           | Inr cache0 \<Rightarrow>
               (let builder = with_recursion_limit recursion_limit
                      \<lparr>type_nodes = ex_types extracted,
                       extension_nodes = ex_extensions extracted,
                       typed_value_from_ast = typed_value,
                       deprecation_reason = deprecation,
                       build_type_definition_rec = (\<lambda>type_node. raise (RuntimeError ''RecursionError''))\<rparr>
                in case bind (call_builder builder) (\<lambda>types.
                          bind (build_directives builder (ex_directives extracted)) (\<lambda>directives.
                          bind (lift (operation_types (ex_schema_definition extracted) types))
                            (\<lambda>ops.
                               ret \<lparr>sa_query_type = get_operation_type ops ''query'',
                                    sa_mutation_type = get_operation_type ops ''mutation'',
                                    sa_subscription_type = get_operation_type ops ''subscription'',
                                    sa_types = map snd types,
                                    sa_directives = map snd directives\<rparr>)))
                       \<lparr>cache = cache0, stack = []\<rparr> of
                     Inl e \<Rightarrow> Inl e
                   | Inr (args, st) \<Rightarrow> Inr args)))"

text \<open>
  For the claim about scalar extensions: the definitions whose builder reads
  \<^verbatim>\<open>self._extension_nodes\<close>, and two builders that differ at most in their extensions
  and in the recursive call.
\<close>

fun reads_extensions :: "('v, 'd) type_definition \<Rightarrow> bool" where
  "reads_extensions (ObjectTypeDefinition descr name interfaces dirs flds) = True"
| "reads_extensions (InterfaceTypeDefinition descr name dirs flds) = True"
| "reads_extensions (EnumTypeDefinition descr name dirs vals) = True"
| "reads_extensions (UnionTypeDefinition descr name dirs types) = True"
| "reads_extensions (ScalarTypeDefinition descr name dirs) = False"
| "reads_extensions (InputObjectTypeDefinition descr name dirs flds) = False"

definition same_inputs :: "('v, 'd, 'c) builder \<Rightarrow> ('v, 'd, 'c) builder \<Rightarrow> bool" where
  "same_inputs self other =
     (type_nodes other = type_nodes self
      \<and> typed_value_from_ast other = typed_value_from_ast self
      \<and> deprecation_reason other = deprecation_reason self)"

section \<open>AST nodes as objects (\<^verbatim>\<open>lang/ast.py\<close>)\<close>

text \<open>
  For \<^verbatim>\<open>Node.__eq__\<close> and \<^verbatim>\<open>node_to_dict\<close> a node is an object of a class with
  attribute values. An attribute value is a node, a list of values, or a primitive:
  \<^verbatim>\<open>None\<close>, a boolean, an integer, a string or a tuple of primitives (\<^verbatim>\<open>loc\<close>). The
  result of \<^verbatim>\<open>node_to_dict\<close> is made of dictionaries, lists and primitives.
\<close>

datatype prim = PNone | PBool bool | PInt int | PStr string | PTuple "prim list"

datatype pyval = Prim prim | PyList "pyval list" | NodeObj string "(string \<times> pyval) list"

datatype jval = JPrim prim | JList "jval list" | JDict "(string \<times> jval) list"

text \<open>
  \<^verbatim>\<open>__slots__\<close> of every node class, read through \<^verbatim>\<open>self.__slots__\<close>: a class that
  declares none has those of its nearest base class that does. \<^verbatim>\<open>_props\<close> are the slots
  other than \<^verbatim>\<open>source\<close>. \<^verbatim>\<open>getattr\<close> raises \<^verbatim>\<open>AttributeError\<close> on a slot that was
  never assigned.
\<close>

definition class_slots :: "(string \<times> string list) list" where
  "class_slots =
    [(''Node'', [''source'', ''loc'']),
     (''Name'', [''source'', ''loc'', ''value'']),
     (''Definition'', [''source'', ''loc'']),
     (''ExecutableDefinition'', [''source'', ''loc'']),
     (''Value'', [''source'', ''loc'']),
     (''Type'', [''source'', ''loc'']),
     (''NamedType'', [''source'', ''loc'', ''name'']),
     (''ListType'', [''source'', ''loc'', ''type'']),
     (''NonNullType'', [''source'', ''loc'', ''type'']),
     (''Document'', [''source'', ''loc'', ''definitions'']),
     (''OperationDefinition'', [''source'', ''loc'', ''operation'', ''name'', ''variable_definitions'', ''directives'', ''selection_set'']),
     (''Variable'', [''source'', ''loc'', ''name'']),
     (''VariableDefinition'', [''source'', ''loc'', ''variable'', ''type'', ''default_value'']),
     (''Selection'', [''source'', ''loc'']),
     (''SelectionSet'', [''source'', ''loc'', ''selections'']),
     (''Field'', [''source'', ''loc'', ''name'', ''alias'', ''arguments'', ''directives'', ''selection_set'', ''response_name'']),
     (''Argument'', [''source'', ''loc'', ''name'', ''value'']),
     (''FragmentSpread'', [''source'', ''loc'', ''name'', ''directives'']),
     (''InlineFragment'', [''source'', ''loc'', ''type_condition'', ''directives'', ''selection_set'']),
     (''FragmentDefinition'', [''loc'', ''name'', ''variable_definitions'', ''type_condition'', ''directives'', ''selection_set'']),
     (''_StringValue'', [''source'', ''loc'', ''value'']),
     (''IntValue'', [''source'', ''loc'', ''value'']),
     (''FloatValue'', [''source'', ''loc'', ''value'']),
     (''StringValue'', [''source'', ''loc'', ''value'', ''block'']),
     (''BooleanValue'', [''source'', ''loc'', ''value'']),
     (''NullValue'', [''source'', ''loc'']),
     (''EnumValue'', [''source'', ''loc'', ''value'']),
     (''ListValue'', [''source'', ''loc'', ''values'']),
     (''ObjectValue'', [''source'', ''loc'', ''fields'']),
     (''ObjectField'', [''source'', ''loc'', ''name'', ''value'']),
     (''Directive'', [''source'', ''loc'', ''name'', ''arguments'']),
     (''TypeSystemDefinition'', [''source'', ''loc'']),
     (''SchemaDefinition'', [''source'', ''loc'', ''directives'', ''operation_types'']),
     (''OperationTypeDefinition'', [''source'', ''loc'', ''operation'', ''type'']),
     (''TypeDefinition'', [''source'', ''loc'']),
     (''ScalarTypeDefinition'', [''source'', ''loc'', ''description'', ''name'', ''directives'']),
     (''ObjectTypeDefinition'', [''source'', ''loc'', ''description'', ''name'', ''interfaces'', ''directives'', ''fields'']),
     (''FieldDefinition'', [''source'', ''loc'', ''description'', ''name'', ''arguments'', ''type'', ''directives'']),
     (''InputValueDefinition'', [''source'', ''loc'', ''description'', ''name'', ''type'', ''default_value'', ''directives'']),
     (''InterfaceTypeDefinition'', [''source'', ''loc'', ''description'', ''name'', ''directives'', ''fields'']),
     (''UnionTypeDefinition'', [''source'', ''loc'', ''description'', ''name'', ''directives'', ''types'']),
     (''EnumTypeDefinition'', [''source'', ''loc'', ''description'', ''name'', ''directives'', ''values'']),
     (''EnumValueDefinition'', [''source'', ''loc'', ''description'', ''name'', ''directives'']),
     (''InputObjectTypeDefinition'', [''source'', ''loc'', ''description'', ''name'', ''directives'', ''fields'']),
     (''TypeSystemExtension'', [''source'', ''loc'']),
     (''SchemaExtension'', [''source'', ''loc'', ''directives'', ''operation_types'']),
     (''TypeExtension'', [''source'', ''loc'']),
     (''ScalarTypeExtension'', [''source'', ''loc'', ''name'', ''directives'']),
     (''ObjectTypeExtension'', [''source'', ''loc'', ''name'', ''interfaces'', ''directives'', ''fields'']),
     (''InterfaceTypeExtension'', [''source'', ''loc'', ''name'', ''directives'', ''fields'']),
     (''UnionTypeExtension'', [''source'', ''loc'', ''name'', ''directives'', ''types'']),
     (''EnumTypeExtension'', [''source'', ''loc'', ''name'', ''directives'', ''values'']),
     (''InputObjectTypeExtension'', [''source'', ''loc'', ''name'', ''directives'', ''fields'']),
     (''DirectiveDefinition'', [''source'', ''loc'', ''description'', ''name'', ''arguments'', ''locations''])]"

definition slots_of :: "string \<Rightarrow> string list" where
  "slots_of cls = (case map_of class_slots cls of None \<Rightarrow> [''source'', ''loc''] | Some s \<Rightarrow> s)"

definition props :: "string \<Rightarrow> string list" where
  "props cls = filter (\<lambda>attr. attr \<noteq> ''source'') (slots_of cls)"

definition getattr :: "(string \<times> pyval) list \<Rightarrow> string \<Rightarrow> exn + pyval" where
  "getattr attrs attr = (case map_of attrs attr of None \<Rightarrow> Inl AttributeError | Some v \<Rightarrow> Inr v)"

text \<open>
  Python's \<^verbatim>\<open>==\<close> on primitives (\<^verbatim>\<open>True == 1\<close>; tuples by length and elements), then
  on values: \<^verbatim>\<open>Node.__eq__\<close>, which also answers for a node on the right of a value
  that is not one, and list equality, which compares the lengths first.
  \<^verbatim>\<open>all(...)\<close> stops at the first attribute that differs.
\<close>

fun prim_eq :: "prim \<Rightarrow> prim \<Rightarrow> bool"
  and prims_eq :: "prim list \<Rightarrow> prim list \<Rightarrow> bool" where
  "prim_eq PNone q = (q = PNone)"
| "prim_eq (PBool b) q =
     (case q of PBool c \<Rightarrow> b = c | PInt j \<Rightarrow> (if b then 1 else 0) = j | _ \<Rightarrow> False)"
| "prim_eq (PInt i) q =
     (case q of PInt j \<Rightarrow> i = j | PBool c \<Rightarrow> i = (if c then 1 else 0) | _ \<Rightarrow> False)"
| "prim_eq (PStr s) q = (q = PStr s)"
| "prim_eq (PTuple ps) q = (case q of PTuple qs \<Rightarrow> length ps = length qs \<and> prims_eq ps qs | _ \<Rightarrow> False)"
| "prims_eq [] qs = True"
| "prims_eq (p # ps) qs = (case qs of [] \<Rightarrow> True | q # qs' \<Rightarrow> prim_eq p q \<and> prims_eq ps qs')"

lemma getattr_size [termination_simp]:
  "getattr attrs a = Inr v \<Longrightarrow> size v < size_list (size_prod (\<lambda>_. 0) size) attrs"
  by (induction attrs) (auto simp: getattr_def split: if_splits)

function py_eq :: "pyval \<Rightarrow> pyval \<Rightarrow> exn + bool"
  and list_eq :: "pyval list \<Rightarrow> pyval list \<Rightarrow> exn + bool"
  and attrs_eq :: "(string \<times> pyval) list \<Rightarrow> (string \<times> pyval) list \<Rightarrow> string list \<Rightarrow> exn + bool" where
  "py_eq (Prim p) rhs = (case rhs of Prim q \<Rightarrow> Inr (prim_eq p q) | _ \<Rightarrow> Inr False)"
| "py_eq (PyList xs) rhs =
     (case rhs of
        PyList ys \<Rightarrow> if length xs \<noteq> length ys then Inr False else list_eq xs ys
      | _ \<Rightarrow> Inr False)"
| "py_eq (NodeObj cls attrs) rhs =
     (case rhs of
        NodeObj cls' attrs' \<Rightarrow> if cls' = cls then attrs_eq attrs attrs' (props cls) else Inr False
      | _ \<Rightarrow> Inr False)"
| "list_eq [] ys = Inr True"
| "list_eq (x # xs) ys =
     (case ys of
        [] \<Rightarrow> Inr True
      | y # ys' \<Rightarrow>
          (case py_eq x y of
             Inl e \<Rightarrow> Inl e
           | Inr b \<Rightarrow> if b then list_eq xs ys' else Inr False))"
| "attrs_eq attrs attrs' [] = Inr True"
| "attrs_eq attrs attrs' (a # as) =
     (case getattr attrs a of
        Inl e \<Rightarrow> Inl e
      | Inr x \<Rightarrow>
          (case getattr attrs' a of
             Inl e \<Rightarrow> Inl e
           | Inr y \<Rightarrow>
               (case py_eq x y of
                  Inl e \<Rightarrow> Inl e
                | Inr b \<Rightarrow> if b then attrs_eq attrs attrs' as else Inr False)))"
  by pat_completeness auto
termination
  by (relation "measures
        [\<lambda>x. case x of Inl (v, _) \<Rightarrow> size v
                     | Inr (Inl (xs, _)) \<Rightarrow> size_list size xs
                     | Inr (Inr (attrs, _, _)) \<Rightarrow> size_list (size_prod (\<lambda>_. 0) size) attrs,
         \<lambda>x. case x of Inl _ \<Rightarrow> 0
                     | Inr (Inl _) \<Rightarrow> 0
                     | Inr (Inr (_, _, as)) \<Rightarrow> length as]")
     (auto dest: getattr_size)


text \<open>
  \<^verbatim>\<open>_node_to_dict\<close>; the dictionary comprehension over \<^verbatim>\<open>node._props()\<close> is the loop
  \<open>attrs_to_dict\<close>, and \<^verbatim>\<open>dict(..., __kind__=...)\<close> sets one more key.
\<close>

function node_to_dict :: "pyval \<Rightarrow> exn + jval"
  and list_to_dict :: "pyval list \<Rightarrow> exn + jval list"
  and attrs_to_dict :: "(string \<times> pyval) list \<Rightarrow> string list \<Rightarrow> (string, jval) dict
                          \<Rightarrow> exn + (string, jval) dict" where
  "node_to_dict (NodeObj cls attrs) =
     (case attrs_to_dict attrs (props cls) [] of
        Inl e \<Rightarrow> Inl e
      | Inr d \<Rightarrow> Inr (JDict (dict_set d ''__kind__'' (JPrim (PStr cls)))))"
| "node_to_dict (PyList vs) =
     (case list_to_dict vs of Inl e \<Rightarrow> Inl e | Inr js \<Rightarrow> Inr (JList js))"
| "node_to_dict (Prim p) = Inr (JPrim p)"
| "list_to_dict [] = Inr []"
| "list_to_dict (v # vs) =
     (case node_to_dict v of
        Inl e \<Rightarrow> Inl e
      | Inr j \<Rightarrow> (case list_to_dict vs of Inl e \<Rightarrow> Inl e | Inr js \<Rightarrow> Inr (j # js)))"
| "attrs_to_dict attrs [] d = Inr d"
| "attrs_to_dict attrs (a # as) d =
     (case getattr attrs a of
        Inl e \<Rightarrow> Inl e
      | Inr v \<Rightarrow>
          (case node_to_dict v of
             Inl e \<Rightarrow> Inl e
           | Inr j \<Rightarrow> attrs_to_dict attrs as (dict_set d a j)))"
  by pat_completeness auto
termination
  by (relation "measures
        [\<lambda>x. case x of Inl v \<Rightarrow> size v
                     | Inr (Inl xs) \<Rightarrow> size_list size xs
                     | Inr (Inr (attrs, _, _)) \<Rightarrow> size_list (size_prod (\<lambda>_. 0) size) attrs,
         \<lambda>x. case x of Inl _ \<Rightarrow> 0
                     | Inr (Inl _) \<Rightarrow> 0
                     | Inr (Inr (_, as, _)) \<Rightarrow> length as]")
     (auto dest: getattr_size)

text \<open>
  A node as the constructors of \<^verbatim>\<open>ast.py\<close> build it has every slot of \<^verbatim>\<open>_props\<close>
  assigned, and so have the nodes below it. \<open>erase_source\<close> forgets the \<^verbatim>\<open>source\<close>
  attribute of a node and of every node below it.
\<close>

fun well_formed :: "pyval \<Rightarrow> bool" where
  "well_formed (Prim p) = True"
| "well_formed (PyList vs) = list_all well_formed vs"
| "well_formed (NodeObj cls attrs) =
     (list_all (\<lambda>attr. map_of attrs attr \<noteq> None) (props cls)
      \<and> list_all (\<lambda>(attr, v). well_formed v) attrs)"

fun erase_source :: "pyval \<Rightarrow> pyval" where
  "erase_source (Prim p) = Prim p"
| "erase_source (PyList vs) = PyList (map erase_source vs)"
| "erase_source (NodeObj cls attrs) =
     NodeObj cls (map (\<lambda>(attr, v). (attr, erase_source v))
                    (filter (\<lambda>(attr, v). attr \<noteq> ''source'') attrs))"


section \<open>The type-info visitor (\<^verbatim>\<open>utilities/type_info.py\<close>)\<close>

text \<open>
  The visitor reads a schema and its types only through attributes and helper functions
  of \<^verbatim>\<open>py_gql.schema\<close>, which is not among the sources. A type object is a value of
  a type parameter \<open>'ty\<close>; what the visitor reads from the schema object is the record
  \<open>schema\<close>, and the module-level helpers and class attributes that it calls are the
  record \<open>type_system\<close>. Both are parameters of every handler, so that a property
  proved for all of them holds whatever the missing code computes.

  \<^item> \<^verbatim>\<open>isinstance(x, C)\<close> on a type object is \<open>instance_of\<close>, one truth value for each of
    the six classes the visitor tests for; no class hierarchy is assumed.
  \<^item> \<^verbatim>\<open>is_input_type\<close> and \<^verbatim>\<open>is_output_type\<close> take an optional type, because
    \<^verbatim>\<open>enter_fragment_definition\<close>, \<^verbatim>\<open>enter_inline_fragment\<close> and
    \<^verbatim>\<open>enter_variable_definition\<close> call them on a value that may be \<^verbatim>\<open>None\<close>.
  \<^item> \<^verbatim>\<open>schema.get_type_from_literal\<close> and \<^verbatim>\<open>EnumType.get_value\<close> can raise; they return
    \<open>exn + _\<close>, and the handlers catch what the source catches (\<^verbatim>\<open>UnknownType\<close>,
    \<^verbatim>\<open>UnknownEnumValue\<close>) and nothing else.
  \<^item> The remaining helpers (\<^verbatim>\<open>nullable_type\<close>, \<^verbatim>\<open>unwrap_type\<close>, the
    \<^verbatim>\<open>field_map\<close> of an object or interface type, the \<^verbatim>\<open>fields\<close> of an input object
    type, \<^verbatim>\<open>schema.directives.get\<close>) are total functions: they are taken not to raise.
  \<^item> The three introspection field definitions of \<^verbatim>\<open>schema/introspection.py\<close> are
    constants of the type system.

  A field definition, an argument or input field definition and a directive definition
  are records of the attributes the visitor reads. Schema objects and AST nodes are
  truthy in Python (no class under \<^verbatim>\<open>lang/ast.py\<close> defines \<^verbatim>\<open>__bool__\<close> or
  \<^verbatim>\<open>__len__\<close>), so \<^verbatim>\<open>if x\<close> on an optional object is \<open>x \<noteq> None\<close>.
\<close>

datatype gql_class =
    GraphQLCompositeTypeClass | ObjectTypeClass | InterfaceTypeClass | InputObjectTypeClass
  | ListTypeClass | EnumTypeClass

record 'ty input_value_def =
  iv_name :: string
  iv_type :: 'ty

record 'ty field_def =
  fld_name :: string
  fld_type :: 'ty
  fld_arguments :: "'ty input_value_def list"

record 'ty directive_def =
  drv_name :: string
  drv_arguments :: "'ty input_value_def list"

record 'ty schema =
  query_type :: "'ty option"
  mutation_type :: "'ty option"
  subscription_type :: "'ty option"
  directives :: "string \<Rightarrow> 'ty directive_def option"
  get_type_from_literal :: "type_node \<Rightarrow> exn + 'ty"

record 'ty type_system =
  instance_of :: "'ty \<Rightarrow> gql_class \<Rightarrow> bool"
  is_input_type :: "'ty option \<Rightarrow> bool"
  is_output_type :: "'ty option \<Rightarrow> bool"
  nullable_type :: "'ty \<Rightarrow> 'ty"
  unwrap_type :: "'ty \<Rightarrow> 'ty"
  field_map :: "'ty \<Rightarrow> string \<Rightarrow> 'ty field_def option"
  input_fields :: "'ty \<Rightarrow> 'ty input_value_def list"
  get_value :: "'ty \<Rightarrow> string \<Rightarrow> exn + enum_value"
  schema_introspection_field :: "'ty field_def"
  type_introspection_field :: "'ty field_def"
  type_name_introspection_field :: "'ty field_def"

text \<open>
  The state of a \<^verbatim>\<open>TypeInfoVisitor\<close>: the five stacks (Python lists, the top at the
  end) and the three public attributes \<^verbatim>\<open>directive\<close>, \<^verbatim>\<open>argument\<close> and
  \<^verbatim>\<open>enum_value\<close>, here \<open>ti_directive\<close>, \<open>ti_argument\<close> and \<open>ti_enum_value\<close>.
  \<open>init_type_info\<close> is the state after \<^verbatim>\<open>__init__\<close>.
\<close>

record 'ty type_info =
  type_stack :: "'ty option list"
  parent_type_stack :: "'ty option list"
  input_type_stack :: "'ty option list"
  field_stack :: "'ty field_def option list"
  input_value_def_stack :: "'ty input_value_def option list"
  ti_directive :: "'ty directive_def option"
  ti_argument :: "'ty input_value_def option"
  ti_enum_value :: "enum_value option"

definition init_type_info :: "'ty type_info" where
  "init_type_info =
     \<lparr>type_stack = [], parent_type_stack = [], input_type_stack = [], field_stack = [],
      input_value_def_stack = [], ti_directive = None, ti_argument = None,
      ti_enum_value = None\<rparr>"

text \<open>
  \<^verbatim>\<open>_peek(lst, count)\<close> with the default \<^verbatim>\<open>None\<close>: the stacks hold optional values, so
  the default and a stored \<^verbatim>\<open>None\<close> are the same result. \<^verbatim>\<open>list.pop()\<close> raises
  \<^verbatim>\<open>IndexError\<close> on an empty list. The properties \<^verbatim>\<open>type\<close> and \<^verbatim>\<open>field\<close> are
  \<open>current_type\<close> and \<open>current_field\<close>.
\<close>

definition peek :: "'a option list \<Rightarrow> nat \<Rightarrow> 'a option" where
  "peek lst count = (if length lst \<ge> count then lst ! (length lst - count) else None)"

definition pop :: "'a list \<Rightarrow> exn + 'a list" where
  "pop lst = (if lst = [] then Inl IndexError else Inr (butlast lst))"

definition current_type :: "'ty type_info \<Rightarrow> 'ty option" where
  "current_type self = peek (type_stack self) 1"

definition parent_type :: "'ty type_info \<Rightarrow> 'ty option" where
  "parent_type self = peek (parent_type_stack self) 1"

definition input_type :: "'ty type_info \<Rightarrow> 'ty option" where
  "input_type self = peek (input_type_stack self) 1"

definition current_field :: "'ty type_info \<Rightarrow> 'ty field_def option" where
  "current_field self = peek (field_stack self) 1"

definition input_value_def :: "'ty type_info \<Rightarrow> 'ty input_value_def option" where
  "input_value_def self = peek (input_value_def_stack self) 1"

text \<open>
  \<^verbatim>\<open>isinstance(obj, classes)\<close> on an optional type object: \<^verbatim>\<open>None\<close> is an instance
  of none of the classes.
\<close>

definition isinstance :: "'ty type_system \<Rightarrow> 'ty option \<Rightarrow> gql_class list \<Rightarrow> bool" where
  "isinstance ts obj classes =
     (case obj of None \<Rightarrow> False | Some t \<Rightarrow> list_ex (instance_of ts t) classes)"

definition parent_input_type :: "'ty type_system \<Rightarrow> 'ty type_info \<Rightarrow> 'ty option" where
  "parent_input_type ts self =
     (let t = peek (input_type_stack self) 2
      in if isinstance ts t [InputObjectTypeClass] then t else None)"

text \<open>
  The module-level \<^verbatim>\<open>_get_field_def(schema, parent_type, field)\<close>, with the name of
  the field node for the node, and the method \<^verbatim>\<open>TypeInfoVisitor._get_field_def\<close>, here
  \<open>self_get_field_def\<close>. \<^verbatim>\<open>parent_type is schema.query_type\<close> compares object
  identities, which is equality of type objects here.
\<close>

definition get_field_def ::
  "'ty type_system \<Rightarrow> 'ty schema \<Rightarrow> 'ty \<Rightarrow> string \<Rightarrow> 'ty field_def option" where
  "get_field_def ts schema parent name =
     (if Some parent = query_type schema \<and> name = fld_name (schema_introspection_field ts)
      then Some (schema_introspection_field ts)
      else if Some parent = query_type schema \<and> name = fld_name (type_introspection_field ts)
      then Some (type_introspection_field ts)
      else if isinstance ts (Some parent) [GraphQLCompositeTypeClass]
              \<and> name = fld_name (type_name_introspection_field ts)
      then Some (type_name_introspection_field ts)
      else if isinstance ts (Some parent) [ObjectTypeClass, InterfaceTypeClass]
      then field_map ts parent name
      else None)"

definition self_get_field_def ::
  "'ty type_system \<Rightarrow> 'ty schema \<Rightarrow> 'ty type_info \<Rightarrow> string \<Rightarrow> 'ty field_def option" where
  "self_get_field_def ts schema self name =
     (case parent_type self of
        Some parent \<Rightarrow> get_field_def ts schema parent name
      | None \<Rightarrow> None)"

text \<open>
  \<^verbatim>\<open>_type_from_ast\<close>: only \<^verbatim>\<open>UnknownType\<close> is caught, any other exception of
  \<^verbatim>\<open>get_type_from_literal\<close> propagates.
\<close>

definition type_from_ast :: "'ty schema \<Rightarrow> type_node \<Rightarrow> exn + 'ty option" where
  "type_from_ast schema type_node =
     (case get_type_from_literal schema type_node of
        Inr t \<Rightarrow> Inr (Some t)
      | Inl (UnknownType n) \<Rightarrow> Inr None
      | Inl e \<Rightarrow> Inl e)"

text \<open>
  The handlers. An \<^verbatim>\<open>enter_*\<close> method returns the node it was given, so the result of
  its model is the new state alone; a \<^verbatim>\<open>leave_*\<close> method pops, and raises
  \<^verbatim>\<open>IndexError\<close> on an empty stack. \<open>output_type_of\<close> and \<open>input_type_of\<close> are the
  expressions \<^verbatim>\<open>t if t and is_output_type(t) else None\<close> and
  \<^verbatim>\<open>t if t and is_input_type(t) else None\<close> that several handlers share.
\<close>

definition leave_input_value :: "'ty type_info \<Rightarrow> exn + 'ty type_info" where
  "leave_input_value self =
     (case pop (input_type_stack self) of
        Inl e \<Rightarrow> Inl e
      | Inr its \<Rightarrow>
          (case pop (input_value_def_stack self) of
             Inl e \<Rightarrow> Inl e
           | Inr ivs \<Rightarrow> Inr (self\<lparr>input_type_stack := its, input_value_def_stack := ivs\<rparr>)))"

definition enter_selection_set :: "'ty type_system \<Rightarrow> 'ty type_info \<Rightarrow> exn + 'ty type_info" where
  "enter_selection_set ts self =
     (let named_type = (case current_type self of
                          Some t \<Rightarrow> Some (unwrap_type ts t)
                        | None \<Rightarrow> None)
      in Inr (self\<lparr>parent_type_stack := parent_type_stack self
                     @ [if isinstance ts named_type [GraphQLCompositeTypeClass]
                        then named_type else None]\<rparr>))"

definition leave_selection_set :: "'ty type_info \<Rightarrow> exn + 'ty type_info" where
  "leave_selection_set self =
     (case pop (parent_type_stack self) of
        Inl e \<Rightarrow> Inl e
      | Inr s \<Rightarrow> Inr (self\<lparr>parent_type_stack := s\<rparr>))"

definition output_type_of :: "'ty type_system \<Rightarrow> 'ty option \<Rightarrow> 'ty option" where
  "output_type_of ts t = (if t \<noteq> None \<and> is_output_type ts t then t else None)"

definition input_type_of :: "'ty type_system \<Rightarrow> 'ty option \<Rightarrow> 'ty option" where
  "input_type_of ts t = (if t \<noteq> None \<and> is_input_type ts t then t else None)"

definition enter_field ::
  "'ty type_system \<Rightarrow> 'ty schema \<Rightarrow> string \<Rightarrow> 'ty type_info \<Rightarrow> exn + 'ty type_info" where
  "enter_field ts schema name self =
     (let field_def = self_get_field_def ts schema self name
      in Inr (self\<lparr>field_stack := field_stack self @ [field_def],
                   type_stack := type_stack self
                     @ [output_type_of ts (map_option fld_type field_def)]\<rparr>))"

definition leave_field :: "'ty type_info \<Rightarrow> exn + 'ty type_info" where
  "leave_field self =
     (case pop (type_stack self) of
        Inl e \<Rightarrow> Inl e
      | Inr s \<Rightarrow>
          (case pop (field_stack self) of
             Inl e \<Rightarrow> Inl e
           | Inr f \<Rightarrow> Inr (self\<lparr>type_stack := s, field_stack := f\<rparr>)))"

definition enter_directive :: "'ty schema \<Rightarrow> string \<Rightarrow> 'ty type_info \<Rightarrow> exn + 'ty type_info" where
  "enter_directive schema name self = Inr (self\<lparr>ti_directive := directives schema name\<rparr>)"

definition leave_directive :: "'ty type_info \<Rightarrow> exn + 'ty type_info" where
  "leave_directive self = Inr (self\<lparr>ti_directive := None\<rparr>)"

definition enter_operation_definition ::
  "'ty type_system \<Rightarrow> 'ty schema \<Rightarrow> string \<Rightarrow> 'ty type_info \<Rightarrow> exn + 'ty type_info" where
  "enter_operation_definition ts schema operation self =
     (let tp = (case map_of [(''query'', query_type schema),
                                (''mutation'', mutation_type schema),
                                (''subscription'', subscription_type schema)] operation of
                     Some t \<Rightarrow> t
                   | None \<Rightarrow> None)
      in Inr (self\<lparr>type_stack := type_stack self
                     @ [if isinstance ts tp [ObjectTypeClass] then tp else None]\<rparr>))"

definition leave_operation_definition :: "'ty type_info \<Rightarrow> exn + 'ty type_info" where
  "leave_operation_definition self =
     (case pop (type_stack self) of
        Inl e \<Rightarrow> Inl e
      | Inr s \<Rightarrow> Inr (self\<lparr>type_stack := s\<rparr>))"

definition enter_fragment_definition ::
  "'ty type_system \<Rightarrow> 'ty schema \<Rightarrow> type_node \<Rightarrow> 'ty type_info \<Rightarrow> exn + 'ty type_info" where
  "enter_fragment_definition ts schema type_condition self =
     (case type_from_ast schema type_condition of
        Inl e \<Rightarrow> Inl e
      | Inr tp \<Rightarrow>
          Inr (self\<lparr>type_stack := type_stack self
                  @ [if is_output_type ts tp then tp else None]\<rparr>))"

definition leave_fragment_definition :: "'ty type_info \<Rightarrow> exn + 'ty type_info" where
  "leave_fragment_definition = leave_operation_definition"

definition enter_inline_fragment ::
  "'ty type_system \<Rightarrow> 'ty schema \<Rightarrow> type_node option \<Rightarrow> 'ty type_info \<Rightarrow> exn + 'ty type_info" where
  "enter_inline_fragment ts schema type_condition self =
     (case type_condition of
        Some tc \<Rightarrow>
          (case type_from_ast schema tc of
             Inl e \<Rightarrow> Inl e
           | Inr tp \<Rightarrow>
               Inr (self\<lparr>type_stack := type_stack self
                       @ [if is_output_type ts tp then tp else None]\<rparr>))
      | None \<Rightarrow>
          Inr (self\<lparr>type_stack := type_stack self
                  @ [output_type_of ts (current_type self)]\<rparr>))"

definition leave_inline_fragment :: "'ty type_info \<Rightarrow> exn + 'ty type_info" where
  "leave_inline_fragment = leave_operation_definition"

definition enter_variable_definition ::
  "'ty type_system \<Rightarrow> 'ty schema \<Rightarrow> type_node \<Rightarrow> 'ty type_info \<Rightarrow> exn + 'ty type_info" where
  "enter_variable_definition ts schema type_node self =
     (case type_from_ast schema type_node of
        Inl e \<Rightarrow> Inl e
      | Inr tp \<Rightarrow>
          Inr (self\<lparr>input_type_stack := input_type_stack self
                  @ [if is_input_type ts tp then tp else None]\<rparr>))"

definition leave_variable_definition :: "'ty type_info \<Rightarrow> exn + 'ty type_info" where
  "leave_variable_definition self =
     (case pop (input_type_stack self) of
        Inl e \<Rightarrow> Inl e
      | Inr s \<Rightarrow> Inr (self\<lparr>input_type_stack := s\<rparr>))"

text \<open>
  Modelled from the spec: \<^verbatim>\<open>_utils.find_one\<close> is not among the sources. Section 4.7:
  ``locate argument by name'': the first element that satisfies the predicate,
  \<^verbatim>\<open>None\<close> when there is none.
\<close>

definition find_one :: "'a list \<Rightarrow> ('a \<Rightarrow> bool) \<Rightarrow> 'a option" where
  "find_one xs p = find p xs"

text \<open>
  \<^verbatim>\<open>ctx = self.directive or self.field\<close> followed by \<^verbatim>\<open>ctx.arguments\<close>: the arguments
  of the current directive, else of the current field, else no context.
\<close>

definition context_arguments :: "'ty type_info \<Rightarrow> 'ty input_value_def list option" where
  "context_arguments self =
     (case ti_directive self of
        Some d \<Rightarrow> Some (drv_arguments d)
      | None \<Rightarrow> map_option fld_arguments (current_field self))"

definition enter_argument :: "'ty type_system \<Rightarrow> string \<Rightarrow> 'ty type_info \<Rightarrow> exn + 'ty type_info" where
  "enter_argument ts name self =
     (case context_arguments self of
        Some arguments \<Rightarrow>
          (let arg = find_one arguments (\<lambda>a. iv_name a = name)
           in Inr (self\<lparr>ti_argument := arg,
                        input_value_def_stack := input_value_def_stack self @ [arg],
                        input_type_stack := input_type_stack self
                          @ [input_type_of ts (map_option iv_type arg)]\<rparr>))
      | None \<Rightarrow>
          Inr (self\<lparr>ti_argument := None,
                    input_type_stack := input_type_stack self @ [None],
                    input_value_def_stack := input_value_def_stack self @ [None]\<rparr>))"

definition leave_argument :: "'ty type_info \<Rightarrow> exn + 'ty type_info" where
  "leave_argument self = leave_input_value (self\<lparr>ti_argument := None\<rparr>)"

definition enter_list_value :: "'ty type_system \<Rightarrow> 'ty type_info \<Rightarrow> exn + 'ty type_info" where
  "enter_list_value ts self =
     (let list_type = (case input_type self of
                         Some t \<Rightarrow> Some (nullable_type ts t)
                       | None \<Rightarrow> None);
          item_type = (if isinstance ts list_type [ListTypeClass]
                       then map_option (unwrap_type ts) list_type else None)
      in Inr (self\<lparr>input_type_stack := input_type_stack self @ [input_type_of ts item_type],
                   input_value_def_stack := input_value_def_stack self @ [None]\<rparr>))"

definition leave_list_value :: "'ty type_info \<Rightarrow> exn + 'ty type_info" where
  "leave_list_value = leave_input_value"

definition enter_object_field ::
  "'ty type_system \<Rightarrow> string \<Rightarrow> 'ty type_info \<Rightarrow> exn + 'ty type_info" where
  "enter_object_field ts name self =
     (let object_type = (case input_type self of
                           Some t \<Rightarrow> Some (unwrap_type ts t)
                         | None \<Rightarrow> None)
      in case (if isinstance ts object_type [InputObjectTypeClass] then object_type else None) of
           Some input_object \<Rightarrow>
             (let field_def = find_one (input_fields ts input_object) (\<lambda>f. iv_name f = name)
              in Inr (self\<lparr>input_value_def_stack := input_value_def_stack self @ [field_def],
                           input_type_stack := input_type_stack self
                             @ [input_type_of ts (map_option iv_type field_def)]\<rparr>))
         | None \<Rightarrow>
             Inr (self\<lparr>input_type_stack := input_type_stack self @ [None],
                       input_value_def_stack := input_value_def_stack self @ [None]\<rparr>))"

definition leave_object_field :: "'ty type_info \<Rightarrow> exn + 'ty type_info" where
  "leave_object_field = leave_input_value"

definition enter_enum_value ::
  "'ty type_system \<Rightarrow> string \<Rightarrow> 'ty type_info \<Rightarrow> exn + 'ty type_info" where
  "enter_enum_value ts v self =
     (let enum = (case input_type self of
                    Some t \<Rightarrow> Some (unwrap_type ts t)
                  | None \<Rightarrow> None)
      in case (if isinstance ts enum [EnumTypeClass] then enum else None) of
           Some enum_object \<Rightarrow>
             (case get_value ts enum_object v of
                Inr ev \<Rightarrow> Inr (self\<lparr>ti_enum_value := Some ev\<rparr>)
              | Inl (UnknownEnumValue n) \<Rightarrow> Inr (self\<lparr>ti_enum_value := None\<rparr>)
              | Inl e \<Rightarrow> Inl e)
         | None \<Rightarrow> Inr self)"

definition leave_enum_value :: "'ty type_info \<Rightarrow> exn + 'ty type_info" where
  "leave_enum_value self = Inr (self\<lparr>ti_enum_value := None\<rparr>)"

text \<open>
  A node of a document, as the visitor sees it: its class with the attributes that the
  handlers read (\<^verbatim>\<open>node.operation\<close>, \<^verbatim>\<open>node.name.value\<close>, \<^verbatim>\<open>node.type_condition\<close>,
  \<^verbatim>\<open>node.type\<close>, \<^verbatim>\<open>node.value\<close>), and its child nodes in traversal order.
  \<open>OtherNode\<close> is any class for which \<^verbatim>\<open>TypeInfoVisitor\<close> defines no handler. No
  well-formedness is asked of a document: any class can sit below any other.
\<close>

datatype node_class =
    OperationDefinitionNode string
  | SelectionSetNode
  | FieldNode string
  | DirectiveNode string
  | FragmentDefinitionNode type_node
  | InlineFragmentNode "type_node option"
  | VariableDefinitionNode type_node
  | ArgumentNode string
  | ListValueNode
  | ObjectFieldNode string
  | EnumValueNode string
  | OtherNode

datatype doc_node = DocNode node_class "doc_node list"

text \<open>
  Modelled from the spec: \<^verbatim>\<open>lang/visitor.py\<close> (\<^verbatim>\<open>DispatchingVisitor\<close> and the walker)
  is not among the sources. Section 4.3: ``Visitors are dispatch tables keyed by node
  kind. For each node, the walker calls \<^verbatim>\<open>enter(node)\<close>; if it returns a replacement,
  continues with that; recurses into children in a fixed order matching the AST field
  list; then calls \<^verbatim>\<open>leave(node)\<close>.'' \<open>enter\<close> and \<open>leave\<close> dispatch on the class of
  the node to the handlers of \<^verbatim>\<open>TypeInfoVisitor\<close>, which never replace, skip or remove
  a node; \<open>visit\<close> is the walker.
\<close>

fun enter :: "'ty type_system \<Rightarrow> 'ty schema \<Rightarrow> node_class \<Rightarrow> 'ty type_info \<Rightarrow> exn + 'ty type_info" where
  "enter ts schema (OperationDefinitionNode operation) = enter_operation_definition ts schema operation"
| "enter ts schema SelectionSetNode = enter_selection_set ts"
| "enter ts schema (FieldNode name) = enter_field ts schema name"
| "enter ts schema (DirectiveNode name) = enter_directive schema name"
| "enter ts schema (FragmentDefinitionNode type_condition) =
     enter_fragment_definition ts schema type_condition"
| "enter ts schema (InlineFragmentNode type_condition) =
     enter_inline_fragment ts schema type_condition"
| "enter ts schema (VariableDefinitionNode type_node) =
     enter_variable_definition ts schema type_node"
| "enter ts schema (ArgumentNode name) = enter_argument ts name"
| "enter ts schema ListValueNode = enter_list_value ts"
| "enter ts schema (ObjectFieldNode name) = enter_object_field ts name"
| "enter ts schema (EnumValueNode v) = enter_enum_value ts v"
| "enter ts schema OtherNode = Inr"

fun leave :: "node_class \<Rightarrow> 'ty type_info \<Rightarrow> exn + 'ty type_info" where
  "leave (OperationDefinitionNode operation) = leave_operation_definition"
| "leave SelectionSetNode = leave_selection_set"
| "leave (FieldNode name) = leave_field"
| "leave (DirectiveNode name) = leave_directive"
| "leave (FragmentDefinitionNode type_condition) = leave_fragment_definition"
| "leave (InlineFragmentNode type_condition) = leave_inline_fragment"
| "leave (VariableDefinitionNode type_node) = leave_variable_definition"
| "leave (ArgumentNode name) = leave_argument"
| "leave ListValueNode = leave_list_value"
| "leave (ObjectFieldNode name) = leave_object_field"
| "leave (EnumValueNode v) = leave_enum_value"
| "leave OtherNode = Inr"

fun visit :: "'ty type_system \<Rightarrow> 'ty schema \<Rightarrow> doc_node \<Rightarrow> 'ty type_info \<Rightarrow> exn + 'ty type_info"
  and visit_all :: "'ty type_system \<Rightarrow> 'ty schema \<Rightarrow> doc_node list \<Rightarrow> 'ty type_info
                      \<Rightarrow> exn + 'ty type_info" where
  "visit ts schema (DocNode cls children) self =
     (case enter ts schema cls self of
        Inl e \<Rightarrow> Inl e
      | Inr entered \<Rightarrow>
          (case visit_all ts schema children entered of
             Inl e \<Rightarrow> Inl e
           | Inr visited \<Rightarrow> leave cls visited))"
| "visit_all ts schema [] self = Inr self"
| "visit_all ts schema (child # rest) self =
     (case visit ts schema child self of
        Inl e \<Rightarrow> Inl e
      | Inr visited \<Rightarrow> visit_all ts schema rest visited)"

text \<open>
  What is assumed of the two helpers that can raise: they raise nothing but the
  exception that their caller catches. \<open>stacks\<close> collects the five stacks of a state.
\<close>

definition documented_exceptions :: "'ty type_system \<Rightarrow> 'ty schema \<Rightarrow> bool" where
  "documented_exceptions ts schema =
     ((\<forall>type_node e. get_type_from_literal schema type_node = Inl e
          \<longrightarrow> (\<exists>n. e = UnknownType n))
      \<and> (\<forall>t v e. get_value ts t v = Inl e \<longrightarrow> (\<exists>n. e = UnknownEnumValue n)))"

definition stacks ::
  "'ty type_info \<Rightarrow> 'ty option list \<times> 'ty option list \<times> 'ty option list
     \<times> 'ty field_def option list \<times> 'ty input_value_def option list" where
  "stacks self =
     (type_stack self, parent_type_stack self, input_type_stack self, field_stack self,
      input_value_def_stack self)"


chapter \<open>The properties\<close>

section \<open>Source locations\<close>

lemma loops_agree:
  assumes "k \<le> length rest" and "off + int k \<le> n" and "0 \<le> cols"
    and "index_to_loc_loop rest off (off + int k) lines cols = (L, C)"
  shows "L = lines + 1 + int (count_list (take k rest) NL)
       \<and> 1 \<le> C
       \<and> (L = lines + 1 \<longrightarrow> C = cols + 1 + int k)
       \<and> (L \<noteq> lines + 1 \<longrightarrow> loc_to_index_loop rest off n lines L C =
             (if k = length rest \<and> last rest = NL then Inl IndexError else Inr (off + int k)))"
  using assms
proof (induction rest arbitrary: k off lines cols)
  case Nil
  then show ?case by simp
next
  case (Cons c cs)
  show ?case
  proof (cases k)
    case 0
    with Cons.prems show ?thesis by simp
  next
    case (Suc k')
    from Cons.prems Suc have b: "k' \<le> length cs" "(off + 1) + int k' \<le> n" by simp_all
    have klen: "(k = length (c # cs)) = (k' = length cs)" using Suc by simp
    have tgt: "off + int k = off + 1 + int k'" using Suc by simp
    show ?thesis
    proof (cases "c = NL")
      case True
      from Cons.prems Suc True
      have run: "index_to_loc_loop cs (off + 1) ((off + 1) + int k') (lines + 1) 0 = (L, C)"
        by (simp add: algebra_simps)
      have z: "(0::int) \<le> 0" by simp
      note IH = Cons.IH[OF b(1) b(2) z run]
      from IH have L': "L = lines + 1 + 1 + int (count_list (take k' cs) NL)" by simp
      have c1: "L = lines + 1 + int (count_list (take k (c # cs)) NL)"
        using L' Suc True by simp
      have c2: "1 \<le> C" using IH by simp
      have far: "L \<noteq> lines + 1" "lines \<noteq> L - 1" using L' by simp_all
      have step: "loc_to_index_loop (c # cs) off n lines L C =
                  loc_to_index_loop cs (off + 1) n (lines + 1) L C"
        using far True by simp
      have c4: "loc_to_index_loop cs (off + 1) n (lines + 1) L C =
             (if k' = length cs \<and> last (c # cs) = NL then Inl IndexError
              else Inr (off + 1 + int k'))"
      proof (cases "L = lines + 1 + 1")
        case same: True
        with IH have C: "C = 1 + int k'" by simp
        from same L' have nonl: "count_list (take k' cs) NL = 0" by simp
        show ?thesis
        proof (cases cs)
          case Nil
          with b have "k' = 0" by simp
          with Nil True show ?thesis by simp
        next
          case (Cons c' cs')
          have "\<not> (k' = length cs \<and> last (c # cs) = NL)"
          proof
            assume a: "k' = length cs \<and> last (c # cs) = NL"
            with nonl have "count_list cs NL = 0" by simp
            then have "NL \<notin> set cs" by (simp add: count_list_0_iff)
            moreover have "cs \<noteq> []" using Cons by simp
            then have "last cs \<in> set cs" "last (c # cs) = last cs" by simp_all
            ultimately show False using a by simp
          qed
          moreover
          have "loc_to_index_loop cs (off + 1) n (lines + 1) L C = Inr (off + 1 + int k')"
            using Cons same C b by simp
          ultimately show ?thesis by simp
        qed
      next
        case False
        note IH[THEN conjunct2, THEN conjunct2, THEN conjunct2, rule_format, OF False]
        then have "loc_to_index_loop cs (off + 1) n (lines + 1) L C =
             (if k' = length cs \<and> last cs = NL then Inl IndexError
              else Inr (off + 1 + int k'))" .
        moreover have "cs \<noteq> []" using L' False by auto
        then have "last (c # cs) = last cs" by simp
        ultimately show ?thesis by simp
      qed
      show ?thesis using c1 c2 far(1) step c4 klen tgt by simp
    next
      case False
      from Cons.prems Suc False
      have run: "index_to_loc_loop cs (off + 1) ((off + 1) + int k') lines (cols + 1) = (L, C)"
        by (simp add: algebra_simps)
      from Cons.prems have z: "0 \<le> cols + 1" by simp
      note IH = Cons.IH[OF b(1) b(2) z run]
      from IH have L': "L = lines + 1 + int (count_list (take k' cs) NL)" by simp
      have c1: "L = lines + 1 + int (count_list (take k (c # cs)) NL)"
        using L' Suc False by simp
      have c2: "1 \<le> C" using IH by simp
      have c3: "L = lines + 1 \<longrightarrow> C = cols + 1 + int k" using IH Suc by simp
      have c4: "loc_to_index_loop (c # cs) off n lines L C =
             (if k = length (c # cs) \<and> last (c # cs) = NL then Inl IndexError
              else Inr (off + int k))"
        if far: "L \<noteq> lines + 1"
      proof -
        from far have "lines \<noteq> L - 1" by simp
        then have "loc_to_index_loop (c # cs) off n lines L C =
                  loc_to_index_loop cs (off + 1) n lines L C"
          using False by simp
        moreover have "loc_to_index_loop cs (off + 1) n lines L C =
             (if k' = length cs \<and> last cs = NL then Inl IndexError
              else Inr (off + 1 + int k'))"
          by (rule IH[THEN conjunct2, THEN conjunct2, THEN conjunct2, rule_format, OF far])
        moreover have "cs \<noteq> []" using L' far by auto
        then have "last (c # cs) = last cs" by simp
        ultimately show ?thesis using klen tgt by simp
      qed
      show ?thesis
        apply (intro conjI impI)
           apply (rule c1)
          apply (rule c2)
         apply (erule c3[rule_format])
        apply (erule c4)
        done
    qed
  qed
qed

lemma roundtrip_nat:
  assumes kb: "k \<le> length body"
  shows "\<exists>L C. index_to_loc body (int k) = Inr (L, C) \<and> 1 \<le> L \<and> 1 \<le> C
           \<and> loc_to_index body (L, C) =
               (if body \<noteq> [] \<and> k = length body \<and> last body = NL
                then Inl IndexError else Inr (int k))"
proof (cases body)
  case Nil
  with kb show ?thesis by (simp add: index_to_loc_def loc_to_index_def)
next
  case (Cons c cs)
  then have ne: "body \<noteq> []" by simp
  obtain L C where run: "index_to_loc_loop body 0 (0 + int k) 0 0 = (L, C)"
    by (cases "index_to_loc_loop body 0 (0 + int k) 0 0") auto
  have kb': "0 + int k \<le> int (length body)" "(0::int) \<le> 0"
    using kb by simp_all
  note A = loops_agree[OF kb kb' run]
  have i2l: "index_to_loc body (int k) = Inr (L, C)"
    using ne kb run by (simp add: index_to_loc_def)
  from A have C1: "1 \<le> C" by (rule conjunct2[THEN conjunct1])
  from A have Leq: "L = 0 + 1 + int (count_list (take k body) NL)" by (rule conjunct1)
  then have L1: "1 \<le> L" by simp
  have l2i: "loc_to_index body (L, C) = loc_to_index_loop body 0 (int (length body)) 0 L C"
    using ne by (simp add: loc_to_index_def)
  have res: "loc_to_index_loop body 0 (int (length body)) 0 L C =
               (if k = length body \<and> last body = NL then Inl IndexError else Inr (int k))"
  proof (cases "L = 0 + 1")
    case True
    have C: "C = 0 + 1 + int k"
      by (rule A[THEN conjunct2, THEN conjunct2, THEN conjunct1, rule_format, OF True])
    from True Leq have cnt: "count_list (take k body) NL = 0" by simp
    have "\<not> (k = length body \<and> last body = NL)"
    proof
      assume a: "k = length body \<and> last body = NL"
      with cnt have "count_list body NL = 0" by simp
      then have "NL \<notin> set body" by (simp add: count_list_0_iff)
      moreover have "last body \<in> set body" using ne by (rule last_in_set)
      ultimately show False using a by simp
    qed
    moreover have "loc_to_index_loop (c # cs) 0 (int (length (c # cs))) 0 L C = Inr (int k)"
      using True C kb Cons by simp
    ultimately show ?thesis using Cons by simp
  next
    case F: False
    have "loc_to_index_loop body 0 (int (length body)) 0 L C =
        (if k = length body \<and> last body = NL then Inl IndexError else Inr (0 + int k))"
      by (rule A[THEN conjunct2, THEN conjunct2, THEN conjunct2, rule_format, OF F])
    then show ?thesis by simp
  qed
  show ?thesis
    apply (rule exI[of _ L], rule exI[of _ C])
    apply (simp only: i2l l2i res)
    using L1 C1 ne apply simp
    done
qed

text \<open>
  The round trip of \<^verbatim>\<open>index_to_loc\<close> and \<^verbatim>\<open>loc_to_index\<close>, for every position inside
  the body or at its end: \<^verbatim>\<open>index_to_loc\<close> returns a 1-based pair, and \<^verbatim>\<open>loc_to_index\<close>
  maps it back to the position, except at the end of a body whose last character is a
  newline, where it raises \<^verbatim>\<open>IndexError\<close>.
\<close>

theorem index_to_loc_round_trip_cases:
  assumes "0 \<le> position" and "position \<le> int (length body)"
  shows "\<exists>L C. index_to_loc body position = Inr (L, C) \<and> 1 \<le> L \<and> 1 \<le> C
         \<and> loc_to_index body (L, C) =
               (if body \<noteq> [] \<and> position = int (length body) \<and> last body = NL
                then Inl IndexError else Inr position)"
proof -
  from assms have k: "nat position \<le> length body" and p: "int (nat position) = position"
    by linarith+
  have "(nat position = length body) = (position = int (length body))"
    using assms by linarith
  with roundtrip_nat[OF k] show ?thesis
    by (simp only: p)
qed

lemma index_to_loc_past_the_end:
  "int (length body) < position \<Longrightarrow> index_to_loc body position = Inl IndexError"
  by (auto simp: index_to_loc_def)

theorem index_to_loc_round_trip_cases_witness:
  "(\<exists>L C. index_to_loc ''ab'' 1 = Inr (L, C) \<and> 1 \<le> L \<and> 1 \<le> C
      \<and> loc_to_index ''ab'' (L, C) = Inr 1)"
  using index_to_loc_round_trip_cases[of 1 "''ab''"] by simp

text \<open>
  C10. For every body and every position with \<^verbatim>\<open>0 <= position <= len(body)\<close>,
  \<^verbatim>\<open>loc_to_index(body, index_to_loc(body, position)) == position\<close>. The code breaks this
  at the end of a body that ends with a newline: for the body \<^verbatim>\<open>"a\n"\<close> and position 2,
  \<^verbatim>\<open>index_to_loc\<close> returns (2, 1), and \<^verbatim>\<open>loc_to_index\<close> raises \<^verbatim>\<open>IndexError\<close> on it.
\<close>

theorem loc_to_index_fails_after_final_newline:
  "index_to_loc [CHR ''a'', NL] 2 = Inr (2, 1)
   \<and> loc_to_index [CHR ''a'', NL] (2, 1) = Inl IndexError"
  by (simp add: index_to_loc_def loc_to_index_def)

section \<open>Block strings\<close>

lemma line_separator_split_not_Nil: "line_separator_split s \<noteq> []"
  by (induction s rule: line_separator_split.induct) (auto split: list.splits)

lemma is_blank_iff: "is_blank l = (dropWhile is_space l = [])"
proof
  assume "is_blank l"
  then have a: "dropWhile is_space (rev (dropWhile is_space l)) = []"
    unfolding is_blank_def strip_def by (simp only: rev_is_Nil_conv)
  show "dropWhile is_space l = []"
  proof (rule ccontr)
    assume b: "dropWhile is_space l \<noteq> []"
    then have "\<not> is_space (hd (dropWhile is_space l))" by (rule hd_dropWhile)
    moreover from b have "hd (dropWhile is_space l) \<in> set (dropWhile is_space l)"
      by (rule hd_in_set)
    then have "hd (dropWhile is_space l) \<in> set (rev (dropWhile is_space l))"
      by (simp only: set_rev)
    moreover from a have "\<forall>x\<in>set (rev (dropWhile is_space l)). is_space x"
      by (simp only: dropWhile_eq_Nil_conv)
    ultimately show False by blast
  qed
next
  assume "dropWhile is_space l = []"
  then show "is_blank l"
    unfolding is_blank_def strip_def by (simp only: rev.simps dropWhile.simps)
qed

lemma leading_whitespace_less_iff: "(leading_whitespace l < length l) = (\<not> is_blank l)"
proof -
  have "length (takeWhile is_space l @ dropWhile is_space l) = length l"
    by (simp only: takeWhile_dropWhile_id)
  then have "length (takeWhile is_space l) + length (dropWhile is_space l) = length l"
    by (simp only: length_append)
  then have "(length l - length (dropWhile is_space l) < length l)
             = (dropWhile is_space l \<noteq> [])"
    by (cases "dropWhile is_space l") (simp_all del: dropWhile_eq_Nil_conv)
  then show ?thesis by (simp only: leading_whitespace_def is_blank_iff)
qed

lemma Min_insert_min:
  "finite A \<Longrightarrow> Min (insert (min c x) A) = Min (insert c (insert (x::nat) A))"
  by (cases "A = {}") (simp_all add: min.assoc)

lemma common_indent_loop_enumerate:
  "common_indent_loop ci (enumerate (Suc n) ls) =
     (case ci of
        None \<Rightarrow> (if indents_of ls = [] then None else Some (Min (set (indents_of ls))))
      | Some c \<Rightarrow> Some (Min (insert c (set (indents_of ls)))))"
proof (induction ls arbitrary: ci n)
  case Nil
  show ?case by (simp add: indents_of_def split: option.splits)
next
  case (Cons l ls)
  have step: "common_indent_loop ci (enumerate (Suc n) (l # ls)) =
     common_indent_loop
       (if \<not> is_blank l \<and> (case ci of None \<Rightarrow> True | Some c \<Rightarrow> leading_whitespace l < c)
        then Some (leading_whitespace l) else ci)
       (enumerate (Suc (Suc n)) ls)"
    by (simp add: leading_whitespace_less_iff)
  show ?case
  proof (cases "is_blank l")
    case True
    then have ind: "indents_of (l # ls) = indents_of ls"
      by (simp add: indents_of_def)
    show ?thesis unfolding step ind using True by (simp add: Cons.IH)
  next
    case False
    then have ind: "indents_of (l # ls) = leading_whitespace l # indents_of ls"
      by (simp add: indents_of_def)
    show ?thesis
    proof (cases ci)
      case None
      show ?thesis unfolding step ind using None False by (simp add: Cons.IH)
    next
      case (Some c)
      have m: "Min (insert (min c (leading_whitespace l)) (set (indents_of ls)))
               = Min (insert c (insert (leading_whitespace l) (set (indents_of ls))))"
        by (rule Min_insert_min) simp
      show ?thesis
      proof (cases "leading_whitespace l < c")
        case True
        then have "min c (leading_whitespace l) = leading_whitespace l" by simp
        with m have "Min (insert c (insert (leading_whitespace l) (set (indents_of ls))))
                 = Min (insert (leading_whitespace l) (set (indents_of ls)))" by simp
        then show ?thesis unfolding step ind using Some False True
          by (simp add: Cons.IH del: Min_insert)
      next
        case F: False
        then have "min c (leading_whitespace l) = c" by simp
        with m have "Min (insert c (insert (leading_whitespace l) (set (indents_of ls))))
                 = Min (insert c (set (indents_of ls)))" by simp
        then show ?thesis unfolding step ind using Some False F
          by (simp add: Cons.IH del: Min_insert)
      qed
    qed
  qed
qed

lemma strip_indent_enumerate:
  "map (\<lambda>(i, line). if length line \<ge> c \<and> i > 0 then drop c line else line)
       (enumerate (Suc n) ls)
   = map (\<lambda>l. if c \<le> length l then drop c l else l) ls"
  by (induction ls arbitrary: n) simp_all

lemma pop_leading_blank_eq: "pop_leading_blank ls = dropWhile is_blank ls"
  by (induction ls) simp_all

lemma pop_trailing_blank_snoc:
  "pop_trailing_blank (ls @ [l]) = (if is_blank l then pop_trailing_blank ls else ls @ [l])"
  by (subst pop_trailing_blank.simps) simp

lemma pop_trailing_blank_eq: "pop_trailing_blank ls = rev (dropWhile is_blank (rev ls))"
proof (induction ls rule: rev_induct)
  case Nil
  show ?case by (subst pop_trailing_blank.simps) simp
next
  case (snoc l ls)
  then show ?case by (simp add: pop_trailing_blank_snoc del: pop_trailing_blank.simps)
qed

lemma parse_block_string_eq:
  "parse_block_string body True True =
     (case line_separator_split body of
        [] \<Rightarrow> []
      | first # others \<Rightarrow>
          join_nl (rev (dropWhile is_blank (rev (dropWhile is_blank
            (first # map (\<lambda>l. if common_indent_of others \<le> length l
                                then drop (common_indent_of others) l else l) others))))))"
proof -
  obtain first others where sp: "line_separator_split body = first # others"
    using line_separator_split_not_Nil[of body] by (cases "line_separator_split body") auto
  let ?c = "common_indent_of others"
  let ?strip = "\<lambda>l. if ?c \<le> length l then drop ?c l else l"
  have ci: "common_indent_loop None (enumerate 0 (first # others)) =
            (if indents_of others = [] then None else Some ?c)"
    by (simp add: common_indent_loop_enumerate common_indent_of_def)
  have l1: "(case common_indent_loop None (enumerate 0 (first # others)) of
               None \<Rightarrow> first # others
             | Some c \<Rightarrow>
                 if c = 0 then first # others
                 else map (\<lambda>(i, line). if length line \<ge> c \<and> i > 0 then drop c line else line)
                        (enumerate 0 (first # others)))
            = first # map ?strip others"
  proof (cases "indents_of others = []")
    case True
    then have "?c = 0" by (simp add: common_indent_of_def)
    then show ?thesis using True ci by simp
  next
    case False
    show ?thesis
    proof (cases "?c = 0")
      case True
      then show ?thesis using False ci by simp
    next
      case F: False
      then show ?thesis using False ci by (simp add: strip_indent_enumerate)
    qed
  qed
  show ?thesis
    unfolding parse_block_string_def Let_def sp l1
    by (simp add: pop_leading_blank_eq pop_trailing_blank_eq del: pop_trailing_blank.simps)
qed

text \<open>
  C2. The claim, like the \<^verbatim>\<open>BlockStringValue\<close> algorithm that the docstring of
  \<^verbatim>\<open>parse_block_string\<close> says it implements, strips the common indent from every line
  except the first. The code strips it only from the lines that are at least as long as
  the indent: for the body \<^verbatim>\<open>"a\n    b\n  \n    c"\<close>, whose common indent is 4, it
  returns \<^verbatim>\<open>"a\nb\n  \nc"\<close>, the third line still two spaces long, where the algorithm
  gives \<^verbatim>\<open>"a\nb\n\nc"\<close>.
\<close>

theorem parse_block_string_short_blank_line:
  "parse_block_string (''a'' @ [NL] @ ''    b'' @ [NL] @ ''  '' @ [NL] @ ''    c'') True True
     = ''a'' @ [NL] @ ''b'' @ [NL] @ ''  '' @ [NL] @ ''c''
   \<and> block_string_value_stated (''a'' @ [NL] @ ''    b'' @ [NL] @ ''  '' @ [NL] @ ''    c'')
     = ''a'' @ [NL] @ ''b'' @ [NL] @ [NL] @ ''c''"
  by (simp add: parse_block_string_def block_string_value_stated_def common_indent_of_def
      indents_of_def enumerate_eq_zip upt_rec is_space_def is_blank_def strip_def
      leading_whitespace_def)

text \<open>
  Where no line after the first is shorter than the common indent,
  \<^verbatim>\<open>parse_block_string\<close> returns the value that the algorithm describes: the lines of
  the body, the common indent stripped from every line after the first, without the
  leading and the trailing blank lines, joined with a newline.
\<close>

theorem parse_block_string_block_string_value:
  assumes "list_all (\<lambda>l. common_indent_of (tl (line_separator_split body)) \<le> length l)
             (tl (line_separator_split body))"
  shows "parse_block_string body True True = block_string_value_stated body"
proof -
  obtain first others where sp: "line_separator_split body = first # others"
    using line_separator_split_not_Nil[of body] by (cases "line_separator_split body") auto
  from assms have m: "map (\<lambda>l. if common_indent_of others \<le> length l
                                then drop (common_indent_of others) l else l) others
                   = map (drop (common_indent_of others)) others"
    unfolding sp by (intro map_cong) (auto simp: list_all_iff)
  show ?thesis
    by (simp only: parse_block_string_eq block_string_value_stated_def sp list.case m)
qed

text \<open>
  The specification's example: the body \<^verbatim>\<open>"\n  hello\n    world\n  "\<close> gives
  \<^verbatim>\<open>"hello\n  world"\<close>.
\<close>

theorem parse_block_string_block_string_value_witness:
  "list_all (\<lambda>l. common_indent_of (tl (line_separator_split
                    ([NL] @ ''  hello'' @ [NL] @ ''    world'' @ [NL] @ ''  ''))) \<le> length l)
     (tl (line_separator_split ([NL] @ ''  hello'' @ [NL] @ ''    world'' @ [NL] @ ''  '')))
   \<and> parse_block_string ([NL] @ ''  hello'' @ [NL] @ ''    world'' @ [NL] @ ''  '') True True
       = ''hello'' @ [NL] @ ''  world''"
proof -
  have h: "list_all (\<lambda>l. common_indent_of (tl (line_separator_split
                    ([NL] @ ''  hello'' @ [NL] @ ''    world'' @ [NL] @ ''  ''))) \<le> length l)
     (tl (line_separator_split ([NL] @ ''  hello'' @ [NL] @ ''    world'' @ [NL] @ ''  '')))"
    by (simp add: common_indent_of_def indents_of_def is_blank_def strip_def is_space_def
        leading_whitespace_def)
  have v: "block_string_value_stated ([NL] @ ''  hello'' @ [NL] @ ''    world'' @ [NL] @ ''  '')
           = ''hello'' @ [NL] @ ''  world''"
    by (simp add: block_string_value_stated_def common_indent_of_def indents_of_def is_blank_def
        strip_def is_space_def leading_whitespace_def)
  from parse_block_string_block_string_value[OF h] v
  have "parse_block_string ([NL] @ ''  hello'' @ [NL] @ ''    world'' @ [NL] @ ''  '') True True
       = ''hello'' @ [NL] @ ''  world''"
    by (simp only:)
  with h show ?thesis by (rule conjI)
qed

section \<open>Middlewares\<close>

lemma apply_middlewares_loop_append:
  "apply_middlewares_loop d tail (xs @ ys) =
     apply_middlewares_loop d (apply_middlewares_loop d tail xs) ys"
  by (induction xs arbitrary: tail) simp_all

text \<open>
  C7. \<^verbatim>\<open>apply_middlewares\<close> composes inside-out. With no middleware the function is
  returned as it is. The leftmost middleware is the outermost call: a function
  middleware is called with the composition of the others as its \<^verbatim>\<open>next\<close>, and a
  generator middleware is run on that composition up to its first \<^verbatim>\<open>yield\<close>, whose
  value is the result (\<^verbatim>\<open>RuntimeError\<close> when it returns without yielding; its own
  exception when it raises, before the \<^verbatim>\<open>yield\<close> or, for a value that is not a
  deferred, after it). The rightmost middleware wraps the function directly, in the same
  two ways. The docstring's example returns 36, also when its first middleware is a
  generator; with the two middlewares in the other order it returns 16; and a generator
  middleware that does not yield raises.
\<close>

theorem apply_middlewares_inside_out:
  "apply_middlewares d func [] = func
   \<and> apply_middlewares d func (Function f # mws) = f (apply_middlewares d func mws)
   \<and> apply_middlewares d func (GeneratorFunction g # mws) args =
       (case g (apply_middlewares d func mws) args of
          Return \<Rightarrow> Inl (RuntimeError ''Generator middleware did not yield'')
        | Raise e \<Rightarrow> Inl e
        | Yield v k \<Rightarrow>
            if d v then Inr v else (case k of Raise e \<Rightarrow> Inl e | _ \<Rightarrow> Inr v))
   \<and> apply_middlewares d func (mws @ [Function f]) = apply_middlewares d (f func) mws
   \<and> apply_middlewares d func (mws @ [GeneratorFunction g]) =
       apply_middlewares d
         (\<lambda>args. case g func args of
                   Return \<Rightarrow> Inl (RuntimeError ''Generator middleware did not yield'')
                 | Raise e \<Rightarrow> Inl e
                 | Yield v k \<Rightarrow>
                     if d v then Inr v else (case k of Raise e \<Rightarrow> Inl e | _ \<Rightarrow> Inr v))
         mws
   \<and> apply_middlewares d (\<lambda>x. Inr (x * x))
        [Function (\<lambda>n x. n (x + 1)), Function (\<lambda>n x. n (x * 3))] (1 :: int) = Inr (36 :: int)
   \<and> apply_middlewares (\<lambda>r. False) (\<lambda>x. Inr (x * x))
        [GeneratorFunction (\<lambda>n x. case n (x + 1) of Inl e \<Rightarrow> Raise e | Inr r \<Rightarrow> Yield r Return),
         Function (\<lambda>n x. n (x * 3))] (1 :: int) = Inr (36 :: int)
   \<and> apply_middlewares (\<lambda>r. False) (\<lambda>x. Inr (x * x))
        [Function (\<lambda>n x. n (x * 3)),
         GeneratorFunction (\<lambda>n x. case n (x + 1) of Inl e \<Rightarrow> Raise e | Inr r \<Rightarrow> Yield r Return)]
        (1 :: int) = Inr (16 :: int)
   \<and> apply_middlewares (\<lambda>r. False) (\<lambda>x. Inr (x * x))
        [Function (\<lambda>n x. n (x * 3)), GeneratorFunction (\<lambda>n x. Return)] (1 :: int)
       = Inl (RuntimeError ''Generator middleware did not yield'')"
proof (intro conjI)
  have gm: "generator_middleware d g tail =
     (\<lambda>args. case g tail args of
               Return \<Rightarrow> Inl (RuntimeError ''Generator middleware did not yield'')
             | Raise e \<Rightarrow> Inl e
             | Yield v k \<Rightarrow>
                 if d v then Inr v else (case k of Raise e \<Rightarrow> Inl e | _ \<Rightarrow> Inr v))" for tail
    by (rule ext)
       (simp add: generator_middleware_def wrapped_def next_gen_def finish_def
          split: generator.splits)
  show "apply_middlewares d func [] = func"
    by (simp add: apply_middlewares_def)
  show "apply_middlewares d func (Function f # mws) = f (apply_middlewares d func mws)"
    by (simp add: apply_middlewares_def apply_middlewares_loop_append partial_mw_def)
  show "apply_middlewares d func (GeneratorFunction g # mws) args =
       (case g (apply_middlewares d func mws) args of
          Return \<Rightarrow> Inl (RuntimeError ''Generator middleware did not yield'')
        | Raise e \<Rightarrow> Inl e
        | Yield v k \<Rightarrow>
            if d v then Inr v else (case k of Raise e \<Rightarrow> Inl e | _ \<Rightarrow> Inr v))"
    by (simp add: apply_middlewares_def apply_middlewares_loop_append partial_mw_def gm)
  show "apply_middlewares d func (mws @ [Function f]) = apply_middlewares d (f func) mws"
    by (simp add: apply_middlewares_def partial_mw_def)
  show "apply_middlewares d func (mws @ [GeneratorFunction g]) =
       apply_middlewares d
         (\<lambda>args. case g func args of
                   Return \<Rightarrow> Inl (RuntimeError ''Generator middleware did not yield'')
                 | Raise e \<Rightarrow> Inl e
                 | Yield v k \<Rightarrow>
                     if d v then Inr v else (case k of Raise e \<Rightarrow> Inl e | _ \<Rightarrow> Inr v))
         mws"
    by (simp add: apply_middlewares_def partial_mw_def gm)
  show "apply_middlewares d (\<lambda>x. Inr (x * x))
        [Function (\<lambda>n x. n (x + 1)), Function (\<lambda>n x. n (x * 3))] (1 :: int) = Inr (36 :: int)"
    by (simp add: apply_middlewares_def partial_mw_def)
  show "apply_middlewares (\<lambda>r. False) (\<lambda>x. Inr (x * x))
        [GeneratorFunction (\<lambda>n x. case n (x + 1) of Inl e \<Rightarrow> Raise e | Inr r \<Rightarrow> Yield r Return),
         Function (\<lambda>n x. n (x * 3))] (1 :: int) = Inr (36 :: int)"
    by (simp add: apply_middlewares_def partial_mw_def generator_middleware_def wrapped_def
        next_gen_def finish_def)
  show "apply_middlewares (\<lambda>r. False) (\<lambda>x. Inr (x * x))
        [Function (\<lambda>n x. n (x * 3)),
         GeneratorFunction (\<lambda>n x. case n (x + 1) of Inl e \<Rightarrow> Raise e | Inr r \<Rightarrow> Yield r Return)]
        (1 :: int) = Inr (16 :: int)"
    by (simp add: apply_middlewares_def partial_mw_def generator_middleware_def wrapped_def
        next_gen_def finish_def)
  show "apply_middlewares (\<lambda>r. False) (\<lambda>x. Inr (x * x))
        [Function (\<lambda>n x. n (x * 3)), GeneratorFunction (\<lambda>n x. Return)] (1 :: int)
       = Inl (RuntimeError ''Generator middleware did not yield'')"
    by (simp add: apply_middlewares_def partial_mw_def generator_middleware_def wrapped_def
        next_gen_def finish_def)
qed

text \<open>
  C8, amended. A generator that returns without yielding makes the wrapped middleware
  raise \<^verbatim>\<open>RuntimeError\<close> (one that raises before yielding makes it raise that exception).
  When the generator yields, the first yielded value \<open>v\<close> is the middleware's result and
  the generator is resumed exactly once: at once when \<open>v\<close> is not a deferred (two
  \<^verbatim>\<open>next\<close> calls in all when \<^verbatim>\<open>wrapped\<close> exits), and when the deferred \<open>v\<close> completes
  otherwise (one \<^verbatim>\<open>next\<close> call and a registered callback when \<^verbatim>\<open>wrapped\<close> exits, two
  calls and no callback after completion). The one exception: when \<open>v\<close> is not a deferred
  and the resumed code raises, the middleware raises that exception instead of
  returning \<open>v\<close>.
\<close>

theorem generator_middleware_yields_once:
  "(case func step args of
      Return \<Rightarrow>
        generator_middleware d func step args =
          Inl (RuntimeError ''Generator middleware did not yield'')
    | Raise e \<Rightarrow> generator_middleware d func step args = Inl e
    | Yield v k \<Rightarrow>
        (if d v then
           generator_middleware d func step args = Inr v
           \<and> snd (wrapped d func step args) =
               \<lparr>gen = \<lparr>code_left = k, next_calls = 1\<rparr>, finish_registered = True\<rparr>
           \<and> next_calls (gen (deferred_completes (snd (wrapped d func step args)))) = 2
           \<and> \<not> finish_registered (deferred_completes (snd (wrapped d func step args)))
         else
           generator_middleware d func step args =
             (case k of Return \<Rightarrow> Inr v | Raise e \<Rightarrow> Inl e | Yield v' k' \<Rightarrow> Inr v)
           \<and> next_calls (gen (snd (wrapped d func step args))) = 2
           \<and> \<not> finish_registered (snd (wrapped d func step args))))"
  by (auto simp: generator_middleware_def wrapped_def next_gen_def finish_def deferred_completes_def
      split: generator.splits)

text \<open>
  C8 as stated: whenever the generator of a generator-style middleware yields, the first
  yielded value is the middleware's result. It fails for a generator that raises when it
  is resumed after yielding a value that is not a deferred: \<^verbatim>\<open>_finish\<close> catches
  \<^verbatim>\<open>StopIteration\<close> only, so the exception leaves \<^verbatim>\<open>wrapped\<close> before its
  \<^verbatim>\<open>return res\<close>.
\<close>

theorem generator_result_counterexample:
  "\<not> (\<forall>(func :: (int, int) resolver \<Rightarrow> int \<Rightarrow> int generator) step args v k.
        func step args = Yield v k \<longrightarrow>
        generator_middleware (\<lambda>r. False) func step args = Inr v)"
proof
  assume a: "\<forall>(func :: (int, int) resolver \<Rightarrow> int \<Rightarrow> int generator) step args v k.
        func step args = Yield v k \<longrightarrow>
        generator_middleware (\<lambda>r. False) func step args = Inr v"
  have "generator_middleware (\<lambda>r. False)
          (\<lambda>step args. Yield (1::int) (Raise (UserException ''boom''))) (\<lambda>x::int. Inr x) 0
        = Inr 1"
    by (rule a[rule_format]) simp
  then show False
    by (simp add: generator_middleware_def wrapped_def next_gen_def finish_def)
qed

section \<open>The extraction pass\<close>

lemma dict_set_fresh:
  "\<not> dict_contains d k \<Longrightarrow> dict_set d k v = d @ [(k, v)]"
  by (induction d) (auto simp: dict_contains_def dict_set_def)

lemma dict_contains_iff: "dict_contains d k = (k \<in> set (map fst d))"
  by (induction d) (auto simp: dict_contains_def)

lemma extract_type_loop_ok:
  "acc_ok acc ds \<Longrightarrow> extract_type_loop acc ds = Inr (acc_result acc ds)"
proof (induction acc ds rule: extract_type_loop.induct)
  case (1 acc)
  show ?case by (simp add: acc_result_def split: option.splits)
next
  case (2 acc s rest)
  from "2.prems" have none: "ex_schema_definition acc = None"
    by (auto simp: acc_ok_def split: if_splits)
  from "2.prems" none have rest: "schema_definitions_of rest = []"
    by (simp add: acc_ok_def)
  have ok: "acc_ok (acc\<lparr>ex_schema_definition := Some s\<rparr>) rest"
    using "2.prems" none rest by (simp add: acc_ok_def)
  show ?case using "2.IH"[OF _ ok] none rest by (simp add: acc_result_def)
next
  case (3 acc t rest)
  from "3.prems" have fresh: "\<not> dict_contains (ex_types acc) (type_definition_name t)"
    by (auto simp: acc_ok_def dict_contains_iff)
  have ok: "acc_ok (acc\<lparr>ex_types := dict_set (ex_types acc) (type_definition_name t) t\<rparr>) rest"
    using "3.prems" by (auto simp: acc_ok_def dict_set_fresh[OF fresh])
  show ?case using "3.IH"[OF fresh ok] fresh
    by (simp add: acc_result_def dict_set_fresh[OF fresh] split: option.splits)
next
  case (4 acc e rest)
  have ok: "acc_ok (acc\<lparr>ex_extensions := (ex_extensions acc)
              (type_extension_name e := ex_extensions acc (type_extension_name e) @ [e])\<rparr>) rest"
    using "4.prems" by (simp add: acc_ok_def)
  show ?case using "4.IH"[OF ok] by (auto simp: acc_result_def split: option.splits)
next
  case (5 acc d rest)
  from "5.prems" have fresh: "\<not> dict_contains (ex_directives acc) (dd_name d)"
    by (auto simp: acc_ok_def dict_contains_iff)
  have ok: "acc_ok (acc\<lparr>ex_directives := dict_set (ex_directives acc) (dd_name d) d\<rparr>) rest"
    using "5.prems" by (auto simp: acc_ok_def dict_set_fresh[OF fresh])
  show ?case using "5.IH"[OF fresh ok] fresh
    by (simp add: acc_result_def dict_set_fresh[OF fresh] split: option.splits)
next
  case (6 acc rest)
  then show ?case by (simp add: acc_ok_def acc_result_def split: option.splits)
qed

lemma extract_type_loop_fails:
  "\<not> acc_ok acc ds \<Longrightarrow> distinct (map fst (ex_types acc)) \<Longrightarrow> distinct (map fst (ex_directives acc))
   \<Longrightarrow> \<exists>msg. extract_type_loop acc ds = Inl (SDLError msg)"
proof (induction acc ds rule: extract_type_loop.induct)
  case (1 acc)
  then show ?case by (simp add: acc_ok_def)
next
  case (2 acc s rest)
  show ?case
  proof (cases "ex_schema_definition acc = None")
    case True
    have "\<not> acc_ok (acc\<lparr>ex_schema_definition := Some s\<rparr>) rest"
      using "2.prems"(1) True by (auto simp: acc_ok_def)
    with "2.IH" "2.prems" True show ?thesis by simp
  next
    case False
    then show ?thesis by simp
  qed
next
  case (3 acc t rest)
  show ?case
  proof (cases "dict_contains (ex_types acc) (type_definition_name t)")
    case True
    then show ?thesis by simp
  next
    case False
    have "\<not> acc_ok (acc\<lparr>ex_types := dict_set (ex_types acc) (type_definition_name t) t\<rparr>) rest"
      using "3.prems"(1) False by (auto simp: acc_ok_def dict_set_fresh[OF False] dict_contains_iff)
    moreover have "distinct (map fst (dict_set (ex_types acc) (type_definition_name t) t))"
      using "3.prems"(2) False by (simp add: dict_set_fresh[OF False] dict_contains_iff)
    ultimately show ?thesis using "3.IH"[OF False] "3.prems"(3) False by simp
  qed
next
  case (4 acc e rest)
  have "\<not> acc_ok (acc\<lparr>ex_extensions := (ex_extensions acc)
              (type_extension_name e := ex_extensions acc (type_extension_name e) @ [e])\<rparr>) rest"
    using "4.prems"(1) by (simp add: acc_ok_def)
  with "4.IH" "4.prems" show ?case by simp
next
  case (5 acc d rest)
  show ?case
  proof (cases "dict_contains (ex_directives acc) (dd_name d)")
    case True
    then show ?thesis by simp
  next
    case False
    have "\<not> acc_ok (acc\<lparr>ex_directives := dict_set (ex_directives acc) (dd_name d) d\<rparr>) rest"
      using "5.prems"(1) False by (auto simp: acc_ok_def dict_set_fresh[OF False] dict_contains_iff)
    moreover have "distinct (map fst (dict_set (ex_directives acc) (dd_name d) d))"
      using "5.prems"(3) False by (simp add: dict_set_fresh[OF False] dict_contains_iff)
    ultimately show ?thesis using "5.IH"[OF False] "5.prems"(2) False by simp
  qed
next
  case (6 acc rest)
  then show ?case by (simp add: acc_ok_def)
qed

text \<open>
  C5. The extraction pass raises \<^verbatim>\<open>SDLError\<close> for every document with more than one
  schema definition, two type definitions of one name or two directive definitions of
  one name; every other document passes, partitioned into the schema definition, the
  type definitions by name, the extensions grouped by name and the directive
  definitions by name.
\<close>

theorem extract_type_partitions:
  "(if no_duplicates ds then extract_type_pass ds = Inr (partitioned ds)
    else \<exists>msg. extract_type_pass ds = Inl (SDLError msg))"
proof (cases "no_duplicates ds")
  case True
  let ?acc = "\<lparr>ex_schema_definition = None, ex_types = [], ex_extensions = (\<lambda>name. []),
        ex_directives = []\<rparr> :: ('a, 'b) extracted"
  have "acc_ok ?acc ds" using True by (simp add: acc_ok_def no_duplicates_def)
  then have "extract_type_loop ?acc ds = Inr (acc_result ?acc ds)"
    by (rule extract_type_loop_ok)
  moreover have "acc_result ?acc ds = partitioned ds"
    by (simp add: acc_result_def partitioned_def)
  ultimately show ?thesis using True by (simp add: extract_type_pass_def)
next
  case False
  let ?acc = "\<lparr>ex_schema_definition = None, ex_types = [], ex_extensions = (\<lambda>name. []),
        ex_directives = []\<rparr> :: ('a, 'b) extracted"
  have "\<not> acc_ok ?acc ds" using False by (simp add: acc_ok_def no_duplicates_def)
  then have "\<exists>msg. extract_type_loop ?acc ds = Inl (SDLError msg)"
    by (rule extract_type_loop_fails) simp_all
  then show ?thesis using False by (simp add: extract_type_pass_def)
qed

section \<open>Operation types\<close>

lemma operation_types_loop_ok:
  "distinct (map fst acc @ map otd_operation ops)
   \<Longrightarrow> list_all (\<lambda>opdef. dict_contains tm (otd_type opdef)) ops
   \<Longrightarrow> operation_types_loop acc tm ops =
       Inr (acc @ map (\<lambda>opdef. (otd_operation opdef, dict_get tm (otd_type opdef))) ops)"
proof (induction ops arbitrary: acc)
  case Nil
  show ?case by simp
next
  case (Cons opdef ops)
  from Cons.prems have fresh: "\<not> dict_contains acc (otd_operation opdef)"
    by (auto simp: dict_contains_iff)
  have d: "distinct (map fst (acc @ [(otd_operation opdef, dict_get tm (otd_type opdef))])
                    @ map otd_operation ops)"
    using Cons.prems(1) by auto
  from Cons.prems(2) have k: "list_all (\<lambda>opdef. dict_contains tm (otd_type opdef)) ops"
    and k0: "dict_contains tm (otd_type opdef)" by simp_all
  show ?case using Cons.IH[OF d k] fresh k0 by (simp add: dict_set_fresh[OF fresh])
qed

lemma operation_types_loop_fails:
  "\<not> (distinct (map fst acc @ map otd_operation ops)
       \<and> list_all (\<lambda>opdef. dict_contains tm (otd_type opdef)) ops)
   \<Longrightarrow> distinct (map fst acc)
   \<Longrightarrow> \<exists>msg. operation_types_loop acc tm ops = Inl (SDLError msg)"
proof (induction ops arbitrary: acc)
  case Nil
  then show ?case by simp
next
  case (Cons opdef ops)
  show ?case
  proof (cases "dict_contains acc (otd_operation opdef)")
    case True
    then show ?thesis by simp
  next
    case fresh: False
    show ?thesis
    proof (cases "dict_contains tm (otd_type opdef)")
      case False
      with fresh show ?thesis by simp
    next
      case True
      let ?acc = "acc @ [(otd_operation opdef, dict_get tm (otd_type opdef))]"
      have "\<not> (distinct (map fst ?acc @ map otd_operation ops)
              \<and> list_all (\<lambda>opdef. dict_contains tm (otd_type opdef)) ops)"
        using Cons.prems(1) fresh True by (auto simp: dict_contains_iff)
      moreover have "distinct (map fst ?acc)"
        using Cons.prems(2) fresh by (simp add: dict_contains_iff)
      ultimately have "\<exists>msg. operation_types_loop ?acc tm ops = Inl (SDLError msg)"
        by (rule Cons.IH)
      then show ?thesis using fresh True by (simp add: dict_set_fresh[OF fresh])
    qed
  qed
qed

text \<open>
  C4. Without a schema definition the operation types are looked up in the type map
  under \<^verbatim>\<open>Query\<close>, \<^verbatim>\<open>Mutation\<close> and \<^verbatim>\<open>Subscription\<close>, an absent one being \<^verbatim>\<open>None\<close>.
  With a schema definition, an operation declared twice or a type name that is not in
  the type map raises \<^verbatim>\<open>SDLError\<close>, and otherwise every declared operation maps to the
  type of that name.
\<close>

theorem operation_types_by_name_or_declaration:
  "(\<exists>d. operation_types None tm = Inr d
        \<and> get_operation_type d ''query'' = dict_get tm ''Query''
        \<and> get_operation_type d ''mutation'' = dict_get tm ''Mutation''
        \<and> get_operation_type d ''subscription'' = dict_get tm ''Subscription'')
   \<and> (if declared_once_and_known tm (sd_operation_types sd)
      then operation_types (Some sd) tm =
             Inr (map (\<lambda>opdef. (otd_operation opdef, dict_get tm (otd_type opdef)))
                    (sd_operation_types sd))
      else \<exists>msg. operation_types (Some sd) tm = Inl (SDLError msg))"
proof
  show "\<exists>d. operation_types None tm = Inr d
        \<and> get_operation_type d ''query'' = dict_get tm ''Query''
        \<and> get_operation_type d ''mutation'' = dict_get tm ''Mutation''
        \<and> get_operation_type d ''subscription'' = dict_get tm ''Subscription''"
    by (simp add: operation_types_def get_operation_type_def dict_get_def capitalize_def
        upper_def lower_def)
next
  show "if declared_once_and_known tm (sd_operation_types sd)
      then operation_types (Some sd) tm =
             Inr (map (\<lambda>opdef. (otd_operation opdef, dict_get tm (otd_type opdef)))
                    (sd_operation_types sd))
      else \<exists>msg. operation_types (Some sd) tm = Inl (SDLError msg)"
  proof (cases "declared_once_and_known tm (sd_operation_types sd)")
    case True
    then have "operation_types_loop [] tm (sd_operation_types sd) =
       Inr ([] @ map (\<lambda>opdef. (otd_operation opdef, dict_get tm (otd_type opdef)))
                   (sd_operation_types sd))"
      by (intro operation_types_loop_ok) (simp_all add: declared_once_and_known_def)
    then show ?thesis using True by (simp add: operation_types_def)
  next
    case False
    then have "\<exists>msg. operation_types_loop [] tm (sd_operation_types sd) = Inl (SDLError msg)"
      by (intro operation_types_loop_fails) (simp_all add: declared_once_and_known_def)
    then show ?thesis using False by (simp add: operation_types_def)
  qed
qed

section \<open>The type map builder\<close>

lemmas build_defs = build_named_type_def schema_from_ast_def extract_type_pass_def
  init_cache_def call_builder_def build_types_def build_type_definition_def enum_type_def
  scalar_type_def bind_def ret_def raise_def lift_def enum_value_of_def dict_get_def dict_set_def
  dict_contains_def build_directives_def operation_types_def get_operation_type_def
  capitalize_def upper_def lower_def object_type_def object_field_def

text \<open>
  C1. An enum type accepts exactly the \<^verbatim>\<open>EnumTypeExtension\<close> nodes among its extensions
  and appends their values. The code does not: for the document
  \<^verbatim>\<open>enum E { A } extend enum E { B }\<close> the builder raises
  \<^verbatim>\<open>SDLError("Expected an UnionTypeExtension node for UnionType E")\<close>.
\<close>

theorem enum_type_rejects_enum_extension:
  "schema_from_ast 1 (\<lambda>(v::unit) t. Inr ()) (\<lambda>d. Inr None) [] None
     [TypeDefinition (EnumTypeDefinition None ''E'' ()
        [\<lparr>evd_description = None, evd_name = ''A'', evd_directives = ()\<rparr>]),
      TypeExtension (EnumTypeExtension ''E'' ()
        [\<lparr>evd_description = None, evd_name = ''B'', evd_directives = ()\<rparr>])]
   = (Inl (SDLError ''Expected an UnionTypeExtension node for UnionType E'')
        :: exn + unit schema_arguments)"
  by (simp add: build_defs)

lemma build_named_type_same:
  assumes "same_inputs self other"
  shows "build_named_type other = build_named_type self"
  using assms
  by (intro ext) (simp add: build_named_type_def same_inputs_def Let_def split: option.splits)

lemma build_type_same:
  assumes "same_inputs self other"
  shows "build_type other node = build_type self node"
  by (induction node) (simp_all add: build_named_type_same[OF assms])

lemma argument_same:
  assumes "same_inputs self other"
  shows "argument other = argument self"
  using assms
  by (intro ext)
     (simp add: argument_def build_type_same[OF assms] same_inputs_def cong: option.case_cong)

lemma input_field_same:
  assumes "same_inputs self other"
  shows "input_field other = input_field self"
  using assms
  by (intro ext)
     (simp add: input_field_def build_type_same[OF assms] same_inputs_def cong: option.case_cong)

lemma object_field_same:
  assumes "same_inputs self other"
  shows "object_field other = object_field self"
  using assms
  by (intro ext)
     (simp add: object_field_def build_type_same[OF assms] argument_same[OF assms] same_inputs_def
        cong: if_cong)

lemma enum_value_of_same:
  assumes "same_inputs self other"
  shows "enum_value_of other = enum_value_of self"
  using assms by (intro ext) (simp add: enum_value_of_def same_inputs_def)

lemma object_type_extensions_same:
  assumes "same_inputs self other"
  shows "object_type_extensions other name descr flds ifaces exts
         = object_type_extensions self name descr flds ifaces exts"
proof (induction exts arbitrary: flds ifaces)
  case Nil
  show ?case by simp
next
  case (Cons ext exts)
  show ?case
    by (cases ext)
       (simp_all add: object_field_same[OF assms] build_named_type_same[OF assms] Cons.IH
          cong: if_cong)
qed

lemma interface_type_extensions_same:
  assumes "same_inputs self other"
  shows "interface_type_extensions other name descr flds exts
         = interface_type_extensions self name descr flds exts"
proof (induction exts arbitrary: flds)
  case Nil
  show ?case by simp
next
  case (Cons ext exts)
  show ?case by (cases ext) (simp_all add: object_field_same[OF assms] Cons.IH)
qed

lemma union_type_extensions_same:
  assumes "same_inputs self other"
  shows "union_type_extensions other name descr types exts
         = union_type_extensions self name descr types exts"
proof (induction exts arbitrary: types)
  case Nil
  show ?case by simp
next
  case (Cons ext exts)
  show ?case by (cases ext) (simp_all add: build_named_type_same[OF assms] Cons.IH)
qed

lemma enum_type_extensions_same:
  "enum_type_extensions other name vals exts = enum_type_extensions self name vals exts"
proof (cases exts)
  case Nil
  then show ?thesis by simp
next
  case (Cons ext rest)
  then show ?thesis by (cases ext) simp_all
qed

lemma type_from_definition_same:
  assumes s: "same_inputs self other"
    and e: "reads_extensions d \<Longrightarrow>
           extension_nodes other (type_definition_name d)
           = extension_nodes self (type_definition_name d)"
  shows "type_from_definition other d = type_from_definition self d"
proof (cases d)
  case (ScalarTypeDefinition descr name dirs)
  then show ?thesis by simp
next
  case (ObjectTypeDefinition descr name interfaces dirs flds)
  with e have "extension_nodes other name = extension_nodes self name" by simp
  then show ?thesis using ObjectTypeDefinition
    by (simp add: object_type_def object_field_same[OF s] build_named_type_same[OF s]
        object_type_extensions_same[OF s] cong: if_cong)
next
  case (InterfaceTypeDefinition descr name dirs flds)
  with e have "extension_nodes other name = extension_nodes self name" by simp
  then show ?thesis using InterfaceTypeDefinition
    by (simp add: interface_type_def object_field_same[OF s] interface_type_extensions_same[OF s])
next
  case (UnionTypeDefinition descr name dirs types)
  with e have "extension_nodes other name = extension_nodes self name" by simp
  then show ?thesis using UnionTypeDefinition
    by (simp add: union_type_def build_named_type_same[OF s] union_type_extensions_same[OF s])
next
  case (EnumTypeDefinition descr name dirs vals)
  with e have "extension_nodes other name = extension_nodes self name" by simp
  then show ?thesis using EnumTypeDefinition
    by (simp add: enum_type_def enum_value_of_same[OF s]
        enum_type_extensions_same[of other _ _ _ self])
next
  case (InputObjectTypeDefinition descr name dirs flds)
  then show ?thesis by (simp add: input_object_type_def input_field_same[OF s])
qed

lemma build_type_definition_same:
  assumes "same_inputs self other"
    and "reads_extensions d \<Longrightarrow>
           extension_nodes other (type_definition_name d)
           = extension_nodes self (type_definition_name d)"
  shows "build_type_definition other d = build_type_definition self d"
  by (simp only: build_type_definition_def type_from_definition_same[OF assms])

lemma with_recursion_limit_same:
  "same_inputs self (with_recursion_limit n self)"
  "extension_nodes (with_recursion_limit n self) = extension_nodes self"
  by (cases n; simp add: same_inputs_def)+

lemma same_inputs_trans:
  "same_inputs a b \<Longrightarrow> same_inputs b c \<Longrightarrow> same_inputs a c"
  by (simp add: same_inputs_def)

lemma same_inputs_sym: "same_inputs a b \<Longrightarrow> same_inputs b a"
  by (simp add: same_inputs_def)

lemma for_each_cong:
  "(\<And>x. x \<in> set xs \<Longrightarrow> f x = g x) \<Longrightarrow> for_each f xs = for_each g xs"
  by (induction xs) simp_all

lemma call_builder_same:
  assumes "same_inputs self other"
    and "\<And>d. d \<in> set (map snd (type_nodes self)) \<Longrightarrow> reads_extensions d \<Longrightarrow>
           extension_nodes other (type_definition_name d)
           = extension_nodes self (type_definition_name d)"
  shows "call_builder other = call_builder self"
proof -
  have tn: "type_nodes other = type_nodes self" using assms(1) by (simp add: same_inputs_def)
  have "for_each (build_type_definition other) (map snd (type_nodes self))
        = for_each (build_type_definition self) (map snd (type_nodes self))"
    by (rule for_each_cong) (rule build_type_definition_same[OF assms(1)], rule assms(2))
  then show ?thesis by (simp add: call_builder_def build_types_def tn)
qed

lemma build_directives_same:
  assumes "same_inputs self other"
  shows "build_directives other = build_directives self"
  by (intro ext)
     (simp add: build_directives_def build_directive_def argument_same[OF assms] cong: if_cong)

lemma extract_type_loop_append:
  "extract_type_loop acc (xs @ ys) =
     (case extract_type_loop acc xs of Inl e \<Rightarrow> Inl e | Inr acc' \<Rightarrow> extract_type_loop acc' ys)"
  by (induction acc xs rule: extract_type_loop.induct) simp_all

lemma extract_type_loop_extensions:
  "extract_type_loop (acc\<lparr>ex_extensions := X\<rparr>) ds =
     (case extract_type_loop acc ds of
        Inl e \<Rightarrow> Inl e
      | Inr r \<Rightarrow> Inr (r\<lparr>ex_extensions :=
                   (\<lambda>name. X name @ filter (\<lambda>e. type_extension_name e = name)
                                      (type_extensions_of ds))\<rparr>))"
proof (induction ds arbitrary: acc X)
  case Nil
  show ?case by simp
next
  case (Cons d ds)
  show ?case
  proof (cases d)
    case (SchemaDefinition s)
    let ?acc = "acc\<lparr>ex_schema_definition := Some s\<rparr>"
    have comm: "acc\<lparr>ex_extensions := X, ex_schema_definition := Some s\<rparr> = ?acc\<lparr>ex_extensions := X\<rparr>"
      by simp
    have te: "type_extensions_of (d # ds) = type_extensions_of ds"
      using SchemaDefinition by simp
    have l: "extract_type_loop (acc\<lparr>ex_extensions := X\<rparr>) (d # ds) =
       (if ex_schema_definition acc \<noteq> None
        then Inl (SDLError ''Must provide only one schema definition'')
        else extract_type_loop (?acc\<lparr>ex_extensions := X\<rparr>) ds)"
      using SchemaDefinition by (simp add: comm)
    have r: "extract_type_loop acc (d # ds) =
       (if ex_schema_definition acc \<noteq> None
        then Inl (SDLError ''Must provide only one schema definition'')
        else extract_type_loop ?acc ds)"
      using SchemaDefinition by simp
    show ?thesis unfolding l r te Cons.IH[where acc="?acc" and X=X]
      by (simp only: sum.case if_distrib[where f="case_sum _ _"] cong: if_cong)
  next
    case (TypeDefinition t)
    let ?acc = "acc\<lparr>ex_types := dict_set (ex_types acc) (type_definition_name t) t\<rparr>"
    have comm: "acc\<lparr>ex_extensions := X, ex_types := dict_set (ex_types acc) (type_definition_name t) t\<rparr> = ?acc\<lparr>ex_extensions := X\<rparr>"
      by simp
    have te: "type_extensions_of (d # ds) = type_extensions_of ds"
      using TypeDefinition by simp
    have l: "extract_type_loop (acc\<lparr>ex_extensions := X\<rparr>) (d # ds) =
       (if dict_contains (ex_types acc) (type_definition_name t)
        then Inl (SDLError (''Duplicate type '' @ type_definition_name t))
        else extract_type_loop (?acc\<lparr>ex_extensions := X\<rparr>) ds)"
      using TypeDefinition by (simp add: comm)
    have r: "extract_type_loop acc (d # ds) =
       (if dict_contains (ex_types acc) (type_definition_name t)
        then Inl (SDLError (''Duplicate type '' @ type_definition_name t))
        else extract_type_loop ?acc ds)"
      using TypeDefinition by simp
    show ?thesis unfolding l r te Cons.IH[where acc="?acc" and X=X]
      by (simp only: sum.case if_distrib[where f="case_sum _ _"] cong: if_cong)
  next
    case (TypeExtension e)
    let ?n = "type_extension_name e"
    have a: "extract_type_loop (acc\<lparr>ex_extensions := X\<rparr>) (d # ds)
          = extract_type_loop (acc\<lparr>ex_extensions := X(?n := X ?n @ [e])\<rparr>) ds"
      using TypeExtension by simp
    have b: "extract_type_loop acc (d # ds)
          = extract_type_loop (acc\<lparr>ex_extensions := (ex_extensions acc)
                                  (?n := ex_extensions acc ?n @ [e])\<rparr>) ds"
      using TypeExtension by simp
    have c: "(\<lambda>name. (X(?n := X ?n @ [e])) name
                     @ filter (\<lambda>e. type_extension_name e = name) (type_extensions_of ds))
           = (\<lambda>name. X name @ filter (\<lambda>e. type_extension_name e = name)
                                      (type_extensions_of (d # ds)))"
      using TypeExtension by (intro ext) simp
    show ?thesis
      unfolding a b Cons.IH[where acc=acc and X="X(?n := X ?n @ [e])"]
        Cons.IH[where acc=acc and X="(ex_extensions acc)(?n := ex_extensions acc ?n @ [e])"] c
      by (cases "extract_type_loop acc ds") simp_all
  next
    case (DirectiveDefinition dd)
    let ?acc = "acc\<lparr>ex_directives := dict_set (ex_directives acc) (dd_name dd) dd\<rparr>"
    have comm: "acc\<lparr>ex_extensions := X, ex_directives := dict_set (ex_directives acc) (dd_name dd) dd\<rparr> = ?acc\<lparr>ex_extensions := X\<rparr>"
      by simp
    have te: "type_extensions_of (d # ds) = type_extensions_of ds"
      using DirectiveDefinition by simp
    have l: "extract_type_loop (acc\<lparr>ex_extensions := X\<rparr>) (d # ds) =
       (if dict_contains (ex_directives acc) (dd_name dd)
        then Inl (SDLError (''Duplicate directive @'' @ dd_name dd))
        else extract_type_loop (?acc\<lparr>ex_extensions := X\<rparr>) ds)"
      using DirectiveDefinition by (simp add: comm)
    have r: "extract_type_loop acc (d # ds) =
       (if dict_contains (ex_directives acc) (dd_name dd)
        then Inl (SDLError (''Duplicate directive @'' @ dd_name dd))
        else extract_type_loop ?acc ds)"
      using DirectiveDefinition by simp
    show ?thesis unfolding l r te Cons.IH[where acc="?acc" and X=X]
      by (simp only: sum.case if_distrib[where f="case_sum _ _"] cong: if_cong)
  next
    case OtherDefinition
    have te: "type_extensions_of (d # ds) = type_extensions_of ds"
      using OtherDefinition by simp
    have l: "extract_type_loop (acc\<lparr>ex_extensions := X\<rparr>) (d # ds) =
             extract_type_loop (acc\<lparr>ex_extensions := X\<rparr>) ds"
      using OtherDefinition by simp
    have r: "extract_type_loop acc (d # ds) = extract_type_loop acc ds"
      using OtherDefinition by simp
    show ?thesis unfolding l r te by (rule Cons.IH)
  qed
qed



lemma schema_definitions_of_append:
  "schema_definitions_of (xs @ ys) = schema_definitions_of xs @ schema_definitions_of ys"
  by (induction xs rule: schema_definitions_of.induct) simp_all

lemma type_definitions_of_append:
  "type_definitions_of (xs @ ys) = type_definitions_of xs @ type_definitions_of ys"
  by (induction xs rule: type_definitions_of.induct) simp_all

lemma directive_definitions_of_append:
  "directive_definitions_of (xs @ ys) = directive_definitions_of xs @ directive_definitions_of ys"
  by (induction xs rule: directive_definitions_of.induct) simp_all

lemma type_extensions_of_append:
  "type_extensions_of (xs @ ys) = type_extensions_of xs @ type_extensions_of ys"
  by (induction xs rule: type_extensions_of.induct) simp_all

lemma extract_type_pass_with_extension:
  "extract_type_pass (defs1 @ TypeExtension e # defs2) =
     (case extract_type_pass (defs1 @ defs2) of
        Inl x \<Rightarrow> Inl x
      | Inr r \<Rightarrow> Inr (partitioned (defs1 @ TypeExtension e # defs2)))"
proof (cases "no_duplicates (defs1 @ defs2)")
  case True
  then have "no_duplicates (defs1 @ TypeExtension e # defs2)"
    by (simp add: no_duplicates_def schema_definitions_of_append type_definitions_of_append
        directive_definitions_of_append)
  then have "extract_type_pass (defs1 @ TypeExtension e # defs2)
             = Inr (partitioned (defs1 @ TypeExtension e # defs2))"
    using extract_type_partitions[of "defs1 @ TypeExtension e # defs2"] by simp
  moreover have "extract_type_pass (defs1 @ defs2) = Inr (partitioned (defs1 @ defs2))"
    using extract_type_partitions[of "defs1 @ defs2"] True by simp
  ultimately show ?thesis by simp
next
  case False
  then obtain msg where f: "extract_type_pass (defs1 @ defs2) = Inl (SDLError msg)"
    using extract_type_partitions[of "defs1 @ defs2"] by auto
  let ?acc0 = "\<lparr>ex_schema_definition = None, ex_types = [], ex_extensions = (\<lambda>name. []),
        ex_directives = []\<rparr> :: ('a, 'b) extracted"
  have "extract_type_pass (defs1 @ TypeExtension e # defs2) = Inl (SDLError msg)"
  proof (cases "extract_type_loop ?acc0 defs1")
    case (Inl x)
    with f show ?thesis by (simp add: extract_type_pass_def extract_type_loop_append)
  next
    case (Inr a)
    with f have g: "extract_type_loop a defs2 = Inl (SDLError msg)"
      by (simp add: extract_type_pass_def extract_type_loop_append)
    have "extract_type_loop a (TypeExtension e # defs2) = Inl (SDLError msg)"
      by (simp add: extract_type_loop_extensions g)
    with Inr show ?thesis by (simp add: extract_type_pass_def extract_type_loop_append)
  qed
  with f show ?thesis by simp
qed

text \<open>
  C6. A \<^verbatim>\<open>ScalarTypeExtension\<close> is silently ignored: a document with a scalar-type
  extension, anywhere in it, builds what the document without the extension builds (the
  same types, directives and operation types, or the same exception), provided that no
  object, interface, union or enum type of the document has the extension's name (the
  builders of these four kinds read the extensions of their name; those of scalar and
  input-object types do not).
\<close>

theorem scalar_type_extension_ignored:
  assumes "list_all (\<lambda>t. \<not> (type_definition_name t = name \<and> reads_extensions t))
             (type_definitions_of (defs1 @ defs2))"
  shows "schema_from_ast limit tv dr specified known
           (defs1 @ TypeExtension (ScalarTypeExtension name dirs) # defs2)
         = schema_from_ast limit tv dr specified known (defs1 @ defs2)"
proof (cases "extract_type_pass (defs1 @ defs2)")
  case (Inl x)
  then show ?thesis
    by (simp add: schema_from_ast_def extract_type_pass_with_extension)
next
  case (Inr r)
  let ?e = "TypeExtension (ScalarTypeExtension name dirs) :: ('a, 'b) sdl_definition"
  let ?r' = "partitioned (defs1 @ ?e # defs2)"
  have r: "r = partitioned (defs1 @ defs2)"
    using extract_type_partitions[of "defs1 @ defs2"] Inr by (simp split: if_splits)
  have ex': "extract_type_pass (defs1 @ ?e # defs2) = Inr ?r'"
    using Inr by (simp add: extract_type_pass_with_extension)
  have same: "ex_types ?r' = ex_types r" "ex_directives ?r' = ex_directives r"
    "ex_schema_definition ?r' = ex_schema_definition r"
    by (simp_all add: r partitioned_def schema_definitions_of_append type_definitions_of_append
        directive_definitions_of_append)
  have exts: "ex_extensions ?r' m = ex_extensions r m" if "m \<noteq> name" for m
    using that by (simp add: r partitioned_def type_extensions_of_append)
  let ?b = "\<lambda>X. \<lparr>type_nodes = ex_types r, extension_nodes = X,
                   typed_value_from_ast = tv, deprecation_reason = dr,
                   build_type_definition_rec =
                     (\<lambda>type_node. raise (RuntimeError ''RecursionError''))\<rparr>"
  let ?self = "with_recursion_limit limit (?b (ex_extensions r))"
  let ?other = "with_recursion_limit limit (?b (ex_extensions ?r'))"
  have s0: "same_inputs (?b (ex_extensions r)) (?b (ex_extensions ?r'))"
    by (simp add: same_inputs_def)
  have s: "same_inputs ?self ?other"
    by (rule same_inputs_trans[OF same_inputs_sym[OF with_recursion_limit_same(1)]
          same_inputs_trans[OF s0 with_recursion_limit_same(1)]])
  have tn: "type_nodes ?self = ex_types r"
    using with_recursion_limit_same(1)[of "?b (ex_extensions r)" limit]
    by (simp add: same_inputs_def)
  have cb: "call_builder ?other = call_builder ?self"
  proof (rule call_builder_same[OF s])
    fix d assume d: "d \<in> set (map snd (type_nodes ?self))" and rd: "reads_extensions d"
    from d have "d \<in> set (type_definitions_of (defs1 @ defs2))"
      unfolding tn by (simp add: r partitioned_def image_iff)
    with assms rd have "type_definition_name d \<noteq> name"
      by (auto simp: list_all_iff)
    then show "extension_nodes ?other (type_definition_name d)
               = extension_nodes ?self (type_definition_name d)"
      by (simp add: with_recursion_limit_same(2) exts)
  qed
  have bd: "build_directives ?other = build_directives ?self"
    by (rule build_directives_same[OF s])
  show ?thesis
    unfolding schema_from_ast_def ex' Inr sum.case Let_def same cb bd ..
qed


theorem scalar_type_extension_ignored_witness:
  "schema_from_ast 1 (\<lambda>(v::unit) t. Inr ()) (\<lambda>d. Inr None) [] None
     ([TypeDefinition (ScalarTypeDefinition None ''Date'' ())]
      @ TypeExtension (ScalarTypeExtension ''Date'' ())
      # [TypeDefinition (ObjectTypeDefinition None ''Query'' [] ()
          [\<lparr>fd_description = None, fd_name = ''today'', fd_arguments = [],
            fd_type = NamedType ''Date'', fd_directives = ()\<rparr>])])
   = schema_from_ast 1 (\<lambda>(v::unit) t. Inr ()) (\<lambda>d. Inr None) [] None
     ([TypeDefinition (ScalarTypeDefinition None ''Date'' ())]
      @ [TypeDefinition (ObjectTypeDefinition None ''Query'' [] ()
          [\<lparr>fd_description = None, fd_name = ''today'', fd_arguments = [],
            fd_type = NamedType ''Date'', fd_directives = ()\<rparr>])])
   \<and> schema_from_ast 1 (\<lambda>(v::unit) t. Inr ()) (\<lambda>d. Inr None) [] None
     ([TypeDefinition (ScalarTypeDefinition None ''Date'' ())]
      @ [TypeDefinition (ObjectTypeDefinition None ''Query'' [] ()
          [\<lparr>fd_description = None, fd_name = ''today'', fd_arguments = [],
            fd_type = NamedType ''Date'', fd_directives = ()\<rparr>])])
   = Inr \<lparr>sa_query_type = Some (ObjectType ''Query'' None
              [Field ''today'' (DefaultCustomScalar ''Date'' None) None None None] []),
          sa_mutation_type = None, sa_subscription_type = None,
          sa_types = [DefaultCustomScalar ''Date'' None,
                      ObjectType ''Query'' None
                        [Field ''today'' (DefaultCustomScalar ''Date'' None) None None None] []],
          sa_directives = ([] :: unit schema_directive list)\<rparr>"
proof
  have "list_all (\<lambda>t. \<not> (type_definition_name t = ''Date'' \<and> reads_extensions t))
          (type_definitions_of
            ([TypeDefinition (ScalarTypeDefinition None ''Date'' ())]
             @ [TypeDefinition (ObjectTypeDefinition None ''Query'' [] ()
                 [\<lparr>fd_description = None, fd_name = ''today'', fd_arguments = [],
                   fd_type = NamedType ''Date'', fd_directives = ()\<rparr>]) :: (unit, unit) sdl_definition]))"
    by simp
  then show "schema_from_ast 1 (\<lambda>(v::unit) t. Inr ()) (\<lambda>d. Inr None) [] None
     ([TypeDefinition (ScalarTypeDefinition None ''Date'' ())]
      @ TypeExtension (ScalarTypeExtension ''Date'' ())
      # [TypeDefinition (ObjectTypeDefinition None ''Query'' [] ()
          [\<lparr>fd_description = None, fd_name = ''today'', fd_arguments = [],
            fd_type = NamedType ''Date'', fd_directives = ()\<rparr>])])
   = (schema_from_ast 1 (\<lambda>(v::unit) t. Inr ()) (\<lambda>d. Inr None) [] None
     ([TypeDefinition (ScalarTypeDefinition None ''Date'' ())]
      @ [TypeDefinition (ObjectTypeDefinition None ''Query'' [] ()
          [\<lparr>fd_description = None, fd_name = ''today'', fd_arguments = [],
            fd_type = NamedType ''Date'', fd_directives = ()\<rparr>])])
        :: exn + unit schema_arguments)"
    by (rule scalar_type_extension_ignored)
next
  show "schema_from_ast 1 (\<lambda>(v::unit) t. Inr ()) (\<lambda>d. Inr None) [] None
     ([TypeDefinition (ScalarTypeDefinition None ''Date'' ())]
      @ [TypeDefinition (ObjectTypeDefinition None ''Query'' [] ()
          [\<lparr>fd_description = None, fd_name = ''today'', fd_arguments = [],
            fd_type = NamedType ''Date'', fd_directives = ()\<rparr>])])
   = Inr \<lparr>sa_query_type = Some (ObjectType ''Query'' None
              [Field ''today'' (DefaultCustomScalar ''Date'' None) None None None] []),
          sa_mutation_type = None, sa_subscription_type = None,
          sa_types = [DefaultCustomScalar ''Date'' None,
                      ObjectType ''Query'' None
                        [Field ''today'' (DefaultCustomScalar ''Date'' None) None None None] []],
          sa_directives = ([] :: unit schema_directive list)\<rparr>"
    by (simp add: build_defs)
qed

section \<open>AST nodes as objects\<close>

lemma class_slots_ok:
  "list_all (\<lambda>(cls, slots). distinct slots \<and> ''__kind__'' \<notin> set slots) class_slots"
  by (simp add: class_slots_def)

lemma slots_of_ok: "distinct (slots_of cls) \<and> ''__kind__'' \<notin> set (slots_of cls)"
proof (cases "map_of class_slots cls")
  case None
  then show ?thesis by (simp add: slots_of_def)
next
  case (Some sl)
  then have "(cls, sl) \<in> set class_slots" by (rule map_of_SomeD)
  with class_slots_ok have "distinct sl \<and> ''__kind__'' \<notin> set sl"
    by (auto simp: list_all_iff)
  with Some show ?thesis by (simp add: slots_of_def)
qed

lemma props_ok:
  "distinct (props cls)" "''__kind__'' \<notin> set (props cls)" "''source'' \<notin> set (props cls)"
  using slots_of_ok[of cls] by (simp_all add: props_def)

lemma dict_set_new: "k \<notin> fst ` set d \<Longrightarrow> dict_set d k v = d @ [(k, v)]"
  by (induction d) (auto simp: dict_set_def)

lemma attrs_to_dict_entries:
  assumes "distinct as" and "set as \<inter> fst ` set d = {}"
    and "attrs_to_dict attrs as d = Inr r"
  shows "\<exists>es. r = d @ es
           \<and> list_all2 (\<lambda>(k, j) a. k = a \<and> (\<exists>v. getattr attrs a = Inr v \<and> node_to_dict v = Inr j))
                es as"
  using assms
proof (induction as arbitrary: d)
  case Nil
  then show ?case by simp
next
  case (Cons a as)
  from Cons.prems(3) obtain v j where v: "getattr attrs a = Inr v" and j: "node_to_dict v = Inr j"
    and rest: "attrs_to_dict attrs as (dict_set d a j) = Inr r"
    by (auto split: sum.splits)
  from Cons.prems(2) have fresh: "a \<notin> fst ` set d" by auto
  have ds: "dict_set d a j = d @ [(a, j)]" by (rule dict_set_new[OF fresh])
  have "distinct as" using Cons.prems(1) by simp
  moreover have "set as \<inter> fst ` set (d @ [(a, j)]) = {}"
    using Cons.prems(1,2) by auto
  moreover have "attrs_to_dict attrs as (d @ [(a, j)]) = Inr r" using rest ds by simp
  ultimately obtain es where es: "r = (d @ [(a, j)]) @ es"
    and rel: "list_all2 (\<lambda>(k, j) a. k = a \<and> (\<exists>v. getattr attrs a = Inr v \<and> node_to_dict v = Inr j))
                es as"
    using Cons.IH[of "d @ [(a, j)]"] by blast
  have "r = d @ ((a, j) # es)" using es by simp
  moreover have "list_all2 (\<lambda>(k, j) a. k = a \<and> (\<exists>v. getattr attrs a = Inr v \<and> node_to_dict v = Inr j))
                ((a, j) # es) (a # as)"
    using rel v j by simp
  ultimately show ?case by blast
qed

lemma getattr_well_formed:
  "list_all (\<lambda>(attr, v). well_formed v) attrs \<Longrightarrow> getattr attrs a = Inr v \<Longrightarrow> well_formed v"
  by (induction attrs) (auto simp: getattr_def split: if_splits)

lemma getattr_present:
  "map_of attrs a \<noteq> None \<Longrightarrow> \<exists>v. getattr attrs a = Inr v"
  by (auto simp: getattr_def)

lemma node_to_dict_total:
  "well_formed v \<Longrightarrow> \<exists>j. node_to_dict v = Inr j"
  "list_all well_formed vs \<Longrightarrow> \<exists>js. list_to_dict vs = Inr js"
  "list_all (\<lambda>attr. map_of attrs attr \<noteq> None) as \<Longrightarrow>
   list_all (\<lambda>(attr, v). well_formed v) attrs \<Longrightarrow> \<exists>r. attrs_to_dict attrs as d = Inr r"
proof (induction v and vs and attrs as d rule: node_to_dict_list_to_dict_attrs_to_dict.induct)
  case (1 cls attrs)
  then obtain r where "attrs_to_dict attrs (props cls) [] = Inr r" by auto
  then show ?case by simp
next
  case (2 vs)
  then obtain js where "list_to_dict vs = Inr js" by auto
  then show ?case by simp
next
  case (3 p)
  show ?case by simp
next
  case 4
  show ?case by simp
next
  case (5 v vs)
  from 5 obtain j where j: "node_to_dict v = Inr j" by auto
  from 5 j obtain js where "list_to_dict vs = Inr js" by auto
  with j show ?case by simp
next
  case (6 attrs d)
  show ?case by simp
next
  case (7 attrs a as d)
  from "7.prems"(1) obtain v where v: "getattr attrs a = Inr v"
    using getattr_present[of attrs a] by auto
  have "well_formed v" by (rule getattr_well_formed[OF "7.prems"(2) v])
  with "7.IH"(1)[OF v] obtain j where j: "node_to_dict v = Inr j" by auto
  from "7.prems" have "list_all (\<lambda>attr. map_of attrs attr \<noteq> None) as" by simp
  with "7.IH"(2)[OF v j] "7.prems"(2)
  obtain r where "attrs_to_dict attrs as (dict_set d a j) = Inr r" by auto
  with v j show ?case by simp
qed


lemma getattr_erase_source:
  "a \<noteq> ''source'' \<Longrightarrow>
   getattr (map (\<lambda>(attr, v). (attr, erase_source v))
              (filter (\<lambda>(attr, v). attr \<noteq> ''source'') attrs)) a
   = (case getattr attrs a of Inl e \<Rightarrow> Inl e | Inr v \<Rightarrow> Inr (erase_source v))"
  by (induction attrs) (auto simp: getattr_def)

lemma node_to_dict_erase_source:
  "node_to_dict (erase_source v) = node_to_dict v"
  "list_to_dict (map erase_source vs) = list_to_dict vs"
  "''source'' \<notin> set as \<Longrightarrow>
   attrs_to_dict (map (\<lambda>(attr, v). (attr, erase_source v))
                    (filter (\<lambda>(attr, v). attr \<noteq> ''source'') attrs)) as d
   = attrs_to_dict attrs as d"
proof (induction v and vs and attrs as d rule: node_to_dict_list_to_dict_attrs_to_dict.induct)
  case (1 cls attrs)
  then show ?case by (simp add: props_ok)
next
  case (2 vs)
  then show ?case by simp
next
  case (3 p)
  show ?case by simp
next
  case 4
  show ?case by simp
next
  case (5 v vs)
  show ?case
  proof (cases "node_to_dict v")
    case (Inl e)
    with 5 show ?thesis by simp
  next
    case (Inr j)
    with 5 show ?thesis by simp
  qed
next
  case (6 attrs d)
  show ?case by simp
next
  case (7 attrs a as d)
  from "7.prems" have a: "a \<noteq> ''source''" and as: "''source'' \<notin> set as" by auto
  show ?case
  proof (cases "getattr attrs a")
    case (Inl e)
    then show ?thesis by (simp add: getattr_erase_source[OF a])
  next
    case (Inr v)
    note v = this
    show ?thesis
    proof (cases "node_to_dict v")
      case (Inl e)
      with v "7.IH"(1)[OF v] show ?thesis by (simp add: getattr_erase_source[OF a])
    next
      case (Inr j)
      with v "7.IH"(1)[OF v] "7.IH"(2)[OF v Inr as] show ?thesis
        by (simp add: getattr_erase_source[OF a])
    qed
  qed
qed

lemma prims_eq_refl: "(\<And>p. p \<in> set ps \<Longrightarrow> prim_eq p p) \<Longrightarrow> prims_eq ps ps"
  by (induction ps) simp_all

lemma prim_eq_refl: "prim_eq p p"
  by (induction p) (simp_all add: prims_eq_refl)

lemma equal_up_to_source:
  "well_formed x \<Longrightarrow> well_formed y \<Longrightarrow> erase_source x = erase_source y
     \<Longrightarrow> py_eq x y = Inr True"
  "list_all well_formed xs \<Longrightarrow> list_all well_formed ys
     \<Longrightarrow> map erase_source xs = map erase_source ys \<Longrightarrow> list_eq xs ys = Inr True"
  "list_all (\<lambda>(attr, v). well_formed v) attrs \<Longrightarrow> list_all (\<lambda>(attr, v). well_formed v) attrs'
     \<Longrightarrow> list_all (\<lambda>attr. map_of attrs attr \<noteq> None) as
     \<Longrightarrow> list_all (\<lambda>attr. map_of attrs' attr \<noteq> None) as
     \<Longrightarrow> ''source'' \<notin> set as
     \<Longrightarrow> map (\<lambda>(attr, v). (attr, erase_source v)) (filter (\<lambda>(attr, v). attr \<noteq> ''source'') attrs)
         = map (\<lambda>(attr, v). (attr, erase_source v)) (filter (\<lambda>(attr, v). attr \<noteq> ''source'') attrs')
     \<Longrightarrow> attrs_eq attrs attrs' as = Inr True"
proof (induction x y and xs ys and attrs attrs' as rule: py_eq_list_eq_attrs_eq.induct)
  case (1 p rhs)
  from "1.prems"(3) have "rhs = Prim p" by (cases rhs) simp_all
  then show ?case by (simp add: prim_eq_refl)
next
  case (2 xs rhs)
  from "2.prems"(3) obtain ys where rhs: "rhs = PyList ys"
    and m: "map erase_source xs = map erase_source ys" by (cases rhs) simp_all
  from m have len: "length xs = length ys" by (rule map_eq_imp_length_eq)
  have "list_eq xs ys = Inr True"
    using "2.IH"[OF rhs] len "2.prems"(1,2) rhs m by simp
  with rhs len show ?case by simp
next
  case (3 cls attrs rhs)
  from "3.prems"(3) obtain attrs' where rhs: "rhs = NodeObj cls attrs'"
    and m: "map (\<lambda>(attr, v). (attr, erase_source v)) (filter (\<lambda>(attr, v). attr \<noteq> ''source'') attrs)
         = map (\<lambda>(attr, v). (attr, erase_source v)) (filter (\<lambda>(attr, v). attr \<noteq> ''source'') attrs')"
    by (cases rhs) simp_all
  have "attrs_eq attrs attrs' (props cls) = Inr True"
    using "3.IH"[OF rhs] "3.prems"(1,2) rhs m by (simp add: props_ok)
  with rhs show ?case by simp
next
  case (4 ys)
  show ?case by simp
next
  case (5 x xs ys)
  from "5.prems"(3) obtain y ys' where ys: "ys = y # ys'" by (cases ys) auto
  from "5.prems" ys have e: "erase_source x = erase_source y"
    and m: "map erase_source xs = map erase_source ys'"
    and w: "well_formed x" "well_formed y" "list_all well_formed xs" "list_all well_formed ys'"
    by simp_all
  have h: "py_eq x y = Inr True" by (rule "5.IH"(1)[OF ys w(1) w(2) e])
  have "list_eq xs ys' = Inr True" by (rule "5.IH"(2)[OF ys h _ w(3) w(4) m]) simp
  with ys h show ?case by simp
next
  case (6 attrs attrs')
  show ?case by simp
next
  case (7 attrs attrs' a as)
  from "7.prems"(5) have a: "a \<noteq> ''source''" and as: "''source'' \<notin> set as" by auto
  from "7.prems"(3) obtain x where x: "getattr attrs a = Inr x"
    using getattr_present[of attrs a] by auto
  from "7.prems"(4) obtain y where y: "getattr attrs' a = Inr y"
    using getattr_present[of attrs' a] by auto
  have wx: "well_formed x" by (rule getattr_well_formed[OF "7.prems"(1) x])
  have wy: "well_formed y" by (rule getattr_well_formed[OF "7.prems"(2) y])
  have "getattr (map (\<lambda>(attr, v). (attr, erase_source v))
                  (filter (\<lambda>(attr, v). attr \<noteq> ''source'') attrs)) a
      = getattr (map (\<lambda>(attr, v). (attr, erase_source v))
                  (filter (\<lambda>(attr, v). attr \<noteq> ''source'') attrs')) a"
    by (simp only: "7.prems"(6))
  then have e: "erase_source x = erase_source y"
    using x y by (simp add: getattr_erase_source[OF a])
  have h: "py_eq x y = Inr True" by (rule "7.IH"(1)[OF x y wx wy e])
  have "attrs_eq attrs attrs' as = Inr True"
    using "7.IH"(2)[OF x y h _ "7.prems"(1,2) _ _ as "7.prems"(6)] "7.prems"(3,4) by simp
  with x y h show ?case by simp
qed

lemma attrs_eq_iff:
  "(attrs_eq attrs attrs' as = Inr True)
   = list_all (\<lambda>a. \<exists>x y. getattr attrs a = Inr x \<and> getattr attrs' a = Inr y
                          \<and> py_eq x y = Inr True) as"
  by (induction as) (auto split: sum.splits)

lemma erase_source_set_source:
  "filter (\<lambda>(attr, v). attr \<noteq> ''source'') (dict_set attrs ''source'' s)
   = filter (\<lambda>(attr, v). attr \<noteq> ''source'') attrs"
  by (induction attrs) (auto simp: dict_set_def)

lemma map_of_set_source:
  "a \<noteq> ''source'' \<Longrightarrow> map_of (dict_set attrs ''source'' s) a = map_of attrs a"
  by (simp add: dict_set_def update_conv')

lemma well_formed_set_source:
  assumes "well_formed (NodeObj cls attrs)"
  shows "well_formed (NodeObj cls (dict_set attrs ''source'' (Prim label)))"
proof -
  have "map_of (dict_set attrs ''source'' (Prim label)) attr \<noteq> None"
    if "attr \<in> set (props cls)" for attr
  proof -
    from that props_ok(3)[of cls] have "attr \<noteq> ''source''" by auto
    moreover from that assms have "map_of attrs attr \<noteq> None" by (auto simp: list_all_iff)
    ultimately show ?thesis by (simp add: map_of_set_source)
  qed
  then have "list_all (\<lambda>attr. map_of (dict_set attrs ''source'' (Prim label)) attr \<noteq> None)
               (props cls)"
    by (simp add: list_all_iff)
  moreover have "list_all (\<lambda>(attr, v). well_formed v) attrs
                 \<Longrightarrow> list_all (\<lambda>(attr, v). well_formed v) (dict_set attrs ''source'' (Prim label))"
    by (induction attrs) (auto simp: dict_set_def)
  then have "list_all (\<lambda>(attr, v). well_formed v) (dict_set attrs ''source'' (Prim label))"
    using assms by simp
  ultimately show ?thesis by simp
qed


lemma entries_keys:
  "list_all2 (\<lambda>(key, j) attr. key = attr \<and> Q attr j) es as \<Longrightarrow> map fst es = as"
  by (induction es as rule: list_all2_induct) auto

lemma list_to_dict_iff:
  "(list_to_dict vs = Inr js) = list_all2 (\<lambda>v j. node_to_dict v = Inr j) vs js"
proof (induction vs arbitrary: js)
  case Nil
  show ?case by auto
next
  case (Cons v vs)
  show ?case
  proof (cases js)
    case Nil
    then show ?thesis by (auto split: sum.splits)
  next
    case (Cons j js')
    with Cons.IH[of js'] show ?thesis by (auto split: sum.splits)
  qed
qed

lemma list_eq_iff:
  "length xs = length ys \<Longrightarrow>
   (list_eq xs ys = Inr True) = list_all2 (\<lambda>x y. py_eq x y = Inr True) xs ys"
proof (induction xs arbitrary: ys)
  case Nil
  then show ?case by simp
next
  case (Cons x xs)
  then obtain y ys' where ys: "ys = y # ys'" by (cases ys) auto
  with Cons.prems have "length xs = length ys'" by simp
  from Cons.IH[OF this] ys show ?case by (auto split: sum.splits)
qed

lemma py_eq_list_iff:
  "(py_eq (PyList xs) rhs = Inr True)
   = (\<exists>ys. rhs = PyList ys \<and> list_all2 (\<lambda>x y. py_eq x y = Inr True) xs ys)"
proof (cases rhs)
  case (PyList ys)
  show ?thesis
  proof (cases "length xs = length ys")
    case True
    with PyList list_eq_iff[OF True] show ?thesis by simp
  next
    case False
    with PyList show ?thesis by (auto dest: list_all2_lengthD)
  qed
qed simp_all

text \<open>
  C9. For every node (with every slot assigned), \<^verbatim>\<open>node_to_dict\<close> returns a dictionary
  with one entry for each slot other than \<^verbatim>\<open>source\<close>, in the order of \<^verbatim>\<open>__slots__\<close>,
  holding the converted attribute, followed by the entry \<^verbatim>\<open>__kind__\<close> with the class
  name. A list is converted element by element: the result is the list \<open>js\<close> exactly if
  \<open>js\<close> is as long as the list and each of its elements is the conversion of the element
  at the same position. A primitive is kept. A node equals a value exactly if the value
  is a node of the same class and the attributes of every slot other than
  \<^verbatim>\<open>source\<close> are equal, where a list equals the lists of the same length with equal
  elements at every position and a primitive equals the primitives that Python's
  \<^verbatim>\<open>==\<close> makes equal to it; so a node equals the node that differs from it in the
  \<^verbatim>\<open>source\<close> label only.
\<close>

theorem node_to_dict_and_equality:
  assumes "well_formed (NodeObj cls attrs)"
  shows "(\<exists>entries.
            node_to_dict (NodeObj cls attrs)
              = Inr (JDict (entries @ [(''__kind__'', JPrim (PStr cls))]))
            \<and> list_all2 (\<lambda>(key, j) attr. key = attr
                             \<and> (\<exists>v. getattr attrs attr = Inr v \<and> node_to_dict v = Inr j))
                 entries (props cls))
       \<and> (node_to_dict (PyList vs) = Inr (JList js))
           = list_all2 (\<lambda>v j. node_to_dict v = Inr j) vs js
       \<and> (\<exists>js'. node_to_dict (PyList vs) = Inr (JList js'))
           = list_all (\<lambda>v. \<exists>j. node_to_dict v = Inr j) vs
       \<and> node_to_dict (Prim p) = Inr (JPrim p)
       \<and> (py_eq (NodeObj cls attrs) rhs = Inr True)
           = (\<exists>attrs'. rhs = NodeObj cls attrs'
                \<and> list_all (\<lambda>attr. \<exists>x y. getattr attrs attr = Inr x \<and> getattr attrs' attr = Inr y
                                       \<and> py_eq x y = Inr True) (props cls))
       \<and> (py_eq (PyList xs) rhs = Inr True)
           = (\<exists>ys. rhs = PyList ys \<and> list_all2 (\<lambda>x y. py_eq x y = Inr True) xs ys)
       \<and> (py_eq (Prim p) rhs = Inr True) = (\<exists>q. rhs = Prim q \<and> prim_eq p q)
       \<and> py_eq (NodeObj cls attrs) (NodeObj cls (dict_set attrs ''source'' (Prim label))) = Inr True"
proof (intro conjI)
  from assms obtain r where r: "attrs_to_dict attrs (props cls) [] = Inr r"
    using node_to_dict_total(3)[of attrs "props cls" "[]"] by auto
  from attrs_to_dict_entries[OF props_ok(1) _ r]
  obtain es where es: "r = es"
    and rel: "list_all2 (\<lambda>(key, j) attr. key = attr
                             \<and> (\<exists>v. getattr attrs attr = Inr v \<and> node_to_dict v = Inr j))
                 es (props cls)"
    by auto
  from rel have keys: "map fst es = props cls"
    by (rule entries_keys)
  then have "''__kind__'' \<notin> fst ` set es" using props_ok(2)[of cls] by (metis set_map)
  then have "dict_set es ''__kind__'' (JPrim (PStr cls)) = es @ [(''__kind__'', JPrim (PStr cls))]"
    by (rule dict_set_new)
  with r es rel
  show "\<exists>entries.
            node_to_dict (NodeObj cls attrs)
              = Inr (JDict (entries @ [(''__kind__'', JPrim (PStr cls))]))
            \<and> list_all2 (\<lambda>(key, j) attr. key = attr
                             \<and> (\<exists>v. getattr attrs attr = Inr v \<and> node_to_dict v = Inr j))
                 entries (props cls)"
    by auto
next
  have "(node_to_dict (PyList vs) = Inr (JList js)) = (list_to_dict vs = Inr js)"
    by (auto split: sum.splits)
  then show "(node_to_dict (PyList vs) = Inr (JList js))
           = list_all2 (\<lambda>v j. node_to_dict v = Inr j) vs js"
    by (simp only: list_to_dict_iff)
next
  have "(\<exists>js'. node_to_dict (PyList vs) = Inr (JList js')) = (\<exists>js'. list_to_dict vs = Inr js')"
    by (auto split: sum.splits)
  also have "\<dots> = (\<exists>js'. list_all2 (\<lambda>v j. node_to_dict v = Inr j) vs js')"
    by (simp only: list_to_dict_iff)
  also have "\<dots> = list_all (\<lambda>v. \<exists>j. node_to_dict v = Inr j) vs"
  proof (induction vs)
    case Nil
    show ?case by simp
  next
    case (Cons v vs)
    then show ?case by (auto simp: list_all2_Cons1)
  qed
  finally show "(\<exists>js'. node_to_dict (PyList vs) = Inr (JList js'))
           = list_all (\<lambda>v. \<exists>j. node_to_dict v = Inr j) vs" .
next
  show "node_to_dict (Prim p) = Inr (JPrim p)" by simp
next
  show "(py_eq (NodeObj cls attrs) rhs = Inr True)
           = (\<exists>attrs'. rhs = NodeObj cls attrs'
                \<and> list_all (\<lambda>attr. \<exists>x y. getattr attrs attr = Inr x \<and> getattr attrs' attr = Inr y
                                       \<and> py_eq x y = Inr True) (props cls))"
    by (cases rhs) (auto simp: attrs_eq_iff)
next
  show "(py_eq (PyList xs) rhs = Inr True)
           = (\<exists>ys. rhs = PyList ys \<and> list_all2 (\<lambda>x y. py_eq x y = Inr True) xs ys)"
    by (rule py_eq_list_iff)
next
  show "(py_eq (Prim p) rhs = Inr True) = (\<exists>q. rhs = Prim q \<and> prim_eq p q)"
    by (cases rhs) simp_all
next
  have "erase_source (NodeObj cls attrs)
        = erase_source (NodeObj cls (dict_set attrs ''source'' (Prim label)))"
    by (simp add: erase_source_set_source)
  then show "py_eq (NodeObj cls attrs) (NodeObj cls (dict_set attrs ''source'' (Prim label)))
             = Inr True"
    by (rule equal_up_to_source(1)[OF assms well_formed_set_source[OF assms]])
qed

text \<open>
  The theorem at the argument \<^verbatim>\<open>id: [1, RED]\<close>, with a list of two values: its
  dictionary, the conversion of the list on its own, its equality with the same node
  under another \<^verbatim>\<open>source\<close> label, and the list against a shorter one.
\<close>

theorem node_to_dict_and_equality_witness:
  "let one = NodeObj ''IntValue'' [(''source'', Prim PNone), (''loc'', Prim PNone),
                                 (''value'', Prim (PStr ''1''))];
       two = NodeObj ''EnumValue'' [(''source'', Prim PNone), (''loc'', Prim PNone),
                                  (''value'', Prim (PStr ''RED''))];
       node = (\<lambda>label. NodeObj ''Argument''
                 [(''source'', Prim label), (''loc'', Prim (PTuple [PInt 2, PInt 7])),
                  (''name'', NodeObj ''Name'' [(''source'', Prim PNone), (''loc'', Prim PNone),
                                               (''value'', Prim (PStr ''id''))]),
                  (''value'', NodeObj ''ListValue''
                     [(''source'', Prim PNone), (''loc'', Prim PNone),
                      (''values'', PyList [one, two])])])
   in well_formed (node PNone)
      \<and> node_to_dict (node PNone)
          = Inr (JDict [(''loc'', JPrim (PTuple [PInt 2, PInt 7])),
                        (''name'', JDict [(''loc'', JPrim PNone), (''value'', JPrim (PStr ''id'')),
                                          (''__kind__'', JPrim (PStr ''Name''))]),
                        (''value'', JDict [(''loc'', JPrim PNone),
                                           (''values'', JList [JDict [(''loc'', JPrim PNone), (''value'', JPrim (PStr ''1'')),
                    (''__kind__'', JPrim (PStr ''IntValue''))], JDict [(''loc'', JPrim PNone), (''value'', JPrim (PStr ''RED'')),
                    (''__kind__'', JPrim (PStr ''EnumValue''))]]),
                                           (''__kind__'', JPrim (PStr ''ListValue''))]),
                        (''__kind__'', JPrim (PStr ''Argument''))])
      \<and> node_to_dict (PyList [one, two]) = Inr (JList [JDict [(''loc'', JPrim PNone), (''value'', JPrim (PStr ''1'')),
                    (''__kind__'', JPrim (PStr ''IntValue''))], JDict [(''loc'', JPrim PNone), (''value'', JPrim (PStr ''RED'')),
                    (''__kind__'', JPrim (PStr ''EnumValue''))]])
      \<and> py_eq (node PNone) (node (PStr ''query.graphql'')) = Inr True
      \<and> py_eq (PyList [one, two]) (PyList [one]) \<noteq> Inr True
      \<and> py_eq (PyList [one, two]) (PyList [two, one]) \<noteq> Inr True"
proof -
  let ?one = "NodeObj ''IntValue'' [(''source'', Prim PNone), (''loc'', Prim PNone),
                                 (''value'', Prim (PStr ''1''))]"
  let ?two = "NodeObj ''EnumValue'' [(''source'', Prim PNone), (''loc'', Prim PNone),
                                  (''value'', Prim (PStr ''RED''))]"
  let ?node = "(\<lambda>label. NodeObj ''Argument''
                 [(''source'', Prim label), (''loc'', Prim (PTuple [PInt 2, PInt 7])),
                  (''name'', NodeObj ''Name'' [(''source'', Prim PNone), (''loc'', Prim PNone),
                                               (''value'', Prim (PStr ''id''))]),
                  (''value'', NodeObj ''ListValue''
                     [(''source'', Prim PNone), (''loc'', Prim PNone),
                      (''values'', PyList [?one, ?two])])])"
  have p: "props ''Argument'' = [''loc'', ''name'', ''value'']"
    "props ''Name'' = [''loc'', ''value'']"
    "props ''ListValue'' = [''loc'', ''values'']"
    "props ''IntValue'' = [''loc'', ''value'']"
    "props ''EnumValue'' = [''loc'', ''value'']"
    by (simp_all add: props_def slots_of_def class_slots_def)
  have w: "well_formed (?node PNone)"
    by (simp add: p)
  note t = node_to_dict_and_equality[OF w, where vs = "[?one, ?two]"
      and js = "[JDict [(''loc'', JPrim PNone), (''value'', JPrim (PStr ''1'')),
                    (''__kind__'', JPrim (PStr ''IntValue''))], JDict [(''loc'', JPrim PNone), (''value'', JPrim (PStr ''RED'')),
                    (''__kind__'', JPrim (PStr ''EnumValue''))]]" and label = "PStr ''query.graphql''"]
  have a: "node_to_dict (?node PNone)
          = Inr (JDict [(''loc'', JPrim (PTuple [PInt 2, PInt 7])),
                        (''name'', JDict [(''loc'', JPrim PNone), (''value'', JPrim (PStr ''id'')),
                                          (''__kind__'', JPrim (PStr ''Name''))]),
                        (''value'', JDict [(''loc'', JPrim PNone),
                                           (''values'', JList [JDict [(''loc'', JPrim PNone), (''value'', JPrim (PStr ''1'')),
                    (''__kind__'', JPrim (PStr ''IntValue''))], JDict [(''loc'', JPrim PNone), (''value'', JPrim (PStr ''RED'')),
                    (''__kind__'', JPrim (PStr ''EnumValue''))]]),
                                           (''__kind__'', JPrim (PStr ''ListValue''))]),
                        (''__kind__'', JPrim (PStr ''Argument''))])"
    by (simp add: p getattr_def dict_set_def)
  have e: "node_to_dict ?one = Inr (JDict [(''loc'', JPrim PNone), (''value'', JPrim (PStr ''1'')),
                    (''__kind__'', JPrim (PStr ''IntValue''))])" "node_to_dict ?two = Inr (JDict [(''loc'', JPrim PNone), (''value'', JPrim (PStr ''RED'')),
                    (''__kind__'', JPrim (PStr ''EnumValue''))])"
    by (simp_all add: p getattr_def dict_set_def)
  from t e have b: "node_to_dict (PyList [?one, ?two]) = Inr (JList [JDict [(''loc'', JPrim PNone), (''value'', JPrim (PStr ''1'')),
                    (''__kind__'', JPrim (PStr ''IntValue''))], JDict [(''loc'', JPrim PNone), (''value'', JPrim (PStr ''RED'')),
                    (''__kind__'', JPrim (PStr ''EnumValue''))]])"
    by simp
  from t have c: "py_eq (?node PNone) (?node (PStr ''query.graphql'')) = Inr True"
    by (simp add: dict_set_def)
  have d: "py_eq (PyList [?one, ?two]) (PyList [?one]) \<noteq> Inr True"
    "py_eq (PyList [?one, ?two]) (PyList [?two, ?one]) \<noteq> Inr True"
    by (simp_all add: p getattr_def)
  from w a b c d show ?thesis
    unfolding Let_def by (intro conjI)
qed


section \<open>The type-info visitor\<close>

lemma pop_append [simp]: "pop (xs @ [x]) = Inr xs"
  by (simp add: pop_def)

lemma type_from_ast_total:
  assumes "documented_exceptions ts schema"
  shows "\<exists>t. type_from_ast schema type_node = Inr t"
proof (cases "get_type_from_literal schema type_node")
  case (Inl e)
  with assms obtain n where "e = UnknownType n"
    unfolding documented_exceptions_def by blast
  with Inl show ?thesis by (simp add: type_from_ast_def)
next
  case (Inr t)
  then show ?thesis by (simp add: type_from_ast_def)
qed

lemmas enter_defs =
  enter_operation_definition_def enter_selection_set_def enter_field_def enter_directive_def
  enter_fragment_definition_def enter_inline_fragment_def enter_variable_definition_def
  enter_argument_def enter_list_value_def enter_object_field_def enter_enum_value_def

lemmas leave_defs =
  leave_operation_definition_def leave_selection_set_def leave_field_def leave_directive_def
  leave_fragment_definition_def leave_inline_fragment_def leave_variable_definition_def
  leave_argument_def leave_list_value_def leave_object_field_def leave_enum_value_def
  leave_input_value_def

lemma enter_enum_value_total:
  assumes "documented_exceptions ts schema"
  shows "\<exists>st1. enter_enum_value ts v st = Inr st1 \<and> stacks st1 = stacks st"
proof (cases "(if isinstance ts (case input_type st of Some t \<Rightarrow> Some (unwrap_type ts t) | None \<Rightarrow> None) [EnumTypeClass] then (case input_type st of Some t \<Rightarrow> Some (unwrap_type ts t) | None \<Rightarrow> None) else None)")
  case None
  then show ?thesis by (simp add: enter_enum_value_def Let_def)
next
  case (Some enum_type)
  show ?thesis
  proof (cases "get_value ts enum_type v")
    case (Inl e)
    with assms obtain n where "e = UnknownEnumValue n"
      unfolding documented_exceptions_def by blast
    with Inl Some show ?thesis by (simp add: enter_enum_value_def Let_def stacks_def)
  next
    case (Inr ev)
    with Some show ?thesis by (simp add: enter_enum_value_def Let_def stacks_def)
  qed
qed

lemma enter_leave:
  assumes "documented_exceptions ts schema"
  shows "\<exists>st1. enter ts schema cls st = Inr st1
           \<and> (\<forall>st2. stacks st2 = stacks st1
                  \<longrightarrow> (\<exists>st3. leave cls st2 = Inr st3 \<and> stacks st3 = stacks st))"
proof (cases cls)
  case (FragmentDefinitionNode tc)
  from type_from_ast_total[OF assms] obtain t where "type_from_ast schema tc = Inr t" by blast
  with FragmentDefinitionNode show ?thesis
    by (auto simp: enter_defs leave_defs stacks_def)
next
  case (InlineFragmentNode tc)
  show ?thesis
  proof (cases tc)
    case None
    with InlineFragmentNode show ?thesis by (auto simp: enter_defs leave_defs stacks_def)
  next
    case (Some c)
    from type_from_ast_total[OF assms] obtain t where "type_from_ast schema c = Inr t" by blast
    with InlineFragmentNode Some show ?thesis by (auto simp: enter_defs leave_defs stacks_def)
  qed
next
  case (VariableDefinitionNode tn)
  from type_from_ast_total[OF assms] obtain t where "type_from_ast schema tn = Inr t" by blast
  with VariableDefinitionNode show ?thesis
    by (auto simp: enter_defs leave_defs stacks_def)
next
  case (EnumValueNode v)
  from enter_enum_value_total[OF assms] obtain st1
    where "enter_enum_value ts v st = Inr st1" "stacks st1 = stacks st" by blast
  with EnumValueNode show ?thesis by (auto simp: leave_defs stacks_def)
next
  case (ArgumentNode name)
  then show ?thesis
    by (cases "context_arguments st") (auto simp: enter_defs leave_defs stacks_def Let_def)
qed (auto simp: enter_defs leave_defs stacks_def Let_def split: option.splits)

lemma visit_restores:
  assumes "documented_exceptions ts schema"
  shows "\<exists>st'. visit ts schema node st = Inr st' \<and> stacks st' = stacks st"
    and "\<exists>st'. visit_all ts schema nodes st = Inr st' \<and> stacks st' = stacks st"
  using assms
proof (induction ts schema node st and ts schema nodes st rule: visit_visit_all.induct)
  case (1 ts schema cls children self)
  from enter_leave[OF 1(2)] obtain st1 where
    entered: "enter ts schema cls self = Inr st1" and
    left: "\<And>st2. stacks st2 = stacks st1
             \<Longrightarrow> \<exists>st3. leave cls st2 = Inr st3 \<and> stacks st3 = stacks self"
    by blast
  from 1(1)[OF entered 1(2)] obtain st2 where
    visited: "visit_all ts schema children st1 = Inr st2" and same: "stacks st2 = stacks st1"
    by blast
  from left[OF same] obtain st3 where "leave cls st2 = Inr st3" "stacks st3 = stacks self"
    by blast
  with entered visited show ?case by simp
next
  case (2 ts schema self)
  then show ?case by simp
next
  case (3 ts schema child rest self)
  from 3(1)[OF 3(3)] obtain st1 where
    first: "visit ts schema child self = Inr st1" and same: "stacks st1 = stacks self"
    by blast
  from 3(2)[OF first 3(3)] obtain st2 where
    "visit_all ts schema rest st1 = Inr st2" "stacks st2 = stacks st1"
    by blast
  with first same show ?case by simp
qed


lemma unknown_type_pushes_null:
  "get_type_from_literal schema type_node = Inl (UnknownType n) \<longrightarrow>
     enter ts schema (FragmentDefinitionNode type_node) st
       = Inr (st\<lparr>type_stack := type_stack st @ [None]\<rparr>)
     \<and> enter ts schema (InlineFragmentNode (Some type_node)) st
       = Inr (st\<lparr>type_stack := type_stack st @ [None]\<rparr>)
     \<and> enter ts schema (VariableDefinitionNode type_node) st
       = Inr (st\<lparr>input_type_stack := input_type_stack st @ [None]\<rparr>)"
  by (simp add: enter_defs type_from_ast_def)

lemma invalid_type_pushes_null:
  "get_type_from_literal schema type_node = Inr t \<and> \<not> is_output_type ts (Some t) \<longrightarrow>
     enter ts schema (FragmentDefinitionNode type_node) st
       = Inr (st\<lparr>type_stack := type_stack st @ [None]\<rparr>)
     \<and> enter ts schema (InlineFragmentNode (Some type_node)) st
       = Inr (st\<lparr>type_stack := type_stack st @ [None]\<rparr>)"
  "get_type_from_literal schema type_node = Inr t \<and> \<not> is_input_type ts (Some t) \<longrightarrow>
     enter ts schema (VariableDefinitionNode type_node) st
       = Inr (st\<lparr>input_type_stack := input_type_stack st @ [None]\<rparr>)"
  by (simp_all add: enter_defs type_from_ast_def)

lemma unknown_field_pushes_null:
  "self_get_field_def ts schema st name = None \<longrightarrow>
     enter ts schema (FieldNode name) st
       = Inr (st\<lparr>field_stack := field_stack st @ [None],
                 type_stack := type_stack st @ [None]\<rparr>)"
  "self_get_field_def ts schema st name = Some f \<and> \<not> is_output_type ts (Some (fld_type f)) \<longrightarrow>
     enter ts schema (FieldNode name) st
       = Inr (st\<lparr>field_stack := field_stack st @ [Some f],
                 type_stack := type_stack st @ [None]\<rparr>)"
  by (simp_all add: enter_defs output_type_of_def)

lemma unknown_directive_sets_null:
  "directives schema name = None \<longrightarrow>
     enter ts schema (DirectiveNode name) st = Inr (st\<lparr>ti_directive := None\<rparr>)"
  by (simp add: enter_defs)

lemma unknown_argument_pushes_null:
  "context_arguments st = None
   \<or> (\<exists>arguments. context_arguments st = Some arguments
         \<and> find_one arguments (\<lambda>a. iv_name a = name) = None) \<longrightarrow>
     enter ts schema (ArgumentNode name) st
       = Inr (st\<lparr>ti_argument := None,
                 input_type_stack := input_type_stack st @ [None],
                 input_value_def_stack := input_value_def_stack st @ [None]\<rparr>)"
  by (auto simp: enter_defs input_type_of_def)

lemma invalid_list_pushes_null:
  "\<not> isinstance ts (map_option (nullable_type ts) (input_type st)) [ListTypeClass] \<longrightarrow>
     enter ts schema ListValueNode st
       = Inr (st\<lparr>input_type_stack := input_type_stack st @ [None],
                 input_value_def_stack := input_value_def_stack st @ [None]\<rparr>)"
  by (auto simp: enter_defs input_type_of_def Let_def split: option.splits)

lemma unknown_input_field_pushes_null:
  "\<not> isinstance ts (map_option (unwrap_type ts) (input_type st)) [InputObjectTypeClass]
   \<or> (\<exists>t. input_type st = Some t
         \<and> find_one (input_fields ts (unwrap_type ts t)) (\<lambda>f. iv_name f = name) = None) \<longrightarrow>
     enter ts schema (ObjectFieldNode name) st
       = Inr (st\<lparr>input_type_stack := input_type_stack st @ [None],
                 input_value_def_stack := input_value_def_stack st @ [None]\<rparr>)"
  by (auto simp: enter_defs input_type_of_def Let_def isinstance_def split: option.splits)

lemma unknown_enum_value_sets_null:
  "input_type st = Some t \<and> isinstance ts (Some (unwrap_type ts t)) [EnumTypeClass]
   \<and> get_value ts (unwrap_type ts t) v = Inl (UnknownEnumValue n) \<longrightarrow>
     enter ts schema (EnumValueNode v) st = Inr (st\<lparr>ti_enum_value := None\<rparr>)"
  by (auto simp: enter_defs Let_def)

lemma unknown_operation_pushes_null:
  "operation \<notin> set [''query'', ''mutation'', ''subscription'']
   \<or> (operation = ''mutation'' \<and> mutation_type schema = None) \<longrightarrow>
     enter ts schema (OperationDefinitionNode operation) st
       = Inr (st\<lparr>type_stack := type_stack st @ [None]\<rparr>)"
  by (auto simp: enter_defs Let_def isinstance_def)


text \<open>
  C3. Let the schema's \<^verbatim>\<open>get_type_from_literal\<close> raise nothing but \<^verbatim>\<open>UnknownType\<close>
  and \<^verbatim>\<open>EnumType.get_value\<close> nothing but \<^verbatim>\<open>UnknownEnumValue\<close>. Then, for every type
  system, every schema, every state of the visitor and every node:
  the \<^verbatim>\<open>enter\<close> handler of the node returns, and the \<^verbatim>\<open>leave\<close> handler called on the
  state it produced returns and restores the five stacks; the traversal of any document,
  however malformed, returns and leaves the five stacks as it found them; and
  \<^item> a type reference that the schema does not know pushes \<^verbatim>\<open>None\<close> on the type stack
    (fragment definition, inline fragment) or on the input type stack (variable
    definition), and so does a known type of the wrong kind (not an output type,
    not an input type);
  \<^item> a field that has no definition pushes \<^verbatim>\<open>None\<close> on the field stack and on the type
    stack, and a field whose type is not an output type pushes \<^verbatim>\<open>None\<close> on the type stack;
  \<^item> an undeclared directive sets \<^verbatim>\<open>directive\<close> to \<^verbatim>\<open>None\<close>;
  \<^item> an argument with no directive or field around it, or whose name that directive or
    field does not declare, sets \<^verbatim>\<open>argument\<close> to \<^verbatim>\<open>None\<close> and pushes \<^verbatim>\<open>None\<close> on
    the input type stack and on the input value definition stack;
  \<^item> a list value where the input type is not a list, and an object field where the
    input type is not an input object or has no field of that name, push \<^verbatim>\<open>None\<close> on
    both input stacks;
  \<^item> an enum value that the current enum type does not have sets \<^verbatim>\<open>enum_value\<close> to
    \<^verbatim>\<open>None\<close>;
  \<^item> an operation whose kind is not one of the three, or a mutation when the schema has
    no mutation type, pushes \<^verbatim>\<open>None\<close> on the type stack.
\<close>

theorem type_info_visitor_never_raises:
  assumes "documented_exceptions ts schema"
  shows "(\<exists>st1. enter ts schema cls st = Inr st1
            \<and> (\<exists>st2. leave cls st1 = Inr st2 \<and> stacks st2 = stacks st))
       \<and> (\<exists>st'. visit ts schema node st = Inr st' \<and> stacks st' = stacks st)
       \<and> (get_type_from_literal schema type_node = Inl (UnknownType n) \<longrightarrow>
             enter ts schema (FragmentDefinitionNode type_node) st
               = Inr (st\<lparr>type_stack := type_stack st @ [None]\<rparr>)
             \<and> enter ts schema (InlineFragmentNode (Some type_node)) st
               = Inr (st\<lparr>type_stack := type_stack st @ [None]\<rparr>)
             \<and> enter ts schema (VariableDefinitionNode type_node) st
               = Inr (st\<lparr>input_type_stack := input_type_stack st @ [None]\<rparr>))
       \<and> (get_type_from_literal schema type_node = Inr t \<and> \<not> is_output_type ts (Some t) \<longrightarrow>
             enter ts schema (FragmentDefinitionNode type_node) st
               = Inr (st\<lparr>type_stack := type_stack st @ [None]\<rparr>)
             \<and> enter ts schema (InlineFragmentNode (Some type_node)) st
               = Inr (st\<lparr>type_stack := type_stack st @ [None]\<rparr>))
       \<and> (get_type_from_literal schema type_node = Inr t \<and> \<not> is_input_type ts (Some t) \<longrightarrow>
             enter ts schema (VariableDefinitionNode type_node) st
               = Inr (st\<lparr>input_type_stack := input_type_stack st @ [None]\<rparr>))
       \<and> (self_get_field_def ts schema st name = None \<longrightarrow>
             enter ts schema (FieldNode name) st
               = Inr (st\<lparr>field_stack := field_stack st @ [None],
                         type_stack := type_stack st @ [None]\<rparr>))
       \<and> (self_get_field_def ts schema st name = Some f
             \<and> \<not> is_output_type ts (Some (fld_type f)) \<longrightarrow>
             enter ts schema (FieldNode name) st
               = Inr (st\<lparr>field_stack := field_stack st @ [Some f],
                         type_stack := type_stack st @ [None]\<rparr>))
       \<and> (directives schema name = None \<longrightarrow>
             enter ts schema (DirectiveNode name) st = Inr (st\<lparr>ti_directive := None\<rparr>))
       \<and> (context_arguments st = None
            \<or> (\<exists>arguments. context_arguments st = Some arguments
                  \<and> find_one arguments (\<lambda>a. iv_name a = name) = None) \<longrightarrow>
             enter ts schema (ArgumentNode name) st
               = Inr (st\<lparr>ti_argument := None,
                         input_type_stack := input_type_stack st @ [None],
                         input_value_def_stack := input_value_def_stack st @ [None]\<rparr>))
       \<and> (\<not> isinstance ts (map_option (nullable_type ts) (input_type st)) [ListTypeClass] \<longrightarrow>
             enter ts schema ListValueNode st
               = Inr (st\<lparr>input_type_stack := input_type_stack st @ [None],
                         input_value_def_stack := input_value_def_stack st @ [None]\<rparr>))
       \<and> (\<not> isinstance ts (map_option (unwrap_type ts) (input_type st)) [InputObjectTypeClass]
            \<or> (\<exists>t. input_type st = Some t
                  \<and> find_one (input_fields ts (unwrap_type ts t)) (\<lambda>f. iv_name f = name) = None)
            \<longrightarrow>
             enter ts schema (ObjectFieldNode name) st
               = Inr (st\<lparr>input_type_stack := input_type_stack st @ [None],
                         input_value_def_stack := input_value_def_stack st @ [None]\<rparr>))
       \<and> (input_type st = Some t \<and> isinstance ts (Some (unwrap_type ts t)) [EnumTypeClass]
            \<and> get_value ts (unwrap_type ts t) name = Inl (UnknownEnumValue n) \<longrightarrow>
             enter ts schema (EnumValueNode name) st = Inr (st\<lparr>ti_enum_value := None\<rparr>))
       \<and> (name \<notin> set [''query'', ''mutation'', ''subscription'']
            \<or> (name = ''mutation'' \<and> mutation_type schema = None) \<longrightarrow>
             enter ts schema (OperationDefinitionNode name) st
               = Inr (st\<lparr>type_stack := type_stack st @ [None]\<rparr>))"
proof -
  from enter_leave[OF assms, of cls st]
  have a: "\<exists>st1. enter ts schema cls st = Inr st1
            \<and> (\<exists>st2. leave cls st1 = Inr st2 \<and> stacks st2 = stacks st)"
    by blast
  note b = visit_restores(1)[OF assms, of node st]
  show ?thesis
    apply (rule conjI, rule a)
    apply (rule conjI, rule b)
    apply (rule conjI, rule unknown_type_pushes_null)
    apply (rule conjI, rule invalid_type_pushes_null(1))
    apply (rule conjI, rule invalid_type_pushes_null(2))
    apply (rule conjI, rule unknown_field_pushes_null(1))
    apply (rule conjI, rule unknown_field_pushes_null(2))
    apply (rule conjI, rule unknown_directive_sets_null)
    apply (rule conjI, rule unknown_argument_pushes_null)
    apply (rule conjI, rule invalid_list_pushes_null)
    apply (rule conjI, rule unknown_input_field_pushes_null)
    apply (rule conjI, rule unknown_enum_value_sets_null)
    apply (rule unknown_operation_pushes_null)
    done
qed

text \<open>
  The theorem at a schema with one object type \<^verbatim>\<open>Query { hello: String }\<close> and the
  document \<^verbatim>\<open>query { hello(x: RED) nope { } } fragment on Missing @undeclared { }\<close>.
\<close>

theorem type_info_visitor_never_raises_witness:
  "let ts = \<lparr>instance_of = (\<lambda>t c. t = ''Query'' \<and> (c = ObjectTypeClass \<or> c = GraphQLCompositeTypeClass)),
             is_input_type = (\<lambda>t. t = Some ''String''),
             is_output_type = (\<lambda>t. t = Some ''Query'' \<or> t = Some ''String''),
             nullable_type = (\<lambda>t. t),
             unwrap_type = (\<lambda>t. t),
             field_map = (\<lambda>t name. if t = ''Query'' \<and> name = ''hello''
                                     then Some \<lparr>fld_name = ''hello'', fld_type = ''String'',
                                                fld_arguments = []\<rparr>
                                     else None),
             input_fields = (\<lambda>t. []),
             get_value = (\<lambda>t v. Inl (UnknownEnumValue v)),
             schema_introspection_field =
               \<lparr>fld_name = ''__schema'', fld_type = ''__Schema'', fld_arguments = []\<rparr>,
             type_introspection_field =
               \<lparr>fld_name = ''__type'', fld_type = ''__Type'', fld_arguments = []\<rparr>,
             type_name_introspection_field =
               \<lparr>fld_name = ''__typename'', fld_type = ''String'', fld_arguments = []\<rparr>\<rparr>;
       schema = \<lparr>query_type = Some ''Query'', mutation_type = None, subscription_type = None,
                 directives = (\<lambda>name. None),
                 get_type_from_literal =
                   (\<lambda>type_node. if type_node = NamedType ''Query'' then Inr ''Query''
                                 else Inl (UnknownType ''Missing''))\<rparr>;
       document = DocNode OtherNode
                   [DocNode (OperationDefinitionNode ''query'')
                      [DocNode SelectionSetNode
                         [DocNode (FieldNode ''hello'')
                            [DocNode (ArgumentNode ''x'') [DocNode (EnumValueNode ''RED'') []]],
                          DocNode (FieldNode ''nope'') [DocNode SelectionSetNode []]]],
                    DocNode (FragmentDefinitionNode (NamedType ''Missing''))
                      [DocNode (DirectiveNode ''undeclared'') [],
                       DocNode SelectionSetNode []]]
   in documented_exceptions ts schema
      \<and> (\<exists>st'. visit ts schema document init_type_info = Inr st'
                \<and> stacks st' = stacks (init_type_info :: string type_info))
      \<and> visit ts schema document init_type_info = Inr init_type_info
      \<and> enter ts schema (FragmentDefinitionNode (NamedType ''Missing'')) init_type_info
          = Inr (init_type_info\<lparr>type_stack := [None]\<rparr>)
      \<and> enter ts schema (FieldNode ''nope'') init_type_info
          = Inr (init_type_info\<lparr>field_stack := [None], type_stack := [None]\<rparr>)"
proof -
  let ?ts = "\<lparr>instance_of = (\<lambda>t c. t = ''Query'' \<and> (c = ObjectTypeClass \<or> c = GraphQLCompositeTypeClass)),
             is_input_type = (\<lambda>t. t = Some ''String''),
             is_output_type = (\<lambda>t. t = Some ''Query'' \<or> t = Some ''String''),
             nullable_type = (\<lambda>t. t),
             unwrap_type = (\<lambda>t. t),
             field_map = (\<lambda>t name. if t = ''Query'' \<and> name = ''hello''
                                     then Some \<lparr>fld_name = ''hello'', fld_type = ''String'',
                                                fld_arguments = []\<rparr>
                                     else None),
             input_fields = (\<lambda>t. []),
             get_value = (\<lambda>t v. Inl (UnknownEnumValue v)),
             schema_introspection_field =
               \<lparr>fld_name = ''__schema'', fld_type = ''__Schema'', fld_arguments = []\<rparr>,
             type_introspection_field =
               \<lparr>fld_name = ''__type'', fld_type = ''__Type'', fld_arguments = []\<rparr>,
             type_name_introspection_field =
               \<lparr>fld_name = ''__typename'', fld_type = ''String'', fld_arguments = []\<rparr>\<rparr>"
  let ?schema = "\<lparr>query_type = Some ''Query'', mutation_type = None, subscription_type = None,
                 directives = (\<lambda>name. None),
                 get_type_from_literal =
                   (\<lambda>type_node. if type_node = NamedType ''Query'' then Inr ''Query''
                                 else Inl (UnknownType ''Missing''))\<rparr>"
  let ?document = "DocNode OtherNode
                   [DocNode (OperationDefinitionNode ''query'')
                      [DocNode SelectionSetNode
                         [DocNode (FieldNode ''hello'')
                            [DocNode (ArgumentNode ''x'') [DocNode (EnumValueNode ''RED'') []]],
                          DocNode (FieldNode ''nope'') [DocNode SelectionSetNode []]]],
                    DocNode (FragmentDefinitionNode (NamedType ''Missing''))
                      [DocNode (DirectiveNode ''undeclared'') [],
                       DocNode SelectionSetNode []]]"
  have d: "documented_exceptions ?ts ?schema"
    by (simp add: documented_exceptions_def)
  note t = type_info_visitor_never_raises[OF d, where node = ?document
      and st = "init_type_info" and type_node = "NamedType ''Missing''" and n = "''Missing''"
      and name = "''nope''"]
  have v: "visit ?ts ?schema ?document init_type_info = Inr init_type_info"
    by (simp add: enter_defs leave_defs init_type_info_def peek_def pop_def current_type_def
        parent_type_def input_type_def current_field_def isinstance_def get_field_def_def
        self_get_field_def_def type_from_ast_def output_type_of_def input_type_of_def
        context_arguments_def find_one_def Let_def)
  have n: "self_get_field_def ?ts ?schema init_type_info ''nope'' = None"
    by (simp add: self_get_field_def_def parent_type_def peek_def init_type_info_def)
  from t have b: "\<exists>st'. visit ?ts ?schema ?document init_type_info = Inr st'
                \<and> stacks st' = stacks (init_type_info :: string type_info)"
    by (rule conjunct2 [THEN conjunct1])
  from t have u: "enter ?ts ?schema (FragmentDefinitionNode (NamedType ''Missing'')) init_type_info
          = Inr (init_type_info\<lparr>type_stack := type_stack init_type_info @ [None]\<rparr>)"
    by simp
  from t n have f: "enter ?ts ?schema (FieldNode ''nope'') init_type_info
          = Inr (init_type_info\<lparr>field_stack := field_stack init_type_info @ [None],
                                type_stack := type_stack init_type_info @ [None]\<rparr>)"
    by simp
  have i: "type_stack (init_type_info :: string type_info) = []"
    "field_stack (init_type_info :: string type_info) = []"
    by (simp_all add: init_type_info_def)
  from d b v u f show ?thesis
    unfolding Let_def i by (intro conjI) simp_all
qed

end
